(* ===== verification/Prelude.thy ===== *)
theory Prelude imports Complex_Main "HOL-Library.List_Lexorder" "HOL-Library.Char_ord" "HOL-Library.Product_Lexorder" begin

text \<open>
  Shared vocabulary of the development: Python exceptions as values, the result type of a
  fallible operation and its sequencing, Python floats, the relational tables of the SQLite
  ledger as association lists in rowid order, and the small string library of the source.
\<close>

named_theorems result_simps
named_theorems table_simps

section \<open>Python exceptions and fallible results\<close>

text \<open>The outcome classes of \<open>dante/contracts/tools.py\<close> are needed by \<open>ToolDenied\<close>.\<close>

datatype tool_status =
    SUCCESS | VALIDATION_DENIED | POLICY_DENIED | APPROVAL_REQUIRED | APPROVAL_INVALID
  | TIMEOUT | EXECUTION_FAILURE | OUTPUT_LIMIT | UNCERTAIN

text \<open>The classes of \<open>dante/inference.py\<close>, and what a continuity outcome tells the task to do.\<close>

datatype inference_error =
    InferenceError | AdapterUnavailable | InferenceTimeout | RateQuotaUnavailable | RateLimitUnavailable
  | QuotaExhausted | InvalidResponse | InvalidRequest | ContextExceeded | PolicyDenied
  | QualificationDenied | ConfigurationDenied

datatype disposition = ContinueNow | RetryLater | Terminal

text \<open>
  One constructor per exception class the source raises or that a library call it makes can
  raise. An inference failure carries its \<open>retry_after\<close> and \<open>retry_at\<close>, a continuity signal its
  outcome. \<open>ValueError\<close> stands for its subclasses too (pydantic's \<open>ValidationError\<close>,
  \<open>JSONDecodeError\<close>, \<open>UnicodeError\<close>), \<open>OSError\<close> for the file-system errors.
\<close>

datatype exn =
    KeyError | ValueError | TypeError | AttributeError | RuntimeError | OSError
  | IntegrityError | PermissionError | InvalidTransition | LeaseLost | CancellationRequested
  | ReconciliationRequired | RouteDenied | ToolDenied tool_status
  | InferenceFailed inference_error "rat option" "rat option"
  | ContinuitySignal disposition string "rat option"

type_synonym 'a result = "exn + 'a"

definition rbind :: "'err + 'x \<Rightarrow> ('x \<Rightarrow> 'err + 'y) \<Rightarrow> 'err + 'y" where
  "rbind m f = (case m of Inl e \<Rightarrow> Inl e | Inr x \<Rightarrow> f x)"

definition of_opt :: "'e \<Rightarrow> 'a option \<Rightarrow> 'e + 'a" where
  "of_opt e x = (case x of None \<Rightarrow> Inl e | Some y \<Rightarrow> Inr y)"

definition guard :: "bool \<Rightarrow> 'e \<Rightarrow> 'e + unit" where
  "guard b e = (if b then Inr () else Inl e)"

definition is_ok :: "'e + 'a \<Rightarrow> bool" where
  "is_ok m = (case m of Inl _ \<Rightarrow> False | Inr _ \<Rightarrow> True)"

section \<open>Python floats\<close>

text \<open>
  A finite IEEE double is a rational number; arithmetic on times is exact here, without
  rounding. \<open>float_isfinite\<close> is \<open>math.isfinite\<close>.
\<close>

datatype pyfloat = Fin rat | PosInf | NegInf | NaN

fun float_isfinite :: "pyfloat \<Rightarrow> bool" where
  "float_isfinite (Fin _) = True"
| "float_isfinite _ = False"

section \<open>Relational tables\<close>

text \<open>
  A SQLite table with a primary key: the rows in rowid order. \<open>t_ins\<close> is \<open>INSERT\<close>
  (a duplicate key is an \<open>IntegrityError\<close>), \<open>t_ins_ignore\<close> is \<open>INSERT OR IGNORE\<close>,
  \<open>t_replace\<close> is \<open>INSERT OR REPLACE\<close> (the old row is deleted, the new one gets the next
  rowid), \<open>t_upd\<close> is \<open>UPDATE ... WHERE key = ?\<close>.
\<close>

type_synonym ('k, 'r) table = "('k \<times> 'r) list"

definition t_get :: "('k, 'r) table \<Rightarrow> 'k \<Rightarrow> 'r option" where
  "t_get t k = map_of t k"

definition t_rows :: "('k, 'r) table \<Rightarrow> 'r list" where
  "t_rows t = map snd t"

definition t_ins :: "'k \<Rightarrow> 'r \<Rightarrow> ('k, 'r) table \<Rightarrow> ('k, 'r) table result" where
  "t_ins k r t = (if t_get t k = None then Inr (t @ [(k, r)]) else Inl IntegrityError)"

definition t_ins_ignore :: "'k \<Rightarrow> 'r \<Rightarrow> ('k, 'r) table \<Rightarrow> ('k, 'r) table" where
  "t_ins_ignore k r t = (if t_get t k = None then t @ [(k, r)] else t)"

definition t_replace :: "'k \<Rightarrow> 'r \<Rightarrow> ('k, 'r) table \<Rightarrow> ('k, 'r) table" where
  "t_replace k r t = filter (\<lambda>kr. fst kr \<noteq> k) t @ [(k, r)]"

definition t_upd :: "'k \<Rightarrow> ('r \<Rightarrow> 'r) \<Rightarrow> ('k, 'r) table \<Rightarrow> ('k, 'r) table" where
  "t_upd k f t = map (\<lambda>kr. if fst kr = k then (fst kr, f (snd kr)) else kr) t"

definition t_upd_where :: "('r \<Rightarrow> bool) \<Rightarrow> ('r \<Rightarrow> 'r) \<Rightarrow> ('k, 'r) table \<Rightarrow> ('k, 'r) table" where
  "t_upd_where P f t = map (\<lambda>kr. if P (snd kr) then (fst kr, f (snd kr)) else kr) t"

definition t_wf :: "('k, 'r) table \<Rightarrow> bool" where
  "t_wf t = distinct (map fst t)"

section \<open>Dictionaries\<close>

text \<open>
  A Python dictionary with its insertion order: an association list with distinct keys.
  \<open>dict_set\<close> is \<open>d[k] = v\<close>, \<open>dict_del\<close> is \<open>d.pop(k, None)\<close>, \<open>dict_merge\<close> is
  \<open>{**a, **b}\<close> or \<open>a.update(b)\<close>.
\<close>

fun dict_set :: "'k \<Rightarrow> 'v \<Rightarrow> ('k \<times> 'v) list \<Rightarrow> ('k \<times> 'v) list" where
  "dict_set k v [] = [(k, v)]"
| "dict_set k v ((k', v') # d) = (if k' = k then (k, v) # d else (k', v') # dict_set k v d)"

definition dict_del :: "'k \<Rightarrow> ('k \<times> 'v) list \<Rightarrow> ('k \<times> 'v) list" where
  "dict_del k d = filter (\<lambda>kv. fst kv \<noteq> k) d"

fun dict_merge :: "('k \<times> 'v) list \<Rightarrow> ('k \<times> 'v) list \<Rightarrow> ('k \<times> 'v) list" where
  "dict_merge a [] = a"
| "dict_merge a ((k, v) # b) = dict_merge (dict_set k v a) b"

definition dict_keys :: "('k \<times> 'v) list \<Rightarrow> 'k list" where
  "dict_keys d = map fst d"

section \<open>Strings\<close>

definition is_space :: "char \<Rightarrow> bool" where
  "is_space c = (c \<in> {CHR '' '', CHR 0x09, CHR 0x0A, CHR 0x0B, CHR 0x0C, CHR 0x0D,
                       CHR 0x1C, CHR 0x1D, CHR 0x1E, CHR 0x1F, CHR 0x85, CHR 0xA0})"

definition strip_by :: "(char \<Rightarrow> bool) \<Rightarrow> string \<Rightarrow> string" where
  "strip_by P s = rev (dropWhile P (rev (dropWhile P s)))"

definition strip :: "string \<Rightarrow> string" where
  "strip s = strip_by is_space s"

definition upper_char :: "char \<Rightarrow> char" where
  "upper_char c = (if CHR ''a'' \<le> c \<and> c \<le> CHR ''z'' then char_of (of_char c - 32 :: nat) else c)"

definition lower_char :: "char \<Rightarrow> char" where
  "lower_char c = (if CHR ''A'' \<le> c \<and> c \<le> CHR ''Z'' then char_of (of_char c + 32 :: nat) else c)"

definition upper :: "string \<Rightarrow> string" where
  "upper s = map upper_char s"

definition lower :: "string \<Rightarrow> string" where
  "lower s = map lower_char s"

fun startswith :: "string \<Rightarrow> string \<Rightarrow> bool" where
  "startswith s [] = True"
| "startswith [] (p # ps) = False"
| "startswith (c # s) (p # ps) = (c = p \<and> startswith s ps)"

definition removeprefix :: "string \<Rightarrow> string \<Rightarrow> string" where
  "removeprefix s p = (if startswith s p then drop (length p) s else s)"

fun digit_char :: "nat \<Rightarrow> char" where
  "digit_char n = char_of (48 + n)"

fun dec_nat :: "nat \<Rightarrow> string" where
  "dec_nat n = (if n < 10 then [digit_char n] else dec_nat (n div 10) @ [digit_char (n mod 10)])"

declare dec_nat.simps [simp del]
declare digit_char.simps [simp del]

definition dec_int :: "int \<Rightarrow> string" where
  "dec_int i = (if i < 0 then CHR ''-'' # dec_nat (nat (- i)) else dec_nat (nat i))"

text \<open>\<open>s.split(d)\<close>\<close>

fun split_on :: "char \<Rightarrow> string \<Rightarrow> string list" where
  "split_on d [] = [[]]"
| "split_on d (c # s) =
     (if c = d then [] # split_on d s
      else (case split_on d s of [] \<Rightarrow> [[c]] | x # xs \<Rightarrow> (c # x) # xs))"

fun join :: "string \<Rightarrow> string list \<Rightarrow> string" where
  "join sep [] = []"
| "join sep [x] = x"
| "join sep (x # y # xs) = x @ sep @ join sep (y # xs)"

section \<open>Results\<close>

lemma rbind_Inl [simp, result_simps]: "rbind (Inl e) f = Inl e"
  by (simp add: rbind_def)

lemma rbind_Inr [simp, result_simps]: "rbind (Inr x) f = f x"
  by (simp add: rbind_def)

lemma rbind_eq_Inr [result_simps]: "rbind m f = Inr y \<longleftrightarrow> (\<exists>x. m = Inr x \<and> f x = Inr y)"
  by (cases m) auto

lemma rbind_eq_Inl: "rbind m f = Inl e \<longleftrightarrow> m = Inl e \<or> (\<exists>x. m = Inr x \<and> f x = Inl e)"
  by (cases m) auto

lemma rbindE: "rbind m f = Inr y \<Longrightarrow> (\<And>x. m = Inr x \<Longrightarrow> f x = Inr y \<Longrightarrow> P) \<Longrightarrow> P"
  by (auto simp: rbind_eq_Inr)

lemma rbind_assoc: "rbind (rbind m f) g = rbind m (\<lambda>x. rbind (f x) g)"
  by (cases m) auto

lemma of_opt_simps [simp]: "of_opt e None = Inl e" "of_opt e (Some x) = Inr x"
  by (simp_all add: of_opt_def)

lemma of_opt_eq_Inr [result_simps]: "of_opt e m = Inr x \<longleftrightarrow> m = Some x"
  by (cases m) auto

lemma of_opt_eq_Inl [result_simps]: "of_opt e m = Inl e' \<longleftrightarrow> m = None \<and> e' = e"
  by (cases m) auto

lemma guard_eq_Inr [simp, result_simps]: "guard b e = Inr u \<longleftrightarrow> b"
  by (simp add: guard_def)

lemma guard_eq_Inl [result_simps]: "guard b e = Inl e' \<longleftrightarrow> \<not> b \<and> e' = e"
  by (auto simp: guard_def)

lemma guard_simps [simp]: "guard True e = Inr ()" "guard False e = Inl e"
  by (simp_all add: guard_def)

lemma is_ok_simps [simp]: "is_ok (Inl e) = False" "is_ok (Inr x) = True"
  by (simp_all add: is_ok_def)

lemma is_ok_iff: "is_ok m \<longleftrightarrow> (\<exists>x. m = Inr x)"
  by (cases m) auto

section \<open>The table contract\<close>

text \<open>
  What every component of the ledger relies on when it reads, inserts and updates rows by
  primary key. The client lemmas are proved once from the laws.
\<close>

locale keyed_table =
  fixes get :: "'t \<Rightarrow> 'k \<Rightarrow> 'r option"
    and ins :: "'k \<Rightarrow> 'r \<Rightarrow> 't \<Rightarrow> 't result"
    and upd :: "'k \<Rightarrow> ('r \<Rightarrow> 'r) \<Rightarrow> 't \<Rightarrow> 't"
  assumes ins_dup: "get t k \<noteq> None \<Longrightarrow> ins k r t = Inl IntegrityError"
    and ins_new: "get t k = None \<Longrightarrow> \<exists>t'. ins k r t = Inr t' \<and> get t' = (get t)(k \<mapsto> r)"
    and get_upd: "get (upd k f t) = (get t)(k := map_option f (get t k))"
begin

lemma ins_ok_iff: "(\<exists>t'. ins k r t = Inr t') \<longleftrightarrow> get t k = None"
  using ins_dup ins_new by (metis sum.distinct(1))

lemma ins_get: "ins k r t = Inr t' \<Longrightarrow> get t' = (get t)(k \<mapsto> r) \<and> get t k = None"
  using ins_dup ins_new by (metis Inr_inject sum.distinct(1))

lemma ins_error: "ins k r t = Inl e \<Longrightarrow> e = IntegrityError \<and> get t k \<noteq> None"
  using ins_dup ins_new by (metis Inl_inject sum.distinct(1))

lemma upd_dom: "dom (get (upd k f t)) = dom (get t)"
  by (auto simp: get_upd dom_def split: if_splits)

lemma upd_absent: "get t k = None \<Longrightarrow> get (upd k f t) = get t"
  by (auto simp: get_upd)

lemma upd_upd: "get (upd k g (upd k f t)) = get (upd k (\<lambda>r. g (f r)) t)"
  by (auto simp: get_upd option.map_comp comp_def)

lemma upd_preserves:
  assumes "\<And>k r. get t k = Some r \<Longrightarrow> P k r" and "\<And>r. get t k = Some r \<Longrightarrow> P k (f r)"
  shows "get (upd k f t) k' = Some r' \<Longrightarrow> P k' r'"
  using assms by (auto simp: get_upd split: if_splits)

end

lemma t_get_append: "t_get (t @ [(k, r)]) = (\<lambda>x. case t_get t x of None \<Rightarrow> if x = k then Some r else None | Some y \<Rightarrow> Some y)"
  by (auto simp: t_get_def map_add_def fun_eq_iff split: option.splits)

lemma t_get_upd: "t_get (t_upd k f t) = (t_get t)(k := map_option f (t_get t k))"
  by (induction t) (auto simp: t_get_def t_upd_def fun_eq_iff)

interpretation tbl: keyed_table "t_get :: ('k, 'r) table \<Rightarrow> 'k \<Rightarrow> 'r option" t_ins t_upd
proof unfold_locales
  fix t :: "('k, 'r) table" and k r
  show "t_get t k \<noteq> None \<Longrightarrow> t_ins k r t = Inl IntegrityError"
    by (simp add: t_ins_def)
  show "t_get t k = None \<Longrightarrow> \<exists>t'. t_ins k r t = Inr t' \<and> t_get t' = (t_get t)(k \<mapsto> r)"
    by (auto simp: t_ins_def t_get_append fun_eq_iff split: option.splits)
next
  fix t :: "('k, 'r) table" and k f
  show "t_get (t_upd k f t) = (t_get t)(k := map_option f (t_get t k))"
    by (rule t_get_upd)
qed

lemma t_ins_Inr [table_simps]:
  "t_ins k r t = Inr t' \<longleftrightarrow> t_get t k = None \<and> t' = t @ [(k, r)]"
  by (auto simp: t_ins_def)

lemma t_get_snoc_new [table_simps]: "t_get t k = None \<Longrightarrow> t_get (t @ [(k, r)]) = (t_get t)(k \<mapsto> r)"
  by (auto simp: t_get_append fun_eq_iff split: option.splits)

lemma t_upd_upd: "t_upd k g (t_upd k f t) = t_upd k (\<lambda>r. g (f r)) t"
  by (induction t) (auto simp: t_upd_def)

lemma t_get_upd_same [simp]: "t_get (t_upd k f t) k = map_option f (t_get t k)"
  by (simp add: t_get_upd)

lemma t_get_upd_other [simp]: "k' \<noteq> k \<Longrightarrow> t_get (t_upd k f t) k' = t_get t k'"
  by (simp add: t_get_upd)

lemma t_get_ins_ignore:
  "t_get (t_ins_ignore k r t) = (if t_get t k = None then (t_get t)(k \<mapsto> r) else t_get t)"
  by (simp add: t_ins_ignore_def t_get_snoc_new)

lemma t_get_filter_ne: "t_get (filter (\<lambda>kr. fst kr \<noteq> k) t) = (t_get t)(k := None)"
  by (induction t) (auto simp: t_get_def fun_eq_iff)

lemma t_get_replace: "t_get (t_replace k r t) = (t_get t)(k \<mapsto> r)"
  by (auto simp: t_replace_def t_get_append t_get_filter_ne fun_eq_iff split: option.splits)

lemma t_get_upd_where:
  "t_get (t_upd_where P f t) k = map_option (\<lambda>r. if P r then f r else r) (t_get t k)"
  by (induction t) (auto simp: t_get_def t_upd_where_def)

lemma t_get_in_set: "t_get t k = Some r \<Longrightarrow> (k, r) \<in> set t"
  by (simp add: t_get_def map_of_SomeD)

lemma t_wf_get: "t_wf t \<Longrightarrow> (k, r) \<in> set t \<Longrightarrow> t_get t k = Some r"
  by (simp add: t_wf_def t_get_def)

lemma map_fst_upd [simp]: "map fst (t_upd k f t) = map fst t"
  by (induction t) (auto simp: t_upd_def)

lemma map_fst_upd_where [simp]: "map fst (t_upd_where P f t) = map fst t"
  by (induction t) (auto simp: t_upd_where_def)

lemma t_wf_upd [simp]: "t_wf (t_upd k f t) = t_wf t"
  by (simp add: t_wf_def)

lemma t_wf_upd_where [simp]: "t_wf (t_upd_where P f t) = t_wf t"
  by (simp add: t_wf_def)

lemma t_get_None_iff: "t_get t k = None \<longleftrightarrow> k \<notin> fst ` set t"
  by (simp add: t_get_def map_of_eq_None_iff)

lemma t_wf_snoc: "t_wf t \<Longrightarrow> t_get t k = None \<Longrightarrow> t_wf (t @ [(k, r)])"
  by (auto simp: t_wf_def t_get_None_iff image_iff)

lemma t_wf_ins: "t_wf t \<Longrightarrow> t_ins k r t = Inr t' \<Longrightarrow> t_wf t'"
  by (auto simp: t_ins_Inr intro: t_wf_snoc)

lemma t_wf_ins_ignore: "t_wf t \<Longrightarrow> t_wf (t_ins_ignore k r t)"
  by (simp add: t_ins_ignore_def t_wf_snoc)

lemma t_wf_replace: "t_wf t \<Longrightarrow> t_wf (t_replace k r t)"
  by (auto simp: t_wf_def t_replace_def distinct_map_filter)

section \<open>Dictionary facts\<close>

lemma map_of_dict_set [simp]: "map_of (dict_set k v d) = (map_of d)(k \<mapsto> v)"
  by (induction k v d rule: dict_set.induct) (auto simp: fun_eq_iff)

lemma map_of_dict_del: "map_of (dict_del k d) = (map_of d)(k := None)"
  unfolding dict_del_def by (induction d) (auto simp: fun_eq_iff)

lemma keys_dict_set: "fst ` set (dict_set k v d) = insert k (fst ` set d)"
  by (induction k v d rule: dict_set.induct) auto

lemma distinct_dict_set: "distinct (map fst d) \<Longrightarrow> distinct (map fst (dict_set k v d))"
proof (induction k v d rule: dict_set.induct)
  case (2 k v k' v' d)
  then show ?case using keys_dict_set [of k v d] by auto
qed simp

lemma distinct_dict_merge: "distinct (map fst a) \<Longrightarrow> distinct (map fst (dict_merge a b))"
  by (induction a b rule: dict_merge.induct) (auto intro: distinct_dict_set)

lemma map_of_dict_merge: "distinct (map fst b) \<Longrightarrow> map_of (dict_merge a b) = map_of a ++ map_of b"
proof (induction a b rule: dict_merge.induct)
  case (2 a k v b)
  then have "map_of b k = None" by (auto simp: map_of_eq_None_iff)
  with 2 show ?case by (auto simp: map_add_def fun_eq_iff split: option.splits)
qed simp

section \<open>String facts\<close>

lemma startswith_iff: "startswith s p \<longleftrightarrow> (\<exists>r. s = p @ r)"
  by (induction s p rule: startswith.induct) auto

lemma set_strip_by: "set (strip_by P s) \<subseteq> set s"
  by (auto simp: strip_by_def dest!: set_dropWhileD)

lemma hd_strip_by: "strip_by P s \<noteq> [] \<Longrightarrow> \<not> P (hd (strip_by P s))"
proof -
  assume ne: "strip_by P s \<noteq> []"
  let ?d = "dropWhile P s"
  obtain zs where zs: "?d = strip_by P s @ zs"
    unfolding strip_by_def
    by (metis rev_append rev_rev_ident takeWhile_dropWhile_id)
  with ne have "hd ?d = hd (strip_by P s)" by simp
  moreover have "?d \<noteq> []" using ne zs by auto
  ultimately show ?thesis using hd_dropWhile by metis
qed

lemma last_strip_by: "strip_by P s \<noteq> [] \<Longrightarrow> \<not> P (last (strip_by P s))"
  unfolding strip_by_def by (metis hd_dropWhile last_rev rev_is_Nil_conv)

lemma digit_char_inj: "n < 10 \<Longrightarrow> m < 10 \<Longrightarrow> digit_char n = digit_char m \<Longrightarrow> n = m"
proof -
  assume a: "n < 10" "m < 10" "digit_char n = digit_char m"
  then have "(of_char (digit_char n) :: nat) = of_char (digit_char m)" by simp
  with a show ?thesis by (simp add: digit_char.simps)
qed

lemma dec_nat_ne [simp]: "dec_nat n \<noteq> []"
  by (subst dec_nat.simps) simp

lemma dec_nat_inj: "dec_nat n = dec_nat m \<Longrightarrow> n = m"
proof (induction n arbitrary: m rule: dec_nat.induct)
  case (1 n)
  show ?case
  proof (cases "n < 10")
    case n: True
    have "m < 10"
    proof (rule ccontr)
      assume "\<not> m < 10"
      then have "length (dec_nat m) = length (dec_nat (m div 10)) + 1"
        by (simp add: dec_nat.simps [of m])
      moreover have "length (dec_nat (m div 10)) \<noteq> 0" by simp
      moreover have "length (dec_nat m) = 1"
        using n "1.prems" [symmetric] by (simp add: dec_nat.simps [of n])
      ultimately show False by linarith
    qed
    with n "1.prems" show ?thesis
      by (auto simp: dec_nat.simps [of n] dec_nat.simps [of m] intro: digit_char_inj)
  next
    case n: False
    have m: "\<not> m < 10"
    proof
      assume "m < 10"
      then have "length (dec_nat m) = 1" by (simp add: dec_nat.simps [of m])
      moreover have "length (dec_nat n) = length (dec_nat (n div 10)) + 1"
        using n by (simp add: dec_nat.simps [of n])
      moreover have "length (dec_nat (n div 10)) \<noteq> 0" by simp
      ultimately show False using "1.prems" by simp
    qed
    from n m "1.prems" have "dec_nat (n div 10) = dec_nat (m div 10)"
      and "digit_char (n mod 10) = digit_char (m mod 10)"
      by (simp_all add: dec_nat.simps [of n] dec_nat.simps [of m])
    with "1.IH" [OF n] have "n div 10 = m div 10" and "n mod 10 = m mod 10"
      by (auto intro: digit_char_inj)
    then show ?thesis by (metis div_mult_mod_eq)
  qed
qed

lemma digit_char_range: "n < 10 \<Longrightarrow> CHR ''0'' \<le> digit_char n \<and> digit_char n \<le> CHR ''9''"
  by (simp add: digit_char.simps less_eq_char_def)

lemma dec_nat_digits: "c \<in> set (dec_nat n) \<Longrightarrow> CHR ''0'' \<le> c \<and> c \<le> CHR ''9''"
proof (induction n rule: dec_nat.induct)
  case (1 n)
  then show ?case
    using digit_char_range [of n] digit_char_range [of "n mod 10"]
    by (auto simp: dec_nat.simps [of n] split: if_splits)
qed

lemma dec_int_inj: "dec_int i = dec_int j \<Longrightarrow> i = j"
proof -
  assume eq: "dec_int i = dec_int j"
  have no_minus: "CHR ''-'' \<notin> set (dec_nat n)" for n
    using dec_nat_digits [of "CHR ''-''" n] by (auto simp: less_eq_char_def)
  have hd: "dec_nat n \<noteq> CHR ''-'' # r" for n r
    using no_minus [of n] by (metis list.set_intros(1))
  from eq show "i = j"
    using hd by (auto simp: dec_int_def dest: dec_nat_inj split: if_splits) (metis hd)+
qed

lemma dec_int_ne [simp]: "dec_int i \<noteq> []"
  by (simp add: dec_int_def)

lemma dec_int_chars: "c \<in> set (dec_int i) \<Longrightarrow> c = CHR ''-'' \<or> CHR ''0'' \<le> c \<and> c \<le> CHR ''9''"
  by (auto simp: dec_int_def dest: dec_nat_digits split: if_splits)

end
