(* ===== verification/Py_Values.thy ===== *)
theory Py_Values imports Prelude begin

text \<open>
  Dynamic Python values as the source handles them (tool arguments, tool results, JSON
  documents, metadata), Python equality between them, and the canonical JSON text and digest of
  \<open>digest\<close> in dante/recovery.py. The SHA-256 of \<open>hashlib\<close> and the shortest float
  representation of the interpreter are arguments of the model.
\<close>

section \<open>Values\<close>

text \<open>\<open>KInt\<close> stands for a dictionary key that is not a string.\<close>

datatype pykey = KStr string | KInt int

datatype pyval =
    PNone
  | PBool bool
  | PInt int
  | PFloat pyfloat
  | PStr string
  | PList "pyval list"
  | PTuple "pyval list"
  | PDict "(pykey \<times> pyval) list"

type_synonym pydict = "(pykey \<times> pyval) list"

fun is_KStr :: "pykey \<Rightarrow> bool" where
  "is_KStr (KStr _) = True"
| "is_KStr (KInt _) = False"

fun key_text :: "pykey \<Rightarrow> string" where
  "key_text (KStr s) = s"
| "key_text (KInt _) = []"

definition dget :: "pydict \<Rightarrow> string \<Rightarrow> pyval option" where
  "dget d k = map_of d (KStr k)"

text \<open>
  Python's \<open>==\<close>: booleans and integers are numbers, an integer equals the float with its
  value, lists and tuples compare element by element within their own type, dictionaries as
  mappings.
\<close>

fun num_of :: "pyval \<Rightarrow> rat option" where
  "num_of (PBool b) = Some (if b then 1 else 0)"
| "num_of (PInt i) = Some (of_int i)"
| "num_of (PFloat (Fin q)) = Some q"
| "num_of _ = None"

fun py_eq :: "pyval \<Rightarrow> pyval \<Rightarrow> bool"
  and py_eq_list :: "pyval list \<Rightarrow> pyval list \<Rightarrow> bool"
  and py_eq_items :: "pydict \<Rightarrow> pydict \<Rightarrow> bool" where
  "py_eq PNone w = (w = PNone)"
| "py_eq (PBool b) w = (num_of w = num_of (PBool b))"
| "py_eq (PInt i) w = (num_of w = num_of (PInt i))"
| "py_eq (PFloat f) w =
     (case f of Fin q \<Rightarrow> num_of w = Some q | NaN \<Rightarrow> False | _ \<Rightarrow> w = PFloat f)"
| "py_eq (PStr s) w = (w = PStr s)"
| "py_eq (PList xs) w = (case w of PList ys \<Rightarrow> py_eq_list xs ys | _ \<Rightarrow> False)"
| "py_eq (PTuple xs) w = (case w of PTuple ys \<Rightarrow> py_eq_list xs ys | _ \<Rightarrow> False)"
| "py_eq (PDict d) w =
     (case w of PDict e \<Rightarrow> length d = length e \<and> py_eq_items d e | _ \<Rightarrow> False)"
| "py_eq_list [] ys = (ys = [])"
| "py_eq_list (x # xs) ys = (case ys of [] \<Rightarrow> False | y # ys' \<Rightarrow> py_eq x y \<and> py_eq_list xs ys')"
| "py_eq_items [] e = True"
| "py_eq_items ((k, v) # d) e =
     (case map_of e k of None \<Rightarrow> False | Some w \<Rightarrow> py_eq v w \<and> py_eq_items d e)"

definition py_in :: "pyval \<Rightarrow> pyval list \<Rightarrow> bool" where
  "py_in v xs = list_ex (\<lambda>x. py_eq v x) xs"

section \<open>Canonical JSON\<close>

text \<open>
  \<open>check_keys\<close>: every dictionary key, at any depth, is a string. \<open>finite_val\<close>: what
  \<open>allow_nan=False\<close> accepts.
\<close>

fun check_keys :: "pyval \<Rightarrow> bool"
  and check_keys_list :: "pyval list \<Rightarrow> bool"
  and check_keys_items :: "pydict \<Rightarrow> bool" where
  "check_keys (PList xs) = check_keys_list xs"
| "check_keys (PTuple xs) = check_keys_list xs"
| "check_keys (PDict d) = (list_all (\<lambda>kv. is_KStr (fst kv)) d \<and> check_keys_items d)"
| "check_keys _ = True"
| "check_keys_list [] = True"
| "check_keys_list (x # xs) = (check_keys x \<and> check_keys_list xs)"
| "check_keys_items [] = True"
| "check_keys_items ((k, v) # d) = (check_keys v \<and> check_keys_items d)"

fun finite_val :: "pyval \<Rightarrow> bool"
  and finite_list :: "pyval list \<Rightarrow> bool"
  and finite_items :: "pydict \<Rightarrow> bool" where
  "finite_val (PFloat f) = float_isfinite f"
| "finite_val (PList xs) = finite_list xs"
| "finite_val (PTuple xs) = finite_list xs"
| "finite_val (PDict d) = finite_items d"
| "finite_val _ = True"
| "finite_list [] = True"
| "finite_list (x # xs) = (finite_val x \<and> finite_list xs)"
| "finite_items [] = True"
| "finite_items ((k, v) # d) = (finite_val v \<and> finite_items d)"

text \<open>
  \<open>norm\<close>: what \<open>sort_keys=True\<close> and JSON's single sequence type leave of a value.
\<close>

fun norm :: "pyval \<Rightarrow> pyval"
  and norm_list :: "pyval list \<Rightarrow> pyval list"
  and norm_items :: "pydict \<Rightarrow> pydict" where
  "norm (PList xs) = PList (norm_list xs)"
| "norm (PTuple xs) = PList (norm_list xs)"
| "norm (PDict d) = PDict (sort_key (\<lambda>kv. key_text (fst kv)) (norm_items d))"
| "norm PNone = PNone"
| "norm (PBool b) = PBool b"
| "norm (PInt i) = PInt i"
| "norm (PFloat f) = PFloat f"
| "norm (PStr s) = PStr s"
| "norm_list [] = []"
| "norm_list (x # xs) = norm x # norm_list xs"
| "norm_items [] = []"
| "norm_items ((k, v) # d) = (k, norm v) # norm_items d"

definition hex_digit :: "nat \<Rightarrow> char" where
  "hex_digit n = (if n < 10 then char_of (48 + n) else char_of (87 + n))"

definition escape_dct :: "(char \<times> char) list" where
  "escape_dct = [(CHR 0x22, CHR 0x22), (CHR 0x5C, CHR 0x5C), (CHR 0x0A, CHR ''n''),
     (CHR 0x0D, CHR ''r''), (CHR 0x09, CHR ''t''), (CHR 0x0C, CHR ''f''), (CHR 0x08, CHR ''b'')]"

definition esc_char :: "char \<Rightarrow> string" where
  "esc_char c =
     (case map_of escape_dct c of
        Some k \<Rightarrow> [CHR 0x5C, k]
      | None \<Rightarrow>
          if (of_char c :: nat) < 32
          then [CHR 0x5C, CHR ''u'', CHR ''0'', CHR ''0'',
                hex_digit (of_char c div 16), hex_digit (of_char c mod 16)]
          else [c])"

definition json_str :: "string \<Rightarrow> string" where
  "json_str s = CHR 0x22 # concat (map esc_char s) @ [CHR 0x22]"

fun json_text :: "(rat \<Rightarrow> string) \<Rightarrow> pyval \<Rightarrow> string"
  and json_elems :: "(rat \<Rightarrow> string) \<Rightarrow> pyval list \<Rightarrow> string"
  and json_items :: "(rat \<Rightarrow> string) \<Rightarrow> pydict \<Rightarrow> string" where
  "json_text fr PNone = ''null''"
| "json_text fr (PBool b) = (if b then ''true'' else ''false'')"
| "json_text fr (PInt i) = dec_int i"
| "json_text fr (PFloat f) = (case f of Fin q \<Rightarrow> fr q | PosInf \<Rightarrow> ''Infinity'' | NegInf \<Rightarrow> ''-Infinity'' | NaN \<Rightarrow> ''NaN'')"
| "json_text fr (PStr s) = json_str s"
| "json_text fr (PList xs) = CHR ''['' # json_elems fr xs"
| "json_text fr (PTuple xs) = CHR ''['' # json_elems fr xs"
| "json_text fr (PDict d) = CHR 0x7B # json_items fr d"
| "json_elems fr [] = [CHR '']'']"
| "json_elems fr (x # xs) =
     json_text fr x @ (if xs = [] then [CHR '']''] else CHR '','' # json_elems fr xs)"
| "json_items fr [] = [CHR 0x7D]"
| "json_items fr ((k, v) # d) =
     json_str (key_text k) @ CHR '':'' # json_text fr v @
       (if d = [] then [CHR 0x7D] else CHR '','' # json_items fr d)"

text \<open>
  The interpreter and library functions the source calls on bytes and text: SHA-256 in
  hexadecimal of some bytes, the shortest representation of a finite float, and the JSON
  document some bytes hold (none where decoding or parsing raises a \<open>ValueError\<close>).
\<close>

record pylib =
  sha256 :: "string \<Rightarrow> string"
  float_repr :: "rat \<Rightarrow> string"
  json_loads :: "string \<Rightarrow> pyval option"

definition dumps_sorted :: "pylib \<Rightarrow> pyval \<Rightarrow> string result" where
  "dumps_sorted L v = (if finite_val v then Inr (json_text (float_repr L) (norm v)) else Inl ValueError)"

definition digest :: "pylib \<Rightarrow> pyval \<Rightarrow> string result" where
  "digest L v = rbind (guard (check_keys v) ValueError) (\<lambda>_.
     rbind (dumps_sorted L v) (\<lambda>normalized. Inr (sha256 L normalized)))"

text \<open>
  What the canonical text relies on of \<open>float.__repr__\<close>: distinct floats print differently,
  only digits, signs, a point and an exponent mark occur, and a point or an exponent mark always
  does. \<open>toy_repr\<close> is a function of that kind.
\<close>

definition num_char :: "char \<Rightarrow> bool" where
  "num_char c = (CHR ''0'' \<le> c \<and> c \<le> CHR ''9'' \<or> c = CHR ''-'' \<or> c = CHR ''+'' \<or> c = CHR ''.'' \<or> c = CHR ''e'')"

definition float_repr_ok :: "(rat \<Rightarrow> string) \<Rightarrow> bool" where
  "float_repr_ok fr \<longleftrightarrow>
     inj fr \<and> (\<forall>q. list_all num_char (fr q) \<and> (CHR ''.'' \<in> set (fr q) \<or> CHR ''e'' \<in> set (fr q))
       \<and> (case fr q of [] \<Rightarrow> False | c # _ \<Rightarrow> c = CHR ''-'' \<or> CHR ''0'' \<le> c \<and> c \<le> CHR ''9''))"

definition toy_repr :: "rat \<Rightarrow> string" where
  "toy_repr q = dec_int (fst (quotient_of q)) @ CHR ''e'' # dec_int (snd (quotient_of q))"

text \<open>Normalised values: string keys, finite floats, no tuple.\<close>

fun plain :: "pyval \<Rightarrow> bool"
  and plain_list :: "pyval list \<Rightarrow> bool"
  and plain_items :: "pydict \<Rightarrow> bool" where
  "plain (PFloat f) = float_isfinite f"
| "plain (PList xs) = plain_list xs"
| "plain (PTuple xs) = False"
| "plain (PDict d) = plain_items d"
| "plain _ = True"
| "plain_list [] = True"
| "plain_list (x # xs) = (plain x \<and> plain_list xs)"
| "plain_items [] = True"
| "plain_items ((k, v) # d) = (is_KStr k \<and> plain v \<and> plain_items d)"


section \<open>Normalisation\<close>

lemma norm_list_map: "norm_list xs = map norm xs"
  by (induction xs) auto

lemma norm_items_map: "norm_items d = map (\<lambda>kv. (fst kv, norm (snd kv))) d"
  by (induction d) auto

lemma plain_list_all: "plain_list xs = list_all plain xs"
  by (induction xs) auto

lemma plain_items_all: "plain_items d = list_all (\<lambda>kv. is_KStr (fst kv) \<and> plain (snd kv)) d"
  by (induction d) auto

lemma list_all_sort_key: "list_all P (sort_key f xs) = list_all P xs"
  by (simp add: list_all_iff)

lemma plain_norm_all:
  "check_keys v \<Longrightarrow> finite_val v \<Longrightarrow> plain (norm v)"
  "check_keys_list xs \<Longrightarrow> finite_list xs \<Longrightarrow> plain_list (norm_list xs)"
  "list_all (\<lambda>kv. is_KStr (fst kv)) d \<Longrightarrow> check_keys_items d \<Longrightarrow> finite_items d
     \<Longrightarrow> plain_items (norm_items d)"
  by (induction v and xs and d rule: norm_norm_list_norm_items.induct)
     (auto simp: plain_items_all list_all_sort_key)

lemma digest_Inr:
  "digest L v = Inr h \<longleftrightarrow> check_keys v \<and> finite_val v \<and> h = sha256 L (json_text (float_repr L) (norm v))"
  by (auto simp: digest_def dumps_sorted_def guard_def)

lemma digest_error: "digest L v = Inl e \<Longrightarrow> e = ValueError"
  by (auto simp: digest_def dumps_sorted_def guard_def split: if_splits)

section \<open>The canonical text is injective\<close>

text \<open>Reading one escaped character back.\<close>

definition hex_value :: "char \<Rightarrow> nat" where
  "hex_value c = (if (of_char c :: nat) < 58 then of_char c - 48 else of_char c - 87)"

definition unesc :: "string \<Rightarrow> char \<times> string" where
  "unesc s =
     (if hd s = CHR 0x5C then
        (case map_of (map (\<lambda>(c, k). (k, c)) escape_dct) (hd (tl s)) of
           Some c \<Rightarrow> (c, tl (tl s))
         | None \<Rightarrow> (char_of (16 * hex_value (s ! 4) + hex_value (s ! 5)), drop 6 s))
      else (hd s, tl s))"

lemma of_char_digit: "n < 256 \<Longrightarrow> of_char (char_of n :: char) = (n :: nat)"
  by (simp only: of_char_of mod_less)

lemma hex_value_digit: "n < 16 \<Longrightarrow> hex_value (hex_digit n) = n"
  by (cases "n < 10") (simp_all add: hex_value_def hex_digit_def of_char_digit del: of_char_of)

lemma unesc_special: "map_of escape_dct c = Some k \<Longrightarrow> unesc (CHR 0x5C # k # x) = (c, x)"
  by (drule map_of_SomeD) (auto simp: escape_dct_def unesc_def)

lemma unesc_control:
  assumes "(of_char c :: nat) < 32"
  shows "unesc ([CHR 0x5C, CHR ''u'', CHR ''0'', CHR ''0'',
                hex_digit (of_char c div 16), hex_digit (of_char c mod 16)] @ x) = (c, x)"
proof -
  have "(of_char c :: nat) div 16 < 16" using assms by simp
  then have "16 * hex_value (hex_digit (of_char c div 16)) + hex_value (hex_digit (of_char c mod 16)) = (of_char c :: nat)"
    by (simp only: hex_value_digit mod_less_divisor zero_less_numeral mult_div_mod_eq)
  moreover have "map_of (map (\<lambda>(c, k). (k, c)) escape_dct) (CHR ''u'') = None"
    by (simp add: escape_dct_def)
  ultimately show ?thesis
    unfolding unesc_def by (simp add: char_of_char)
qed

lemma unesc_esc: "unesc (esc_char c @ x) = (c, x)"
proof (cases "map_of escape_dct c")
  case None
  then have "c \<noteq> CHR 0x5C" by (auto simp: escape_dct_def)
  with None show ?thesis using unesc_control [of c x]
    by (cases "(of_char c :: nat) < 32") (simp_all add: esc_char_def unesc_def)
next
  case (Some k)
  then show ?thesis by (simp add: esc_char_def unesc_special)
qed

lemma esc_char_prefix: "esc_char c @ x = esc_char c' @ y \<Longrightarrow> c = c' \<and> x = y"
  by (metis unesc_esc prod.inject)

lemma esc_char_not_quote: "esc_char c @ x \<noteq> CHR 0x22 # y"
proof (cases "map_of escape_dct c")
  case None
  then have "c \<noteq> CHR 0x22" by (auto simp: escape_dct_def)
  with None show ?thesis by (simp add: esc_char_def)
next
  case (Some k)
  then show ?thesis by (simp add: esc_char_def)
qed

lemma json_str_prefix: "json_str s @ r = json_str s' @ r' \<Longrightarrow> s = s' \<and> r = r'"
proof -
  assume eq: "json_str s @ r = json_str s' @ r'"
  have main: "concat (map esc_char s) @ CHR 0x22 # r = concat (map esc_char s') @ CHR 0x22 # r' \<Longrightarrow> s = s' \<and> r = r'"
    for s s'
  proof (induction s arbitrary: s')
    case Nil
    then show ?case
    proof (cases s')
      case (Cons c' t)
      with Nil have "esc_char c' @ concat (map esc_char t) @ CHR 0x22 # r' = CHR 0x22 # r" by simp
      then show ?thesis by (simp only: esc_char_not_quote)
    qed simp
  next
    case (Cons c s)
    note IH = Cons.IH and eq = Cons.prems
    show ?case
    proof (cases s')
      case Nil
      with eq have "esc_char c @ concat (map esc_char s) @ CHR 0x22 # r = CHR 0x22 # r'" by simp
      then show ?thesis by (simp only: esc_char_not_quote)
    next
      case (Cons c' t)
      with eq have "c = c' \<and> concat (map esc_char s) @ CHR 0x22 # r = concat (map esc_char t) @ CHR 0x22 # r'"
        by (intro esc_char_prefix) simp
      with IH [of t] Cons show ?thesis by simp
    qed
  qed
  from eq have "concat (map esc_char s) @ CHR 0x22 # r = concat (map esc_char s') @ CHR 0x22 # r'"
    by (simp add: json_str_def)
  then show ?thesis by (rule main)
qed

text \<open>A text that follows a value: nothing, or a comma or closing bracket.\<close>

definition stop :: "string \<Rightarrow> bool" where
  "stop r = (case r of [] \<Rightarrow> True | c # _ \<Rightarrow> c \<in> {CHR '','', CHR '']'', CHR 0x7D})"

lemma stop_simps [simp]: "stop []" "stop (CHR '','' # r)" "stop (CHR '']'' # r)" "stop (CHR 0x7D # r)"
  by (simp_all add: stop_def)

lemma stop_not_num: "stop r \<Longrightarrow> r = [] \<or> \<not> num_char (hd r)"
  by (auto simp: stop_def num_char_def less_eq_char_def split: list.splits)

lemma num_token:
  assumes "list_all num_char a" "list_all num_char b" "stop r" "stop r'" "a @ r = b @ r'"
  shows "a = b \<and> r = r'"
proof -
  have tw: "takeWhile num_char (x @ y) = x" if "list_all num_char x" "stop y" for x y
    using that stop_not_num [of y] by (cases y) (auto simp: list_all_iff takeWhile_append)
  have "a = b" using assms tw by metis
  with assms show ?thesis by simp
qed

lemma dec_int_num: "list_all num_char (dec_int i)"
  by (auto simp: list_all_iff num_char_def dest: dec_int_chars)

lemma dec_int_no_mark: "CHR ''.'' \<notin> set (dec_int i)" "CHR ''e'' \<notin> set (dec_int i)"
  by (auto dest: dec_int_chars simp: less_eq_char_def)

text \<open>The kind of a value shows in the first character of its text.\<close>

datatype jkind = KNull | KTrue | KFalse | KNum | KText | KSeq | KMap

fun kind :: "pyval \<Rightarrow> jkind" where
  "kind PNone = KNull"
| "kind (PBool b) = (if b then KTrue else KFalse)"
| "kind (PInt _) = KNum"
| "kind (PFloat _) = KNum"
| "kind (PStr _) = KText"
| "kind (PList _) = KSeq"
| "kind (PTuple _) = KSeq"
| "kind (PDict _) = KMap"

definition kind_of_char :: "char \<Rightarrow> jkind" where
  "kind_of_char c =
     (if c = CHR ''n'' then KNull else if c = CHR ''t'' then KTrue else if c = CHR ''f'' then KFalse
      else if c = CHR 0x22 then KText else if c = CHR ''['' then KSeq else if c = CHR 0x7B then KMap
      else KNum)"

lemma kind_first:
  assumes "float_repr_ok fr" "plain v"
  shows "\<exists>c t. json_text fr v = c # t \<and> kind_of_char c = kind v"
proof -
  have num: "kind_of_char c = KNum" if "c = CHR ''-'' \<or> CHR ''0'' \<le> c \<and> c \<le> CHR ''9''" for c
    using that by (auto simp: kind_of_char_def less_eq_char_def)
  have dec: "\<exists>c t. dec_int i = c # t \<and> kind_of_char c = KNum" for i
    using dec_int_chars [of _ i] num by (cases "dec_int i") auto
  have flo: "\<exists>c t. fr q = c # t \<and> kind_of_char c = KNum" for q
    using assms(1) num unfolding float_repr_ok_def by (cases "fr q") (force split: list.splits)+
  show ?thesis
  proof (cases v)
    case (PInt i)
    then show ?thesis using dec by simp
  next
    case (PFloat f)
    then show ?thesis using flo assms(2) by (cases f) auto
  qed (use assms(2) in \<open>auto simp: json_str_def kind_of_char_def\<close>)
qed

lemma kind_eq:
  assumes "float_repr_ok fr" "plain v" "plain w" "json_text fr v @ r = json_text fr w @ r'"
  shows "kind v = kind w"
  using kind_first [OF assms(1,2)] kind_first [OF assms(1,3)] assms(4) by auto

lemma json_text_num:
  assumes fr: "float_repr_ok fr" and "plain v" "plain w" "kind v = KNum" "kind w = KNum"
    and "stop r" "stop r'" "json_text fr v @ r = json_text fr w @ r'"
  shows "v = w \<and> r = r'"
proof -
  have tok: "list_all num_char (json_text fr x)" if "plain x" "kind x = KNum" for x
    using that fr by (cases x) (auto simp: dec_int_num float_repr_ok_def split: pyfloat.splits if_splits)
  have eq: "json_text fr v = json_text fr w \<and> r = r'"
    using assms tok by (intro num_token) auto
  have mark: "CHR ''.'' \<in> set (fr q) \<or> CHR ''e'' \<in> set (fr q)" for q
    using fr by (simp add: float_repr_ok_def)
  have "v = w"
    using assms(2-5) eq fr mark dec_int_no_mark
    by (cases v; cases w)
       (auto simp: float_repr_ok_def inj_eq split: pyfloat.splits if_splits dest!: dec_int_inj, (metis+)?)
  with eq show ?thesis by simp
qed

lemma json_text_not_bracket:
  assumes "float_repr_ok fr" "plain v"
  shows "json_text fr v @ r \<noteq> CHR '']'' # r'"
proof
  assume eq: "json_text fr v @ r = CHR '']'' # r'"
  have nb: "\<not> num_char (CHR '']'')" by (simp add: num_char_def less_eq_char_def)
  have dec: "hd (dec_int i) \<noteq> CHR '']''" for i
    using dec_int_num [of i] nb by (cases "dec_int i") auto
  have flo: "hd (fr q) \<noteq> CHR '']''" for q
  proof -
    have "list_all num_char (fr q)" "fr q \<noteq> []"
      using assms(1) by (auto simp: float_repr_ok_def split: list.splits)
    then show ?thesis using nb by (cases "fr q") auto
  qed
  have "hd (json_text fr v) = CHR '']''"
    using kind_first [OF assms] eq by auto
  then show False
    using assms(2) dec flo by (cases v) (auto simp: json_str_def split: pyfloat.splits if_splits)
qed

text \<open>One element or item, the rest of its sequence following.\<close>

lemma json_elems_step:
  assumes "json_elems fr (x # xs) @ r = json_elems fr (y # ys) @ r'"
    and "\<And>s s'. stop s \<Longrightarrow> stop s' \<Longrightarrow> json_text fr x @ s = json_text fr y @ s' \<Longrightarrow> x = y \<and> s = s'"
  shows "x = y \<and> (xs = [] \<longleftrightarrow> ys = []) \<and>
     (if xs = [] then r = r' else json_elems fr xs @ r = json_elems fr ys @ r')"
proof -
  let ?s = "(if xs = [] then [CHR '']''] else CHR '','' # json_elems fr xs) @ r"
  let ?s' = "(if ys = [] then [CHR '']''] else CHR '','' # json_elems fr ys) @ r'"
  have "x = y \<and> ?s = ?s'" using assms(1) by (intro assms(2)) auto
  then show ?thesis by (auto split: if_splits)
qed

lemma json_items_step:
  assumes "json_items fr ((KStr k, x) # d) @ r = json_items fr ((KStr l, y) # e) @ r'"
    and "\<And>s s'. stop s \<Longrightarrow> stop s' \<Longrightarrow> json_text fr x @ s = json_text fr y @ s' \<Longrightarrow> x = y \<and> s = s'"
  shows "k = l \<and> x = y \<and> (d = [] \<longleftrightarrow> e = []) \<and>
     (if d = [] then r = r' else json_items fr d @ r = json_items fr e @ r')"
proof -
  let ?s = "(if d = [] then [CHR 0x7D] else CHR '','' # json_items fr d) @ r"
  let ?s' = "(if e = [] then [CHR 0x7D] else CHR '','' # json_items fr e) @ r'"
  have "json_str k @ CHR '':'' # json_text fr x @ ?s = json_str l @ CHR '':'' # json_text fr y @ ?s'"
    using assms(1) by simp
  then have kl: "k = l" and rest: "json_text fr x @ ?s = json_text fr y @ ?s'"
    by (auto dest: json_str_prefix)
  from rest have "x = y \<and> ?s = ?s'" by (intro assms(2)) auto
  with kl show ?thesis by (auto split: if_splits)
qed

lemma json_text_prefix_all:
  assumes fr: "float_repr_ok fr"
  shows "plain v \<Longrightarrow> plain w \<Longrightarrow> stop r \<Longrightarrow> stop r' \<Longrightarrow> json_text fr v @ r = json_text fr w @ r' \<Longrightarrow> v = w \<and> r = r'"
    and "plain_list xs \<Longrightarrow> plain_list ys \<Longrightarrow> json_elems fr xs @ r = json_elems fr ys @ r' \<Longrightarrow> xs = ys \<and> r = r'"
    and "plain_items d \<Longrightarrow> plain_items e \<Longrightarrow> json_items fr d @ r = json_items fr e @ r' \<Longrightarrow> d = e \<and> r = r'"
proof (induction v and xs and d arbitrary: w r r' and ys r r' and e r r' rule: norm_norm_list_norm_items.induct)
  case (1 xs)
  then have "kind w = KSeq" using kind_eq [OF fr 1(2,3,6)] by simp
  then obtain ys where w: "w = PList ys" using 1(3) by (cases w) (auto split: if_splits)
  then show ?case using 1(1) [of ys r r'] 1(2,3,6) by simp
next
  case (2 xs)
  then show ?case by simp
next
  case (3 d)
  then have "kind w = KMap" using kind_eq [OF fr 3(2,3,6)] by simp
  then obtain e where w: "w = PDict e" by (cases w) (auto split: if_splits)
  then show ?case using 3(1) [of e r r'] 3(2,3,6) by simp
next
  case 4
  then have "kind w = KNull" using kind_eq [OF fr 4(1,2,5)] by simp
  with 4 show ?case by (cases w) (auto split: if_splits)
next
  case (5 b)
  then have "kind w = kind (PBool b)" using kind_eq [OF fr 5(1,2,5)] by simp
  with 5 show ?case by (cases w) (auto split: if_splits)
next
  case (6 i)
  then have "kind w = KNum" using kind_eq [OF fr 6(1,2,5)] by simp
  with 6 show ?case by (intro json_text_num [OF fr]) simp_all
next
  case (7 f)
  then have "kind w = KNum" using kind_eq [OF fr 7(1,2,5)] by simp
  with 7 show ?case by (intro json_text_num [OF fr]) simp_all
next
  case (8 s)
  then have "kind w = KText" using kind_eq [OF fr 8(1,2,5)] by simp
  then obtain t where w: "w = PStr t" by (cases w) (auto split: if_splits)
  with 8(5) json_str_prefix [of s r t r'] show ?case by simp
next
  case 9
  show ?case
  proof (cases ys)
    case (Cons y ys')
    with 9 have "json_text fr y @ (if ys' = [] then [CHR '']''] else CHR '','' # json_elems fr ys') @ r' = CHR '']'' # r"
      by simp
    with json_text_not_bracket [OF fr] Cons 9 show ?thesis by simp
  qed (use 9 in simp)
next
  case (10 x xs)
  show ?case
  proof (cases ys)
    case Nil
    with 10(5) have "json_text fr x @ (if xs = [] then [CHR '']''] else CHR '','' # json_elems fr xs) @ r = CHR '']'' # r'"
      by simp
    with json_text_not_bracket [OF fr] 10(3) show ?thesis by simp
  next
    case (Cons y ys')
    have step: "x = y \<and> (xs = [] \<longleftrightarrow> ys' = []) \<and>
      (if xs = [] then r = r' else json_elems fr xs @ r = json_elems fr ys' @ r')"
      using 10 Cons by (intro json_elems_step) auto
    show ?thesis
    proof (cases "xs = []")
      case False
      then show ?thesis using step 10(2) [of ys' r r'] 10(3,4) Cons by simp
    qed (use step Cons in simp)
  qed
next
  case 11
  show ?case
  proof (cases e)
    case (Cons kv e')
    with 11 show ?thesis by (cases kv) (simp add: json_str_def)
  qed (use 11 in simp)
next
  case (12 k x d)
  show ?case
  proof (cases e)
    case Nil
    with 12(5) show ?thesis by (simp add: json_str_def)
  next
    case (Cons kv e')
    obtain l y where kv: "kv = (KStr l, y)"
      using 12(4) Cons by (cases kv; cases "fst kv") auto
    obtain k' where k: "k = KStr k'" using 12(3) by (cases k) auto
    have step: "k' = l \<and> x = y \<and> (d = [] \<longleftrightarrow> e' = []) \<and>
      (if d = [] then r = r' else json_items fr d @ r = json_items fr e' @ r')"
      using 12 Cons kv k by (intro json_items_step) auto
    show ?thesis
    proof (cases "d = []")
      case False
      then show ?thesis using step 12(2) [of e' r r'] 12(3,4) Cons kv k by simp
    qed (use step Cons kv k in simp)
  qed
qed

lemma json_text_inj: "float_repr_ok fr \<Longrightarrow> plain v \<Longrightarrow> plain w \<Longrightarrow> json_text fr v = json_text fr w \<Longrightarrow> v = w"
  using json_text_prefix_all(1) [of fr v w "[]" "[]"] by simp

text \<open>Two values with the same digest have the same normal form, or the hash collides.\<close>

definition collision :: "(string \<Rightarrow> string) \<Rightarrow> bool" where
  "collision h \<longleftrightarrow> (\<exists>a b. a \<noteq> b \<and> h a = h b)"

lemma digest_inj:
  assumes "float_repr_ok (float_repr L)" "digest L v = Inr h" "digest L w = Inr h"
  shows "norm v = norm w \<or> collision (sha256 L)"
proof (cases "collision (sha256 L)")
  case False
  with assms(2,3) have "json_text (float_repr L) (norm v) = json_text (float_repr L) (norm w)"
    by (auto simp: digest_Inr collision_def)
  moreover have "plain (norm v)" "plain (norm w)"
    using assms(2,3) plain_norm_all(1) by (auto simp: digest_Inr)
  ultimately show ?thesis using assms(1) json_text_inj by blast
qed simp

section \<open>The float representation assumption can hold\<close>

lemma dec_int_mark_split:
  assumes "dec_int a @ CHR ''e'' # x = dec_int b @ CHR ''e'' # y"
  shows "dec_int a = dec_int b \<and> x = y"
proof -
  have tw: "takeWhile (\<lambda>c. c \<noteq> CHR ''e'') (dec_int i @ CHR ''e'' # z) = dec_int i" for i z
    using dec_int_no_mark(2) [of i] by (auto simp: takeWhile_append)
  from assms have "dec_int a = dec_int b" using tw by metis
  with assms show ?thesis by simp
qed

lemma toy_repr_ok: "float_repr_ok toy_repr"
proof -
  have "q = p" if "toy_repr q = toy_repr p" for q p
  proof -
    from that have "dec_int (fst (quotient_of q)) = dec_int (fst (quotient_of p))"
      "dec_int (snd (quotient_of q)) = dec_int (snd (quotient_of p))"
      by (auto simp: toy_repr_def dest: dec_int_mark_split)
    then have "quotient_of q = quotient_of p"
      by (auto dest: dec_int_inj intro: prod_eqI)
    then show ?thesis by (metis quotient_of_inject)
  qed
  then have "inj toy_repr" by (auto intro: injI)
  moreover have "list_all num_char (toy_repr q)" for q
    using dec_int_num by (simp add: toy_repr_def num_char_def)
  moreover have "case toy_repr q of [] \<Rightarrow> False | c # _ \<Rightarrow> c = CHR ''-'' \<or> CHR ''0'' \<le> c \<and> c \<le> CHR ''9''" for q
  proof (cases "dec_int (fst (quotient_of q))")
    case (Cons c r)
    then show ?thesis using dec_int_chars [of c "fst (quotient_of q)"] by (simp add: toy_repr_def)
  qed simp
  ultimately show ?thesis by (simp add: float_repr_ok_def toy_repr_def)
qed

end
