(* ===== verification/Contracts.thy ===== *)
theory Contracts imports Py_Values "HOL-Library.FSet" begin

text \<open>
  The shared data of dante/contracts: enumerations, tasks, model references, tool manifests,
  artifacts and approvals. A \<open>frozenset\<close> is an \<open>fset\<close>; a timestamp is its ISO text; an
  identifier made by \<open>new_id\<close> is an argument of the operation that uses it.
\<close>

section \<open>Enumerations\<close>

datatype privacy_class = PUBLIC | INTERNAL | CONFIDENTIAL | SECRET

datatype task_status =
    CREATED | PLANNED | RUNNING | WAITING_TOOL | WAITING_APPROVAL | VERIFYING
  | COMPLETED | FAILED_RETRYABLE | FAILED_TERMINAL | CANCELLED

datatype cost_class = ZERO | PAID | LOCAL_COMPUTE | COST_UNVERIFIED

datatype lifecycle_state =
    CANDIDATE | IMPORTED | VERIFIED | EVALUATED | TESTED | APPROVED | PRODUCTION | RETIRED

fun status_value :: "task_status \<Rightarrow> string" where
  "status_value CREATED = ''created''"
| "status_value PLANNED = ''planned''"
| "status_value RUNNING = ''running''"
| "status_value WAITING_TOOL = ''waiting_tool''"
| "status_value WAITING_APPROVAL = ''waiting_approval''"
| "status_value VERIFYING = ''verifying''"
| "status_value COMPLETED = ''completed''"
| "status_value FAILED_RETRYABLE = ''failed_retryable''"
| "status_value FAILED_TERMINAL = ''failed_terminal''"
| "status_value CANCELLED = ''cancelled''"

section \<open>Tasks\<close>

record task =
  task_id :: string
  created_at :: string
  updated_at :: string
  status :: task_status
  goal :: string
  privacy_class :: privacy_class
  selected_route :: "string option"
  workspace :: string
  attempts :: nat
  current_step :: "string option"
  errors :: "pyval list"
  task_artifacts :: "string list"
  approval_state :: string
  trace_id :: string
  checkpoint :: pydict

text \<open>\<open>Task(goal=..., workspace=..., privacy_class=...)\<close> with its field constraints.\<close>

definition new_task :: "string \<Rightarrow> string \<Rightarrow> string \<Rightarrow> string \<Rightarrow> string \<Rightarrow> privacy_class \<Rightarrow> task result" where
  "new_task tid trc now g ws pc =
     (if 1 \<le> length g \<and> length g \<le> 10000
      then Inr \<lparr>task_id = tid, created_at = now, updated_at = now, status = CREATED, goal = g,
                privacy_class = pc, selected_route = None, workspace = ws, attempts = 0,
                current_step = None, errors = [], task_artifacts = [],
                approval_state = ''not_required'', trace_id = trc, checkpoint = []\<rparr>
      else Inl ValueError)"

section \<open>Models and routes\<close>

datatype license_status = LicUnknown | LicUnverified | LicVerified | LicRejected
datatype qualification_mark = QUnverified | QQualified | QRejected
datatype cost_verification = CostUnverified | VerifiedZero

record local_model_metadata =
  exact_identity :: "string option"
  runtime_reference :: "string option"
  local_path :: "string option"
  md_sha256 :: "string option"
  runtime_digest :: "string option"
  md_format :: "string option"
  quantization :: "string option"
  md_context_tokens :: "nat option"
  tool_use :: "bool option"
  license_id :: "string option"
  license_status :: license_status
  machine_profiles :: "string fset"
  qualification :: qualification_mark
  identity_verified :: bool
  identity_limitations :: "string list"
  eval_refs :: "string list"
  benchmark_refs :: "string list"

record model_ref =
  model_id :: string
  provider_id :: string
  logical_alias :: string
  version :: string
  capabilities :: "string fset"
  cost_class :: cost_class
  privacy_eligibility :: "privacy_class fset"
  available :: bool
  lifecycle :: lifecycle_state
  runtime :: string
  is_local :: bool
  local_metadata :: "local_model_metadata option"
  context_tokens :: "nat option"
  cost_verification :: cost_verification

record route_decision =
  route_id :: string
  rd_task_id :: string
  rd_trace_id :: string
  selected_model :: model_ref
  candidates :: "string list"
  reasons :: "string list"
  policy_version :: string
  automatic_cost :: rat

section \<open>Tools, artifacts and approvals\<close>

record tool_manifest =
  tool_id :: string
  tm_version :: string
  permissions :: "string fset"
  risk :: string
  filesystem_scope :: string
  network_scope :: string
  secret_access :: string
  approval_policy :: string
  timeout_s :: nat
  output_limit_bytes :: nat
  arguments_schema :: "pyval option"
  path_permissions :: "(string \<times> string) list"

record artifact =
  artifact_id :: string
  ar_task_id :: string
  media_type :: string
  path :: string
  checksum_sha256 :: string
  producer :: string
  provenance :: pydict

definition hex_char :: "char \<Rightarrow> bool" where
  "hex_char c = (c \<in> set ''0123456789abcdef'')"

definition valid_checksum :: "string \<Rightarrow> string result" where
  "valid_checksum v =
     (if length v \<noteq> 64 \<or> list_ex (\<lambda>ch. \<not> hex_char ch) (lower v) then Inl ValueError
      else Inr (lower v))"

text \<open>The field validator of \<open>LocalModelMetadata\<close> for its two digests.\<close>

definition metadata_checksum :: "string option \<Rightarrow> string option result" where
  "metadata_checksum v =
     (case v of None \<Rightarrow> Inr None
      | Some s \<Rightarrow>
          (let d = lower (removeprefix s ''sha256:'') in
           if length d \<noteq> 64 \<or> list_ex (\<lambda>c. \<not> hex_char c) d then Inl ValueError else Inr (Some d)))"

datatype approval_status = Pending | Approved | Rejected | Executed

record approval =
  approval_id :: string
  ap_task_id :: string
  action :: string
  target :: string
  plan_hash :: string
  ap_status :: approval_status
  decided_at :: "string option"
  decided_by :: "string option"

record eval_run =
  eval_run_id :: string
  suite :: string
  ev_status :: string
  results :: "(string \<times> bool) list"

section \<open>Order and facts\<close>

text \<open>The privacy classes are ranked in the order of their declaration.\<close>

fun privacy_rank :: "privacy_class \<Rightarrow> nat" where
  "privacy_rank PUBLIC = 0"
| "privacy_rank INTERNAL = 1"
| "privacy_rank CONFIDENTIAL = 2"
| "privacy_rank SECRET = 3"

lemma privacy_rank_inj: "privacy_rank a = privacy_rank b \<Longrightarrow> a = b"
  by (cases a; cases b) auto

instantiation privacy_class :: linorder
begin

definition less_eq_privacy_class :: "privacy_class \<Rightarrow> privacy_class \<Rightarrow> bool" where
  "less_eq_privacy_class a b = (privacy_rank a \<le> privacy_rank b)"

definition less_privacy_class :: "privacy_class \<Rightarrow> privacy_class \<Rightarrow> bool" where
  "less_privacy_class a b = (privacy_rank a < privacy_rank b)"

instance
  by standard (auto simp: less_eq_privacy_class_def less_privacy_class_def intro: privacy_rank_inj)

end

lemma privacy_le_SECRET [simp]: "(a :: privacy_class) \<le> SECRET"
  by (cases a) (simp_all add: less_eq_privacy_class_def)

lemma SECRET_le [simp]: "SECRET \<le> a \<longleftrightarrow> a = SECRET"
  by (cases a) (simp_all add: less_eq_privacy_class_def)

lemma status_value_inj: "status_value a = status_value b \<Longrightarrow> a = b"
  by (cases a; cases b) simp_all

lemma valid_checksum_sound:
  "valid_checksum v = Inr w \<Longrightarrow> length w = 64 \<and> list_all hex_char w \<and> w = lower v"
  by (auto simp: valid_checksum_def lower_def list_ex_iff list_all_iff split: if_splits)

lemma metadata_checksum_sound:
  "metadata_checksum (Some v) = Inr r \<Longrightarrow> \<exists>w. r = Some w \<and> length w = 64 \<and> list_all hex_char w"
  by (auto simp: metadata_checksum_def Let_def list_ex_iff list_all_iff split: if_splits)

end
