(* ===== verification/Acceptance.thy ===== *)
theory Acceptance imports Contracts begin

text \<open>
  dante/acceptance.py: the contract a task must satisfy, what was observed of it, the
  deterministic verifier and the prompt that asks for what is missing.
\<close>

section \<open>Contracts, observations, results\<close>

record acceptance_contract =
  required_tools :: "string fset"
  required_artifacts :: "string fset"
  required_final_fields :: "string fset"
  instructions :: "(string \<times> string) list"

definition empty_contract :: acceptance_contract where
  "empty_contract = \<lparr>required_tools = {||}, required_artifacts = {||}, required_final_fields = {||}, instructions = []\<rparr>"

record observed_acceptance =
  ob_tools :: "string fset"
  ob_artifacts :: "string fset"
  ob_final_fields :: "(string \<times> string) list"

definition nothing_observed :: observed_acceptance where
  "nothing_observed = \<lparr>ob_tools = {||}, ob_artifacts = {||}, ob_final_fields = []\<rparr>"

definition merged :: "observed_acceptance \<Rightarrow> observed_acceptance \<Rightarrow> observed_acceptance" where
  "merged self other =
     \<lparr>ob_tools = ob_tools self |\<union>| ob_tools other,
      ob_artifacts = ob_artifacts self |\<union>| ob_artifacts other,
      ob_final_fields = dict_merge (ob_final_fields self) (ob_final_fields other)\<rparr>"

record acceptance_result =
  acceptance_complete :: bool
  missing_checks :: "string list"
  missing_artifacts :: "string list"
  missing_final_fields :: "string list"

section \<open>The verifier\<close>

definition present_fields :: "observed_acceptance \<Rightarrow> string fset" where
  "present_fields ob = fset_of_list (map fst (filter (\<lambda>nv. strip (snd nv) \<noteq> []) (ob_final_fields ob)))"

definition verify :: "acceptance_contract \<Rightarrow> observed_acceptance \<Rightarrow> acceptance_result" where
  "verify contract observed =
     (let missing_tools = required_tools contract |-| ob_tools observed;
          missing_arts = required_artifacts contract |-| ob_artifacts observed;
          missing_fields = required_final_fields contract |-| present_fields observed
      in \<lparr>acceptance_complete = (missing_tools = {||} \<and> missing_arts = {||} \<and> missing_fields = {||}),
          missing_checks = sorted_list_of_fset missing_tools,
          missing_artifacts = sorted_list_of_fset missing_arts,
          missing_final_fields = sorted_list_of_fset missing_fields\<rparr>)"

section \<open>The continuation prompt\<close>

definition hint_for :: "(string \<times> string) list \<Rightarrow> string \<Rightarrow> string" where
  "hint_for hints name = (case map_of hints name of None \<Rightarrow> name | Some h \<Rightarrow> h)"

definition field_line :: "(string \<times> string) list \<Rightarrow> (string \<times> string) list \<Rightarrow> string \<Rightarrow> string" where
  "field_line hints known name =
     ''- final field: '' @ hint_for hints name @
       (case map_of known name of
          None \<Rightarrow> []
        | Some v \<Rightarrow> if v = [] then [] else '' (use this verified value: '' @ v @ '')'')"

definition continuation_lines ::
  "acceptance_result \<Rightarrow> (string \<times> string) list \<Rightarrow> (string \<times> string) list \<Rightarrow> string list" where
  "continuation_lines r known hints =
     [''The primary action succeeded.'', ''The task is NOT complete.'', [],
      ''Complete only these missing acceptance requirements:'']
     @ map (\<lambda>n. ''- tool/action: '' @ hint_for hints n) (missing_checks r)
     @ map (\<lambda>n. ''- artifact: '' @ hint_for hints n) (missing_artifacts r)
     @ map (field_line hints known) (missing_final_fields r)
     @ [[], ''Do not repeat completed work.'']"

definition continuation_prompt ::
  "acceptance_result \<Rightarrow> (string \<times> string) list option \<Rightarrow> (string \<times> string) list option \<Rightarrow> string" where
  "continuation_prompt r known hints =
     join [CHR 0x0A] (continuation_lines r (case known of None \<Rightarrow> [] | Some k \<Rightarrow> k)
                                           (case hints of None \<Rightarrow> [] | Some h \<Rightarrow> h))"

section \<open>Facts\<close>

lemma set_sorted_list_of_fset [simp]: "set (sorted_list_of_fset A) = fset A"
  by (simp add: sorted_list_of_fset.rep_eq)

lemma distinct_sorted_list_of_fset [simp]: "distinct (sorted_list_of_fset A)"
  by (simp add: sorted_list_of_fset.rep_eq)

lemma sorted_sorted_list_of_fset [simp]: "sorted (sorted_list_of_fset A)"
  by (simp add: sorted_list_of_fset.rep_eq)

lemma sorted_list_of_fset_Nil [simp]: "sorted_list_of_fset A = [] \<longleftrightarrow> A = {||}"
  by (simp add: sorted_list_of_fset.rep_eq) (metis bot_fset.rep_eq fset_inverse)

lemma present_fields_iff:
  "distinct (map fst (ob_final_fields ob)) \<Longrightarrow>
   n |\<in>| present_fields ob \<longleftrightarrow> (\<exists>v. map_of (ob_final_fields ob) n = Some v \<and> strip v \<noteq> [])"
  by (force simp: present_fields_def fset_of_list_elem)

lemma fminus_eq_bot_iff: "A |-| B = {||} \<longleftrightarrow> A |\<subseteq>| B"
  by auto

lemma verify_complete_iff:
  "acceptance_complete (verify c ob) \<longleftrightarrow>
     required_tools c |\<subseteq>| ob_tools ob \<and> required_artifacts c |\<subseteq>| ob_artifacts ob
     \<and> required_final_fields c |\<subseteq>| present_fields ob"
  by (simp add: verify_def Let_def fminus_eq_bot_iff)

lemma verify_complete_missing:
  "acceptance_complete (verify c ob) \<longleftrightarrow>
     missing_checks (verify c ob) = [] \<and> missing_artifacts (verify c ob) = []
     \<and> missing_final_fields (verify c ob) = []"
  by (simp add: verify_def Let_def)

lemma verify_missing_sets:
  "set (missing_checks (verify c ob)) = fset (required_tools c) - fset (ob_tools ob)"
  "set (missing_artifacts (verify c ob)) = fset (required_artifacts c) - fset (ob_artifacts ob)"
  "set (missing_final_fields (verify c ob)) = fset (required_final_fields c) - fset (present_fields ob)"
  by (simp_all add: verify_def Let_def)

end
