(* ===== verification/Recovery.thy ===== *)
theory Recovery imports Acceptance begin

text \<open>
  dante/recovery.py: step records, file digests, and the receipts that make a tool outcome
  durable. The file system is an argument: the bytes of each regular file,
  \<open>Path.resolve\<close> and \<open>Path.is_symlink\<close>.
\<close>

section \<open>Files and paths\<close>

record fsys =
  file_bytes :: "string \<Rightarrow> string option"
  resolve :: "string \<Rightarrow> string result"
  is_link :: "string \<Rightarrow> bool"

text \<open>The components of an absolute path, without empty ones and \<open>.\<close>.\<close>

definition path_parts :: "string \<Rightarrow> string list" where
  "path_parts p = filter (\<lambda>c. c \<noteq> [] \<and> c \<noteq> ''.'') (split_on (CHR ''/'') p)"

fun parts_under :: "string list \<Rightarrow> string list \<Rightarrow> bool" where
  "parts_under [] p = True"
| "parts_under (b # base) p = (case p of [] \<Rightarrow> False | q # rest \<Rightarrow> b = q \<and> parts_under base rest)"

text \<open>\<open>p.relative_to(base)\<close> raises no \<open>ValueError\<close>.\<close>

definition relative_to :: "string \<Rightarrow> string \<Rightarrow> bool" where
  "relative_to p base = parts_under (path_parts base) (path_parts p)"

definition path_name :: "string \<Rightarrow> string" where
  "path_name p = (if path_parts p = [] then [] else last (path_parts p))"

definition is_file :: "fsys \<Rightarrow> string \<Rightarrow> bool" where
  "is_file F p = (file_bytes F p \<noteq> None)"

definition file_digest :: "pylib \<Rightarrow> fsys \<Rightarrow> string \<Rightarrow> string result" where
  "file_digest L F p = rbind (of_opt OSError (file_bytes F p)) (\<lambda>b. Inr (sha256 L b))"

definition load_json_file :: "pylib \<Rightarrow> fsys \<Rightarrow> string \<Rightarrow> pyval result" where
  "load_json_file L F p =
     rbind (of_opt OSError (file_bytes F p)) (\<lambda>b. of_opt ValueError (json_loads L b))"

section \<open>Step records\<close>

datatype step_state = StIntent | StStarted | StSucceeded | StUncertain

record step_record =
  step_id :: string
  sr_task_id :: string
  sr_tool_id :: string
  sr_tool_version :: string
  arguments_digest :: string
  idempotency_key :: string
  attempt :: nat
  sr_state :: step_state
  sr_created_at :: string
  started_at :: "string option"
  completed_at :: "string option"
  sr_result :: "pyval option"
  result_digest :: "string option"
  evidence_ref :: "string option"
  sr_error :: "string option"

section \<open>Receipts\<close>

definition is_True :: "pyval option \<Rightarrow> bool" where
  "is_True v = (v = Some (PBool True))"

definition receipt :: "pylib \<Rightarrow> fsys \<Rightarrow> pydict \<Rightarrow> string \<Rightarrow> pydict result" where
  "receipt L F res ws =
     (if \<not> is_True (dget res ''ok'') then Inl ValueError
      else case dget res ''path'' of
        Some (PStr p) \<Rightarrow>
          rbind (resolve F p) (\<lambda>rp.
          rbind (resolve F ws) (\<lambda>rw.
            if relative_to rp rw \<and> is_file F rp
            then rbind (file_digest L F rp) (\<lambda>h.
                   Inr [(KStr ''ok'', PBool True), (KStr ''path'', PStr rp), (KStr ''checksum_sha256'', PStr h)])
            else Inr [(KStr ''ok'', PBool True)]))
      | _ \<Rightarrow> Inr [(KStr ''ok'', PBool True)])"

definition receipt_path_valid :: "pylib \<Rightarrow> fsys \<Rightarrow> pydict \<Rightarrow> bool result" where
  "receipt_path_valid L F res =
     (case dget res ''path'' of
        None \<Rightarrow> Inr True
      | Some (PStr p) \<Rightarrow>
          (case file_digest L F p of
             Inl e \<Rightarrow> if e = OSError then Inr False else Inl e
           | Inr h \<Rightarrow> (case dget res ''checksum_sha256'' of
                         None \<Rightarrow> Inr False
                       | Some c \<Rightarrow> Inr (py_eq (PStr h) c)))
      | Some _ \<Rightarrow> Inl TypeError)"

definition verified_receipt :: "pylib \<Rightarrow> fsys \<Rightarrow> step_record \<Rightarrow> pydict result" where
  "verified_receipt L F st =
     (case (sr_state st, sr_result st) of
        (StSucceeded, Some v) \<Rightarrow>
          (case v of
             PDict res \<Rightarrow>
               if \<not> is_True (dget res ''ok'') then Inl ReconciliationRequired
               else rbind (digest L (PDict res)) (\<lambda>h.
                 if Some h \<noteq> result_digest st then Inl ReconciliationRequired
                 else rbind (receipt_path_valid L F res) (\<lambda>valid.
                   if valid then Inr res else Inl ReconciliationRequired))
           | _ \<Rightarrow> Inl AttributeError)
      | _ \<Rightarrow> Inl ReconciliationRequired)"

section \<open>Facts\<close>

lemma parts_under_iff: "parts_under base p \<longleftrightarrow> (\<exists>rest. p = base @ rest)"
  by (induction base arbitrary: p) (auto split: list.splits)

lemma file_digest_Inr: "file_digest L F p = Inr h \<longleftrightarrow> (\<exists>b. file_bytes F p = Some b \<and> h = sha256 L b)"
  by (auto simp: file_digest_def result_simps)

lemma file_digest_error: "file_digest L F p = Inl e \<Longrightarrow> e = OSError"
  by (auto simp: file_digest_def rbind_eq_Inl result_simps)

definition file_receipt :: "string \<Rightarrow> string \<Rightarrow> pydict" where
  "file_receipt p h = [(KStr ''ok'', PBool True), (KStr ''path'', PStr p), (KStr ''checksum_sha256'', PStr h)]"

definition bare_receipt :: pydict where
  "bare_receipt = [(KStr ''ok'', PBool True)]"

lemma receipt_shape:
  assumes "receipt L F res ws = Inr r"
  shows "r = bare_receipt \<or> (\<exists>p rp rw b. dget res ''path'' = Some (PStr p) \<and> resolve F p = Inr rp
    \<and> resolve F ws = Inr rw \<and> relative_to rp rw \<and> file_bytes F rp = Some b
    \<and> r = file_receipt rp (sha256 L b))"
  using assms
  by (auto simp: receipt_def bare_receipt_def file_receipt_def result_simps file_digest_Inr
      split: if_splits option.splits pyval.splits)

lemma receipt_needs_ok: "receipt L F res ws = Inr r \<Longrightarrow> dget res ''ok'' = Some (PBool True)"
  by (auto simp: receipt_def is_True_def split: if_splits)

lemma dget_receipts [simp]:
  "dget bare_receipt ''ok'' = Some (PBool True)" "dget bare_receipt ''path'' = None"
  "dget (file_receipt p c) ''ok'' = Some (PBool True)" "dget (file_receipt p c) ''path'' = Some (PStr p)"
  "dget (file_receipt p c) ''checksum_sha256'' = Some (PStr c)"
  by (simp_all add: dget_def bare_receipt_def file_receipt_def)

lemma digest_bare_receipt: "\<exists>h. digest L (PDict bare_receipt) = Inr h"
  by (auto simp: digest_Inr bare_receipt_def)

lemma digest_file_receipt: "\<exists>h. digest L (PDict (file_receipt p c)) = Inr h"
  by (auto simp: digest_Inr file_receipt_def)

lemma receipt_digestible: "receipt L F res ws = Inr r \<Longrightarrow> \<exists>h. digest L (PDict r) = Inr h"
  using digest_bare_receipt digest_file_receipt by (auto dest!: receipt_shape)

lemma verified_receipt_Inr:
  "verified_receipt L F st = Inr r \<longleftrightarrow>
     sr_state st = StSucceeded \<and> sr_result st = Some (PDict r) \<and> is_True (dget r ''ok'')
     \<and> (\<exists>h. digest L (PDict r) = Inr h \<and> result_digest st = Some h)
     \<and> receipt_path_valid L F r = Inr True"
  by (auto simp: verified_receipt_def result_simps split: step_state.splits option.splits pyval.splits if_splits)

lemma verified_receipt_bare:
  "sr_state st = StSucceeded \<Longrightarrow> sr_result st = Some (PDict bare_receipt) \<Longrightarrow>
   digest L (PDict bare_receipt) = Inr h \<Longrightarrow> result_digest st = Some h \<Longrightarrow>
   verified_receipt L F st = Inr bare_receipt"
  by (auto simp: verified_receipt_Inr receipt_path_valid_def is_True_def)

text \<open>A stored file receipt verifies exactly while the file keeps a content with that hash.\<close>

lemma verified_receipt_file:
  assumes "sr_state st = StSucceeded" "sr_result st = Some (PDict (file_receipt p c))"
    and "digest L (PDict (file_receipt p c)) = Inr h" "result_digest st = Some h"
  shows "verified_receipt L F st =
     (if \<exists>b. file_bytes F p = Some b \<and> sha256 L b = c then Inr (file_receipt p c)
      else Inl ReconciliationRequired)"
  using assms
  by (cases "file_bytes F p")
     (auto simp: verified_receipt_def receipt_path_valid_def is_True_def file_digest_def)

end
