(* ===== verification/Schema.thy ===== *)
theory Schema imports Recovery begin

text \<open>
  The SQLite database every component of the ledger shares (the tables of dante/ledger.py and
  dante/migrations.py), the reading of clock and ownership a transaction makes, and the event log.

  A row holds the values its columns encode: a payload column that stores
  \<open>model_dump_json()\<close> and is read back with \<open>model_validate_json\<close> is the record itself. An
  operation is a function from the database to an error or a result with the new database: an
  exception leaves the old database, as the rollback of \<open>with connection\<close> does.
\<close>

section \<open>Rows\<close>

record task_row =
  tr_task :: task
  tr_revision :: nat

record event_row =
  ev_task_id :: string
  ev_event :: string
  ev_from :: "task_status option"
  ev_to :: task_status
  ev_trace_id :: string
  ev_timestamp :: string
  ev_metadata :: "(string \<times> pyval) list"

record acceptance_row =
  aw_contract :: acceptance_contract
  aw_strict :: bool
  aw_locked :: bool
  aw_attestations :: observed_acceptance
  aw_final_evidence :: "(string \<times> string) list"

record approval_row =
  apw_task_id :: string
  apw_approval :: approval
  apw_token_hash :: string
  apw_consumed :: bool

record plan_action =
  act_tool_id :: string
  act_version :: string
  act_arguments :: pydict
  act_approval_id :: "string option"
  act_plan_hash :: string

record execution_plan =
  plan_actions :: "plan_action list"
  plan_acceptance :: acceptance_contract

datatype queue_state = QReady | QLeased | QBlocked | QDone

record queue_row =
  q_plan :: execution_plan
  q_state :: queue_state
  q_next_action :: nat
  q_worker_id :: "string option"
  q_generation :: nat
  q_claimed_at :: "rat option"
  q_lease_expires_at :: "rat option"
  q_heartbeat_at :: "rat option"
  q_attempt :: nat
  q_retry_count :: nat
  q_next_attempt_at :: rat
  q_last_failure :: "string option"
  q_cancel_requested :: bool

datatype backend_state =
    BAvailable | BDegraded | BRateLimited | BQuotaExhausted | BUnavailable | BCooldown | BUnknown


record backend_row =
  b_state :: backend_state
  b_reason :: string
  b_observed_at :: rat
  b_cooldown_until :: "rat option"
  b_failures :: nat
  b_last_success :: "rat option"

record continuity_row =
  c_window_start :: rat
  c_attempts :: nat
  c_next_attempt_at :: "rat option"
  c_last_reason :: "string option"
  c_disposition :: "disposition option"

section \<open>The database\<close>

record db =
  tasks :: "(string, task_row) table"
  task_events :: "event_row list"
  routes :: "(string, route_decision) table"
  artifacts :: "(string, artifact) table"
  approvals :: "(string, approval_row) table"
  task_acceptance :: "(string, acceptance_row) table"
  execution_steps :: "(string, step_record) table"
  task_queue :: "(string, queue_row) table"
  backend_observations :: "(string, backend_row) table"
  task_continuity :: "(string, continuity_row) table"

definition empty_db :: db where
  "empty_db = \<lparr>tasks = [], task_events = [], routes = [], artifacts = [], approvals = [],
     task_acceptance = [], execution_steps = [], task_queue = [], backend_observations = [],
     task_continuity = []\<rparr>"

section \<open>Transactions\<close>

text \<open>
  A lease names the task, the worker and the fencing generation. \<open>tx\<close> holds what a transaction
  reads of its surroundings: \<open>time.time()\<close>, the ISO time stamp, and the lease the worker's
  context variable holds.
\<close>

record lease =
  l_task_id :: string
  l_worker_id :: string
  l_generation :: nat

record tx =
  tx_now :: rat
  tx_stamp :: string
  tx_owner :: "lease option"

section \<open>The event log\<close>

text \<open>
  \<open>_event\<close> appends one row; the foreign key of \<open>task_events\<close> refuses a task the ledger does
  not hold.
\<close>

definition add_event ::
  "tx \<Rightarrow> task \<Rightarrow> string \<Rightarrow> task_status option \<Rightarrow> (string \<times> pyval) list \<Rightarrow> db \<Rightarrow> db result" where
  "add_event x tk event previous metadata db =
     (if t_get (tasks db) (task_id tk) = None then Inl IntegrityError
      else Inr (db\<lparr>task_events := task_events db @
        [\<lparr>ev_task_id = task_id tk, ev_event = event, ev_from = previous, ev_to = status tk,
          ev_trace_id = trace_id tk, ev_timestamp = tx_stamp x, ev_metadata = metadata\<rparr>]\<rparr>))"

section \<open>Reading a task\<close>

definition task_of :: "db \<Rightarrow> string \<Rightarrow> task option" where
  "task_of db tid = map_option tr_task (t_get (tasks db) tid)"

definition status_of :: "db \<Rightarrow> string \<Rightarrow> task_status option" where
  "status_of db tid = map_option status (task_of db tid)"

definition put_task :: "string \<Rightarrow> task \<Rightarrow> db \<Rightarrow> db" where
  "put_task tid tk db =
     db\<lparr>tasks := t_upd tid (\<lambda>r. \<lparr>tr_task = tk, tr_revision = Suc (tr_revision r)\<rparr>) (tasks db)\<rparr>"

text \<open>Every row of \<open>tasks\<close> is stored under the identifier of its payload.\<close>

definition tasks_keyed :: "db \<Rightarrow> bool" where
  "tasks_keyed db \<longleftrightarrow> (\<forall>tid tk. task_of db tid = Some tk \<longrightarrow> task_id tk = tid)"

section \<open>Facts\<close>

lemma add_event_Inr:
  "add_event x tk e p m db = Inr db' \<longleftrightarrow> t_get (tasks db) (task_id tk) \<noteq> None \<and>
     db' = db\<lparr>task_events := task_events db @
        [\<lparr>ev_task_id = task_id tk, ev_event = e, ev_from = p, ev_to = status tk,
          ev_trace_id = trace_id tk, ev_timestamp = tx_stamp x, ev_metadata = m\<rparr>]\<rparr>"
  by (auto simp: add_event_def)

lemma add_event_error: "add_event x tk e p m db = Inl err \<Longrightarrow> err = IntegrityError"
  by (auto simp: add_event_def split: if_splits)

lemma add_event_frame:
  assumes "add_event x tk e p m db = Inr db'"
  shows "tasks db' = tasks db" "routes db' = routes db" "artifacts db' = artifacts db"
    "approvals db' = approvals db" "task_acceptance db' = task_acceptance db"
    "execution_steps db' = execution_steps db" "task_queue db' = task_queue db"
    "backend_observations db' = backend_observations db" "task_continuity db' = task_continuity db"
    "\<exists>r. task_events db' = task_events db @ [r]"
  using assms by (auto simp: add_event_Inr)

lemma task_of_put [simp]:
  "task_of (put_task tid tk db) = (\<lambda>i. if i = tid \<and> task_of db tid \<noteq> None then Some tk else task_of db i)"
  by (auto simp: task_of_def put_task_def t_get_upd fun_eq_iff)

lemma put_task_frame [simp]:
  "task_events (put_task tid tk db) = task_events db" "routes (put_task tid tk db) = routes db"
  "artifacts (put_task tid tk db) = artifacts db" "approvals (put_task tid tk db) = approvals db"
  "task_acceptance (put_task tid tk db) = task_acceptance db"
  "execution_steps (put_task tid tk db) = execution_steps db"
  "task_queue (put_task tid tk db) = task_queue db"
  "backend_observations (put_task tid tk db) = backend_observations db"
  "task_continuity (put_task tid tk db) = task_continuity db"
  by (simp_all add: put_task_def)

lemma tasks_put_None [simp]: "t_get (tasks (put_task tid tk db)) i = None \<longleftrightarrow> t_get (tasks db) i = None"
  by (auto simp: put_task_def t_get_upd)

lemma task_of_cong: "tasks db' = tasks db \<Longrightarrow> task_of db' = task_of db"
  by (simp add: task_of_def fun_eq_iff)

lemma status_of_cong: "tasks db' = tasks db \<Longrightarrow> status_of db' = status_of db"
  by (simp add: status_of_def task_of_def fun_eq_iff)

lemma task_of_None: "task_of db tid = None \<longleftrightarrow> t_get (tasks db) tid = None"
  by (simp add: task_of_def)

lemma task_of_Some: "task_of db tid = Some tk \<longleftrightarrow> (\<exists>r. t_get (tasks db) tid = Some r \<and> tr_task r = tk)"
  by (auto simp: task_of_def)

end
