(* ===== verification/Leases.thy ===== *)
theory Leases imports Schema begin

text \<open>
  The ownership check of dante/task_queue.py that every guarded operation of the ledger starts
  with: \<open>assert_lease\<close>, \<open>positive\<close>, and the fencing facts that follow from it.
\<close>

definition TERMINAL :: "task_status list" where
  "TERMINAL = [COMPLETED, CANCELLED, FAILED_TERMINAL]"

abbreviation terminal :: "task_status \<Rightarrow> bool" where
  "terminal s \<equiv> s \<in> set TERMINAL"

definition assert_lease ::
  "tx \<Rightarrow> db \<Rightarrow> string \<Rightarrow> bool \<Rightarrow> lease option \<Rightarrow> queue_row option result" where
  "assert_lease x db tid before_effect given =
     (case t_get (task_queue db) tid of
        None \<Rightarrow> Inr None
      | Some row \<Rightarrow>
          (case (case given of Some l \<Rightarrow> Some l | None \<Rightarrow> tx_owner x) of
             None \<Rightarrow> Inl LeaseLost
           | Some owner \<Rightarrow>
               if l_task_id owner \<noteq> tid \<or> q_state row \<noteq> QLeased
                  \<or> q_worker_id row \<noteq> Some (l_worker_id owner) \<or> q_generation row \<noteq> l_generation owner
               then Inl LeaseLost
               else case q_lease_expires_at row of
                 None \<Rightarrow> Inl TypeError
               | Some e \<Rightarrow>
                   if e \<le> tx_now x then Inl LeaseLost
                   else if before_effect \<and> q_cancel_requested row then Inl CancellationRequested
                   else Inr (Some row)))"

definition positive :: "pyfloat \<Rightarrow> rat result" where
  "positive v = (case v of Fin q \<Rightarrow> if q \<le> 0 then Inl ValueError else Inr q | _ \<Rightarrow> Inl ValueError)"

text \<open>A row that grants its task to a lease at a time.\<close>

definition holds_lease :: "rat \<Rightarrow> lease \<Rightarrow> string \<Rightarrow> queue_row \<Rightarrow> bool" where
  "holds_lease t l tid row \<longleftrightarrow>
     l_task_id l = tid \<and> q_state row = QLeased \<and> q_worker_id row = Some (l_worker_id l)
     \<and> q_generation row = l_generation l \<and> (\<exists>e. q_lease_expires_at row = Some e \<and> t < e)"

definition effective_owner :: "tx \<Rightarrow> lease option \<Rightarrow> lease option" where
  "effective_owner x given = (case given of Some l \<Rightarrow> Some l | None \<Rightarrow> tx_owner x)"

text \<open>A leased row always records its expiry, so the \<open>TypeError\<close> of comparing \<open>None\<close> is not reached.\<close>

definition leases_dated :: "db \<Rightarrow> bool" where
  "leases_dated db \<longleftrightarrow>
     (\<forall>tid row. t_get (task_queue db) tid = Some row \<longrightarrow> q_state row = QLeased
        \<longrightarrow> q_lease_expires_at row \<noteq> None \<and> q_worker_id row \<noteq> None)"

lemma positive_Inr: "positive v = Inr q \<longleftrightarrow> v = Fin q \<and> 0 < q"
  by (auto simp: positive_def split: pyfloat.splits if_splits)

lemma positive_error: "positive v = Inl e \<Longrightarrow> e = ValueError"
  by (auto simp: positive_def split: pyfloat.splits if_splits)

lemma assert_lease_Inr:
  "assert_lease x db tid be given = Inr r \<longleftrightarrow>
     (t_get (task_queue db) tid = None \<and> r = None)
     \<or> (\<exists>row l. t_get (task_queue db) tid = Some row \<and> r = Some row
          \<and> effective_owner x given = Some l \<and> holds_lease (tx_now x) l tid row
          \<and> (be \<longrightarrow> \<not> q_cancel_requested row))"
  by (auto simp: assert_lease_def effective_owner_def holds_lease_def split: option.splits if_splits)

lemma assert_lease_row:
  assumes "assert_lease x db tid be given = Inr r" "t_get (task_queue db) tid = Some row"
  shows "r = Some row" "\<exists>l. effective_owner x given = Some l \<and> holds_lease (tx_now x) l tid row"
    "be \<Longrightarrow> \<not> q_cancel_requested row"
  using assms by (auto simp: assert_lease_Inr)

lemma assert_lease_unqueued [simp]:
  "t_get (task_queue db) tid = None \<Longrightarrow> assert_lease x db tid be given = Inr None"
  by (simp add: assert_lease_def)

lemma leases_datedD:
  "leases_dated db \<Longrightarrow> t_get (task_queue db) tid = Some row \<Longrightarrow> q_state row = QLeased \<Longrightarrow>
   \<exists>e w. q_lease_expires_at row = Some e \<and> q_worker_id row = Some w"
  by (fastforce simp: leases_dated_def)

lemma assert_lease_error:
  "leases_dated db \<Longrightarrow> assert_lease x db tid be given = Inl e \<Longrightarrow> e = LeaseLost \<or> e = CancellationRequested"
  by (auto simp: assert_lease_def dest: leases_datedD split: option.splits if_splits)

text \<open>Two leases on one row are the same lease: the fencing token.\<close>

lemma holds_lease_unique:
  "holds_lease t l tid row \<Longrightarrow> holds_lease t' l' tid row \<Longrightarrow> l = l'"
  by (auto simp: holds_lease_def intro: lease.equality)

lemma stale_generation_rejected:
  assumes "leases_dated db" "t_get (task_queue db) tid = Some row"
    and "effective_owner x given = Some l" "l_generation l \<noteq> q_generation row"
  shows "assert_lease x db tid be given = Inl LeaseLost"
  using assms by (auto simp: assert_lease_def effective_owner_def split: option.splits)

lemma assert_lease_cong:
  "task_queue db' = task_queue db \<Longrightarrow> assert_lease x db' tid be given = assert_lease x db tid be given"
  by (simp add: assert_lease_def)

lemma terminal_simps [simp]:
  "terminal COMPLETED" "terminal CANCELLED" "terminal FAILED_TERMINAL"
  "\<not> terminal CREATED" "\<not> terminal PLANNED" "\<not> terminal RUNNING" "\<not> terminal WAITING_TOOL"
  "\<not> terminal WAITING_APPROVAL" "\<not> terminal VERIFYING" "\<not> terminal FAILED_RETRYABLE"
  by (simp_all add: TERMINAL_def)

end
