(* ===== verification/Text_Patterns.thy ===== *)
theory Text_Patterns imports Prelude begin

text \<open>
  The regular expressions of the source (dante/privacy.py, dante/telemetry.py and the label
  patterns of the probes) and \<open>re.search\<close> / \<open>fullmatch\<close> on them. A pattern is a list of atoms;
  an alternation is a list of patterns. Characters are the code points below 256.
\<close>

datatype atom =
    One "char \<Rightarrow> bool"
  | Opt "char \<Rightarrow> bool"
  | Many "char \<Rightarrow> bool"
  | WordBoundary

type_synonym pattern = "atom list"

definition char_between :: "char \<Rightarrow> char \<Rightarrow> char \<Rightarrow> bool" where
  "char_between lo hi c = (lo \<le> c \<and> c \<le> hi)"

definition is_ascii_alpha :: "char \<Rightarrow> bool" where
  "is_ascii_alpha c = (char_between CHR ''a'' CHR ''z'' c \<or> char_between CHR ''A'' CHR ''Z'' c)"

definition is_digit :: "char \<Rightarrow> bool" where
  "is_digit c = (CHR ''0'' \<le> c \<and> c \<le> CHR ''9'')"

definition is_ascii_alnum :: "char \<Rightarrow> bool" where
  "is_ascii_alnum c = (is_ascii_alpha c \<or> is_digit c)"

text \<open>\<open>\w\<close> of a \<open>str\<close> pattern, for code points below 256.\<close>

definition is_word :: "char \<Rightarrow> bool" where
  "is_word c = (is_ascii_alnum c \<or> c = CHR ''_'' \<or>
     (let n = (of_char c :: nat) in
      n \<in> {170, 178, 179, 181, 185, 186, 188, 189, 190} \<or> 192 \<le> n \<and> n \<noteq> 215 \<and> n \<noteq> 247))"

definition prev_word :: "char option \<Rightarrow> bool" where
  "prev_word p = (case p of None \<Rightarrow> False | Some c \<Rightarrow> is_word c)"

definition next_word :: "string \<Rightarrow> bool" where
  "next_word s = (case s of [] \<Rightarrow> False | c # _ \<Rightarrow> is_word c)"

text \<open>
  \<open>pmatch final p prev s\<close>: the atoms \<open>p\<close> match a prefix of \<open>s\<close> whose rest satisfies \<open>final\<close>;
  \<open>prev\<close> is the character before \<open>s\<close>.
\<close>

function (sequential) pmatch :: "(string \<Rightarrow> bool) \<Rightarrow> pattern \<Rightarrow> char option \<Rightarrow> string \<Rightarrow> bool" where
  "pmatch final [] prev s = final s"
| "pmatch final (One P # as) prev s =
     (case s of [] \<Rightarrow> False | c # t \<Rightarrow> P c \<and> pmatch final as (Some c) t)"
| "pmatch final (Opt P # as) prev s =
     (pmatch final as prev s \<or> (case s of [] \<Rightarrow> False | c # t \<Rightarrow> P c \<and> pmatch final as (Some c) t))"
| "pmatch final (Many P # as) prev s =
     (pmatch final as prev s \<or> (case s of [] \<Rightarrow> False | c # t \<Rightarrow> P c \<and> pmatch final (Many P # as) (Some c) t))"
| "pmatch final (WordBoundary # as) prev s =
     ((prev_word prev \<noteq> next_word s) \<and> pmatch final as prev s)"
  by pat_completeness auto
termination
  by (relation "measure (\<lambda>(final, p, prev, s). length p + length s)") auto

declare pmatch.simps [simp del]

lemma pmatch_Nil [simp]: "pmatch f [] prev s = f s"
  and pmatch_One_Nil [simp]: "pmatch f (One P # as) prev [] = False"
  and pmatch_One_Cons [simp]: "pmatch f (One P # as) prev (c # t) = (P c \<and> pmatch f as (Some c) t)"
  and pmatch_Opt_Nil [simp]: "pmatch f (Opt P # as) prev [] = pmatch f as prev []"
  and pmatch_Opt_Cons [simp]:
    "pmatch f (Opt P # as) prev (c # t) = (pmatch f as prev (c # t) \<or> P c \<and> pmatch f as (Some c) t)"
  and pmatch_Many_Nil [simp]: "pmatch f (Many P # as) prev [] = pmatch f as prev []"
  and pmatch_Many_Cons [simp]: "pmatch f (Many P # as) prev (c # t) =
    (pmatch f as prev (c # t) \<or> P c \<and> pmatch f (Many P # as) (Some c) t)"
  and pmatch_Bound [simp]:
    "pmatch f (WordBoundary # as) prev s = ((prev_word prev \<noteq> next_word s) \<and> pmatch f as prev s)"
  by (simp_all add: pmatch.simps)

fun search_from :: "pattern \<Rightarrow> char option \<Rightarrow> string \<Rightarrow> bool" where
  "search_from p prev [] = pmatch (\<lambda>_. True) p prev []"
| "search_from p prev (c # s) = (pmatch (\<lambda>_. True) p prev (c # s) \<or> search_from p (Some c) s)"

definition re_search :: "pattern list \<Rightarrow> string \<Rightarrow> bool" where
  "re_search alts s = list_ex (\<lambda>p. search_from p None s) alts"

definition re_fullmatch :: "pattern \<Rightarrow> string \<Rightarrow> bool" where
  "re_fullmatch p s = pmatch (\<lambda>r. r = []) p None s"

text \<open>A literal under \<open>re.IGNORECASE\<close>.\<close>

definition nocase :: "char \<Rightarrow> char \<Rightarrow> bool" where
  "nocase c d = (lower_char c = lower_char d)"

definition lit :: "string \<Rightarrow> pattern" where
  "lit s = map (\<lambda>c. One (nocase c)) s"

definition at_least :: "nat \<Rightarrow> (char \<Rightarrow> bool) \<Rightarrow> pattern" where
  "at_least n P = replicate n (One P) @ [Many P]"

definition at_most :: "nat \<Rightarrow> (char \<Rightarrow> bool) \<Rightarrow> pattern" where
  "at_most n P = replicate n (Opt P)"

section \<open>Facts\<close>

lemma pmatch_mono: "pmatch f p prev s \<Longrightarrow> (\<And>r. f r \<Longrightarrow> g r) \<Longrightarrow> pmatch g p prev s"
proof (induction f p prev s rule: pmatch.induct)
  case (2 final P as prev s)
  then show ?case by (cases s) auto
next
  case (3 final P as prev s)
  then show ?case by (cases s) auto
next
  case (4 final P as prev s)
  then show ?case by (cases s) auto
qed auto

lemma search_from_append: "search_from p prev s \<Longrightarrow> \<exists>pre post q. s = pre @ post \<and> pmatch (\<lambda>_. True) p q post"
proof (induction p prev s rule: search_from.induct)
  case (2 p prev c s)
  then show ?case by (metis append_Cons append_Nil search_from.simps(2))
qed auto

text \<open>A full match of character-class atoms only holds characters of those classes.\<close>

fun atom_class :: "atom \<Rightarrow> char \<Rightarrow> bool" where
  "atom_class (One P) c = P c"
| "atom_class (Opt P) c = P c"
| "atom_class (Many P) c = P c"
| "atom_class WordBoundary c = False"

lemma fullmatch_chars:
  "pmatch (\<lambda>r. r = []) p prev s \<Longrightarrow> c \<in> set s \<Longrightarrow> \<exists>a \<in> set p. atom_class a c"
proof (induction "\<lambda>r :: string. r = []" p prev s rule: pmatch.induct)
  case (2 P as prev s)
  then show ?case by (cases s) auto
next
  case (3 P as prev s)
  then show ?case by (cases s) auto
next
  case (4 P as prev s)
  then show ?case by (cases s) auto
qed auto

fun atom_max :: "atom \<Rightarrow> nat option" where
  "atom_max (One P) = Some 1"
| "atom_max (Opt P) = Some 1"
| "atom_max (Many P) = None"
| "atom_max WordBoundary = Some 0"

lemma fullmatch_length:
  "pmatch (\<lambda>r. r = []) p prev s \<Longrightarrow> \<forall>a \<in> set p. atom_max a \<noteq> None \<Longrightarrow> length s \<le> length p"
proof (induction "\<lambda>r :: string. r = []" p prev s rule: pmatch.induct)
  case (2 P as prev s)
  then show ?case by (cases s) auto
next
  case (3 P as prev s)
  then show ?case by (cases s) (auto intro: le_SucI)
next
  case (5 as prev s)
  then show ?case by (auto intro: le_SucI)
qed auto

end
