(* ===== verification/Privacy.thy ===== *)
theory Privacy imports Text_Patterns Contracts begin

text \<open>
  dante/privacy.py: the privacy gate classifies a text against the declared class and says
  whether a model, and a cloud model, may see it.
\<close>

section \<open>Patterns\<close>

definition secret_key_char :: "char \<Rightarrow> bool" where
  "secret_key_char c = (is_ascii_alnum c \<or> c = CHR ''_'' \<or> c = CHR ''-'')"

definition SECRET_PATTERNS :: "pattern list" where
  "SECRET_PATTERNS =
     [lit ''-----BEGIN '' @ [Many (\<lambda>c. is_ascii_alpha c \<or> c = CHR '' '')] @ lit ''PRIVATE KEY-----'',
      [WordBoundary] @ lit ''password'' @ [Many is_space] @ lit ''='',
      [WordBoundary] @ lit ''api'' @ [Opt (\<lambda>c. c = CHR ''_'' \<or> c = CHR ''-'')] @ lit ''key'' @ [Many is_space] @ lit ''='',
      [WordBoundary] @ lit ''sk-'' @ at_least 12 secret_key_char]"

definition mail_local_char :: "char \<Rightarrow> bool" where
  "mail_local_char c = (is_word c \<or> c = CHR ''.'' \<or> c = CHR ''+'' \<or> c = CHR ''-'')"

definition mail_host_char :: "char \<Rightarrow> bool" where
  "mail_host_char c = (is_word c \<or> c = CHR ''.'' \<or> c = CHR ''-'')"

definition CONFIDENTIAL_PATTERNS :: "pattern list" where
  "CONFIDENTIAL_PATTERNS =
     [[WordBoundary] @ lit ''IBAN'' @ [WordBoundary],
      [WordBoundary] @ lit ''fattur'' @ [One (\<lambda>c. nocase (CHR ''a'') c \<or> nocase (CHR ''e'') c)] @ [WordBoundary],
      [WordBoundary] @ lit ''curriculum'' @ [WordBoundary],
      [WordBoundary] @ lit ''cliente'' @ [WordBoundary],
      at_least 1 mail_local_char @ lit ''@'' @ at_least 1 mail_host_char @ lit ''.'' @ at_least 2 is_ascii_alpha]"

section \<open>The gate\<close>

record privacy_decision =
  classification :: privacy_class
  cloud_allowed :: bool
  model_allowed :: bool
  pd_reasons :: "string list"
  pd_policy_version :: string

definition detect :: "string \<Rightarrow> privacy_class \<Rightarrow> privacy_class" where
  "detect content declared =
     (if re_search SECRET_PATTERNS content then SECRET
      else if re_search CONFIDENTIAL_PATTERNS content then CONFIDENTIAL else declared)"

definition decision_for :: "bool \<Rightarrow> privacy_class \<Rightarrow> privacy_decision" where
  "decision_for allow_internal_cloud c =
     (case c of
        SECRET \<Rightarrow> \<lparr>classification = c, cloud_allowed = False, model_allowed = False,
          pd_reasons = [''secret_model_access_denied'', ''cloud_denied''], pd_policy_version = ''privacy-v0''\<rparr>
      | CONFIDENTIAL \<Rightarrow> \<lparr>classification = c, cloud_allowed = False, model_allowed = True,
          pd_reasons = [''confidential_cloud_denied''], pd_policy_version = ''privacy-v0''\<rparr>
      | INTERNAL \<Rightarrow> \<lparr>classification = c, cloud_allowed = allow_internal_cloud, model_allowed = True,
          pd_reasons = [''local_preferred'', if allow_internal_cloud then ''cloud_policy_allowed'' else ''cloud_denied''],
          pd_policy_version = ''privacy-v0''\<rparr>
      | PUBLIC \<Rightarrow> \<lparr>classification = c, cloud_allowed = True, model_allowed = True,
          pd_reasons = [''public_cloud_allowed''], pd_policy_version = ''privacy-v0''\<rparr>)"

definition classify :: "bool \<Rightarrow> string \<Rightarrow> privacy_class \<Rightarrow> privacy_decision" where
  "classify allow_internal_cloud content declared =
     decision_for allow_internal_cloud (max declared (detect content declared))"

section \<open>Facts\<close>

lemma classification_decision [simp]: "classification (decision_for b c) = c"
  by (cases c) (simp_all add: decision_for_def)

lemma classification_classify: "classification (classify b t d) = max d (detect t d)"
  by (simp add: classify_def)

lemma classify_secret_iff:
  "classification (classify b t d) = SECRET \<longleftrightarrow> d = SECRET \<or> re_search SECRET_PATTERNS t"
  by (cases d) (auto simp: classification_classify detect_def max_def less_eq_privacy_class_def)

lemma model_allowed_iff: "model_allowed (decision_for b c) \<longleftrightarrow> c \<noteq> SECRET"
  by (cases c) (simp_all add: decision_for_def)

lemma cloud_allowed_iff:
  "cloud_allowed (decision_for b c) \<longleftrightarrow> c = PUBLIC \<or> (c = INTERNAL \<and> b)"
  by (cases c) (simp_all add: decision_for_def)

end
