(* ===== verification/Ledger.thy ===== *)
theory Ledger imports Leases Privacy begin

text \<open>
  dante/ledger.py, the task half: creation, the status machine, checkpoints, routes, artifacts and
  persistent acceptance. Each definition is one method; its guards are the code's, in the code's
  order. The audit log written after a commit is not part of the database and is left out.
\<close>

section \<open>The status machine\<close>

fun TRANSITIONS :: "task_status \<Rightarrow> task_status list" where
  "TRANSITIONS CREATED = [PLANNED, CANCELLED]"
| "TRANSITIONS PLANNED = [RUNNING, CANCELLED]"
| "TRANSITIONS RUNNING = [WAITING_TOOL, WAITING_APPROVAL, VERIFYING, FAILED_RETRYABLE, FAILED_TERMINAL, CANCELLED]"
| "TRANSITIONS WAITING_TOOL = [RUNNING, FAILED_RETRYABLE, FAILED_TERMINAL, CANCELLED]"
| "TRANSITIONS WAITING_APPROVAL = [RUNNING, FAILED_TERMINAL, CANCELLED]"
| "TRANSITIONS VERIFYING = [CANCELLED, COMPLETED, FAILED_RETRYABLE, FAILED_TERMINAL]"
| "TRANSITIONS FAILED_RETRYABLE = [RUNNING, CANCELLED]"
| "TRANSITIONS COMPLETED = []"
| "TRANSITIONS FAILED_TERMINAL = []"
| "TRANSITIONS CANCELLED = []"

section \<open>Creating and reading tasks\<close>

definition acceptance_row_for :: "acceptance_contract option \<Rightarrow> acceptance_row" where
  "acceptance_row_for acc =
     \<lparr>aw_contract = (case acc of None \<Rightarrow> empty_contract | Some c \<Rightarrow> c),
      aw_strict = (acc \<noteq> None), aw_locked = (acc \<noteq> None),
      aw_attestations = nothing_observed, aw_final_evidence = []\<rparr>"

definition create_task :: "tx \<Rightarrow> task \<Rightarrow> acceptance_contract option \<Rightarrow> db \<Rightarrow> (task \<times> db) result" where
  "create_task x tk acc db =
     rbind (t_ins (task_id tk) \<lparr>tr_task = tk, tr_revision = 0\<rparr> (tasks db)) (\<lambda>ts.
     rbind (t_ins (task_id tk) (acceptance_row_for acc) (task_acceptance db)) (\<lambda>as.
     rbind (add_event x tk ''task.created'' None [] (db\<lparr>tasks := ts, task_acceptance := as\<rparr>)) (\<lambda>db'.
     Inr (tk, db'))))"

definition get_task :: "db \<Rightarrow> string \<Rightarrow> task result" where
  "get_task db tid = of_opt KeyError (task_of db tid)"

definition active_task :: "db \<Rightarrow> string \<Rightarrow> task result" where
  "active_task db tid =
     rbind (of_opt KeyError (task_of db tid)) (\<lambda>tk.
       if status tk \<in> {COMPLETED, CANCELLED, FAILED_TERMINAL} then Inl InvalidTransition else Inr tk)"

definition recoverable_tasks :: "db \<Rightarrow> task list" where
  "recoverable_tasks db =
     filter (\<lambda>tk. status tk \<notin> {COMPLETED, FAILED_TERMINAL, CANCELLED}) (map tr_task (t_rows (tasks db)))"

definition events :: "db \<Rightarrow> string \<Rightarrow> event_row list" where
  "events db tid = filter (\<lambda>e. ev_task_id e = tid) (task_events db)"

section \<open>Evidence\<close>

definition checked_artifact :: "pylib \<Rightarrow> fsys \<Rightarrow> db \<Rightarrow> string \<Rightarrow> string \<Rightarrow> artifact result" where
  "checked_artifact L F db tid aid =
     (case t_get (artifacts db) aid of
        None \<Rightarrow> Inl ValueError
      | Some a \<Rightarrow>
          if ar_task_id a \<noteq> tid then Inl ValueError
          else rbind (file_digest L F (path a)) (\<lambda>h.
            if h \<noteq> checksum_sha256 a then Inl ValueError else Inr a))"

text \<open>A reference column counts when it is neither \<open>NULL\<close> nor empty.\<close>

definition set_ref :: "string option \<Rightarrow> string option" where
  "set_ref r = (case r of None \<Rightarrow> None | Some s \<Rightarrow> if s = [] then None else Some s)"

definition steps_of :: "db \<Rightarrow> string \<Rightarrow> step_record list" where
  "steps_of db tid = filter (\<lambda>s. sr_task_id s = tid) (t_rows (execution_steps db))"

definition artifacts_of :: "db \<Rightarrow> string \<Rightarrow> artifact list" where
  "artifacts_of db tid = filter (\<lambda>a. ar_task_id a = tid) (t_rows (artifacts db))"

definition step_verified :: "pylib \<Rightarrow> fsys \<Rightarrow> db \<Rightarrow> string \<Rightarrow> step_record \<Rightarrow> unit result" where
  "step_verified L F db tid st =
     rbind (verified_receipt L F st) (\<lambda>_.
       case set_ref (evidence_ref st) of
         None \<Rightarrow> Inr ()
       | Some ref \<Rightarrow> rbind (checked_artifact L F db tid ref) (\<lambda>_. Inr ()))"

fun check_steps ::
  "pylib \<Rightarrow> fsys \<Rightarrow> db \<Rightarrow> string \<Rightarrow> step_record list \<Rightarrow> string fset \<Rightarrow> string list
   \<Rightarrow> (string fset \<times> string list) result" where
  "check_steps L F db tid [] tools pending = Inr (tools, pending)"
| "check_steps L F db tid (st # sts) tools pending =
     (case step_verified L F db tid st of
        Inr _ \<Rightarrow> check_steps L F db tid sts (finsert (sr_tool_id st) tools) pending
      | Inl e \<Rightarrow>
          if e \<in> {ReconciliationRequired, ValueError, OSError}
          then check_steps L F db tid sts tools (pending @ [''step:'' @ step_id st])
          else Inl e)"

text \<open>
  \<open>provenance.get('logical_name', Path(path).name)\<close>, added to a set of strings: an unhashable
  value is a \<open>TypeError\<close>, any other non-string fails the model's validation.
\<close>

definition logical_name :: "artifact \<Rightarrow> string result" where
  "logical_name a =
     (case dget (provenance a) ''logical_name'' of
        None \<Rightarrow> Inr (path_name (path a))
      | Some (PStr s) \<Rightarrow> Inr s
      | Some (PList _) \<Rightarrow> Inl TypeError
      | Some (PDict _) \<Rightarrow> Inl TypeError
      | Some _ \<Rightarrow> Inl ValueError)"

fun check_artifacts ::
  "pylib \<Rightarrow> fsys \<Rightarrow> db \<Rightarrow> string \<Rightarrow> artifact list \<Rightarrow> string fset \<Rightarrow> string list
   \<Rightarrow> (string fset \<times> string list) result" where
  "check_artifacts L F db tid [] names pending = Inr (names, pending)"
| "check_artifacts L F db tid (a # as) names pending =
     (case checked_artifact L F db tid (artifact_id a) of
        Inr art \<Rightarrow>
          rbind (logical_name art) (\<lambda>n.
            check_artifacts L F db tid as (finsert n (finsert (artifact_id art) names)) pending)
      | Inl _ \<Rightarrow> check_artifacts L F db tid as names (pending @ [''artifact:'' @ artifact_id a]))"

text \<open>The value of one field in its evidence document, if it is read at all.\<close>

definition evidence_value :: "pylib \<Rightarrow> fsys \<Rightarrow> db \<Rightarrow> string \<Rightarrow> string \<Rightarrow> string \<Rightarrow> pyval option" where
  "evidence_value L F db tid fld aid =
     (case rbind (checked_artifact L F db tid aid) (\<lambda>a. load_json_file L F (path a)) of
        Inr (PDict d) \<Rightarrow> dget d fld
      | _ \<Rightarrow> None)"

fun final_fields_from ::
  "pylib \<Rightarrow> fsys \<Rightarrow> db \<Rightarrow> string \<Rightarrow> (string \<times> string) list \<Rightarrow> (string \<times> string) list \<Rightarrow> (string \<times> string) list" where
  "final_fields_from L F db tid [] flds = flds"
| "final_fields_from L F db tid ((fld, aid) # refs) flds =
     final_fields_from L F db tid refs
       (case evidence_value L F db tid fld aid of
          None \<Rightarrow> dict_del fld flds
        | Some (PStr v) \<Rightarrow> dict_set fld v flds
        | Some _ \<Rightarrow> flds)"

definition acceptance_result_of :: "pylib \<Rightarrow> fsys \<Rightarrow> db \<Rightarrow> string \<Rightarrow> acceptance_result result" where
  "acceptance_result_of L F db tid =
     (case t_get (task_acceptance db) tid of
        None \<Rightarrow> Inr \<lparr>acceptance_complete = False, missing_checks = [''acceptance_contract''],
                     missing_artifacts = [], missing_final_fields = []\<rparr>
      | Some row \<Rightarrow>
          (let observed = (if aw_strict row then nothing_observed else aw_attestations row);
               steps = steps_of db tid;
               tools0 = ob_tools observed |-| fset_of_list (map sr_tool_id steps)
           in rbind (check_steps L F db tid steps tools0 []) (\<lambda>(tools, pending1).
              rbind (check_artifacts L F db tid (artifacts_of db tid) (ob_artifacts observed) pending1)
                (\<lambda>(arts, pending).
              let flds = final_fields_from L F db tid (aw_final_evidence row) (ob_final_fields observed);
                  r = verify (aw_contract row)
                        \<lparr>ob_tools = tools, ob_artifacts = arts, ob_final_fields = flds\<rparr>
              in Inr (if pending = [] then r
                      else r\<lparr>acceptance_complete := False,
                             missing_checks := missing_checks r @ sort pending\<rparr>)))))"

section \<open>Status transitions and checkpoints\<close>

text \<open>
  The \<open>UPDATE\<close> also asks for the revision read in the same transaction; under
  \<open>BEGIN IMMEDIATE\<close> that row cannot have changed in between.
\<close>

definition transition ::
  "pylib \<Rightarrow> fsys \<Rightarrow> tx \<Rightarrow> string \<Rightarrow> task_status \<Rightarrow> string option \<Rightarrow> (string \<times> pyval) list
   \<Rightarrow> db \<Rightarrow> (task \<times> db) result" where
  "transition L F x tid tgt step metadata db =
     rbind (assert_lease x db tid False None) (\<lambda>_.
     rbind (if tgt = COMPLETED then assert_lease x db tid True None else Inr None) (\<lambda>_.
     rbind (of_opt KeyError (task_of db tid)) (\<lambda>tk.
       if status tk = tgt then Inr (tk, db)
       else
         rbind (guard (tgt \<in> set (TRANSITIONS (status tk))) InvalidTransition) (\<lambda>_.
         rbind (if tgt = COMPLETED
                then rbind (acceptance_result_of L F db tid) (\<lambda>r. guard (acceptance_complete r) InvalidTransition)
                else Inr ()) (\<lambda>_.
         let tk' = tk\<lparr>status := tgt, updated_at := tx_stamp x,
                      current_step := (case step of None \<Rightarrow> current_step tk | Some s \<Rightarrow> Some s),
                      attempts := (if tgt = RUNNING then Suc (attempts tk) else attempts tk)\<rparr>
         in rbind (add_event x tk' ''task.transition'' (Some (status tk)) metadata (put_task tid tk' db)) (\<lambda>db'.
            Inr (tk', db')))))))"

definition checkpoint_task :: "tx \<Rightarrow> string \<Rightarrow> string \<Rightarrow> pydict \<Rightarrow> db \<Rightarrow> (task \<times> db) result" where
  "checkpoint_task x tid step state db =
     rbind (assert_lease x db tid False None) (\<lambda>_.
     rbind (of_opt KeyError (task_of db tid)) (\<lambda>tk.
     let tk' = tk\<lparr>current_step := Some step, checkpoint := state, updated_at := tx_stamp x\<rparr>
     in rbind (add_event x tk' ''task.checkpoint'' (Some (status tk')) [(''step'', PStr step)] (put_task tid tk' db)) (\<lambda>db'.
        Inr (tk', db'))))"

section \<open>Routes and artifacts\<close>

definition set_route :: "tx \<Rightarrow> route_decision \<Rightarrow> db \<Rightarrow> (task \<times> db) result" where
  "set_route x d db =
     rbind (assert_lease x db (rd_task_id d) True None) (\<lambda>_.
     let db1 = db\<lparr>routes := t_ins_ignore (route_id d) d (routes db)\<rparr>
     in rbind (of_opt KeyError (task_of db1 (rd_task_id d))) (\<lambda>tk.
        let tk' = tk\<lparr>selected_route := Some (route_id d), updated_at := tx_stamp x\<rparr>
        in rbind (add_event x tk' ''route.selected'' (Some (status tk'))
                   [(''route_id'', PStr (route_id d)), (''model_id'', PStr (model_id (selected_model d)))]
                   (put_task (task_id tk') tk' db1)) (\<lambda>db'.
           Inr (tk', db'))))"

definition get_route :: "db \<Rightarrow> string \<Rightarrow> route_decision result" where
  "get_route db rid = of_opt KeyError (t_get (routes db) rid)"

definition get_artifact :: "db \<Rightarrow> string \<Rightarrow> artifact result" where
  "get_artifact db aid = of_opt KeyError (t_get (artifacts db) aid)"

definition add_artifact :: "tx \<Rightarrow> artifact \<Rightarrow> db \<Rightarrow> (task \<times> db) result" where
  "add_artifact x a db =
     rbind (active_task db (ar_task_id a)) (\<lambda>_.
     rbind (t_ins (artifact_id a) a (artifacts db)) (\<lambda>as.
     let db1 = db\<lparr>artifacts := as\<rparr>
     in rbind (of_opt KeyError (task_of db1 (ar_task_id a))) (\<lambda>tk.
        let tk' = tk\<lparr>task_artifacts := (if artifact_id a \<in> set (task_artifacts tk) then task_artifacts tk
                                        else task_artifacts tk @ [artifact_id a]),
                     updated_at := tx_stamp x\<rparr>
        in rbind (add_event x tk' ''artifact.created'' (Some (status tk'))
                   [(''artifact_id'', PStr (artifact_id a))] (put_task (task_id tk') tk' db1)) (\<lambda>db'.
           Inr (tk', db')))))"

section \<open>Persistent acceptance\<close>

definition get_acceptance :: "db \<Rightarrow> string \<Rightarrow> acceptance_contract result" where
  "get_acceptance db tid = rbind (of_opt KeyError (t_get (task_acceptance db) tid)) (\<lambda>r. Inr (aw_contract r))"

text \<open>Equality of two contracts: the \<open>instructions\<close> dictionaries compare without order.\<close>

definition same_contract :: "acceptance_contract \<Rightarrow> acceptance_contract \<Rightarrow> bool" where
  "same_contract c d =
     (required_tools c = required_tools d \<and> required_artifacts c = required_artifacts d
      \<and> required_final_fields c = required_final_fields d \<and> set (instructions c) = set (instructions d))"

definition bind_acceptance :: "string \<Rightarrow> acceptance_contract \<Rightarrow> db \<Rightarrow> db result" where
  "bind_acceptance tid contract db =
     rbind (active_task db tid) (\<lambda>_.
     rbind (of_opt RuntimeError (t_get (task_acceptance db) tid)) (\<lambda>row.
       if aw_locked row \<and> \<not> same_contract (aw_contract row) contract then Inl ValueError
       else Inr (db\<lparr>task_acceptance :=
              t_upd tid (\<lambda>r. r\<lparr>aw_contract := contract, aw_locked := True\<rparr>) (task_acceptance db)\<rparr>)))"

text \<open>\<open>dump\<close> is pydantic's \<open>model_dump_json\<close> of the observation.\<close>

definition record_observations ::
  "(observed_acceptance \<Rightarrow> string) \<Rightarrow> tx \<Rightarrow> string \<Rightarrow> observed_acceptance \<Rightarrow> db \<Rightarrow> db result" where
  "record_observations dump x tid observed db =
     (if classification (classify True (dump observed) INTERNAL) = SECRET then Inl ValueError
      else
        rbind (active_task db tid) (\<lambda>tk.
        rbind (of_opt TypeError (t_get (task_acceptance db) tid)) (\<lambda>row.
          if aw_strict row then Inr db
          else add_event x tk ''acceptance.caller_attestation'' (Some (status tk))
                 [(''source'', PStr ''legacy_trusted_caller'')]
                 (db\<lparr>task_acceptance :=
                    t_upd tid (\<lambda>r. r\<lparr>aw_attestations := merged (aw_attestations row) observed\<rparr>) (task_acceptance db)\<rparr>))))"

definition string_mapping :: "pyval \<Rightarrow> string list option" where
  "string_mapping v =
     (case v of
        PDict d \<Rightarrow> if list_all (\<lambda>kv. case snd kv of PStr _ \<Rightarrow> True | _ \<Rightarrow> False) d
                   then Some (map (\<lambda>kv. key_text (fst kv)) d) else None
      | _ \<Rightarrow> None)"

definition record_final_evidence ::
  "pylib \<Rightarrow> fsys \<Rightarrow> tx \<Rightarrow> string \<Rightarrow> string \<Rightarrow> db \<Rightarrow> db result" where
  "record_final_evidence L F x tid aid db =
     rbind (active_task db tid) (\<lambda>tk.
     rbind (checked_artifact L F db tid aid) (\<lambda>a.
     rbind (load_json_file L F (path a)) (\<lambda>values.
     rbind (of_opt ValueError (string_mapping values)) (\<lambda>keys.
     rbind (of_opt TypeError (t_get (task_acceptance db) tid)) (\<lambda>row.
       add_event x tk ''acceptance.final_evidence'' (Some (status tk)) [(''artifact_id'', PStr aid)]
         (db\<lparr>task_acceptance :=
            t_upd tid (\<lambda>r. r\<lparr>aw_final_evidence := dict_merge (aw_final_evidence row) (map (\<lambda>k. (k, aid)) keys)\<rparr>)
              (task_acceptance db)\<rparr>))))))"

definition result_dump :: "acceptance_result \<Rightarrow> (string \<times> pyval) list" where
  "result_dump r =
     [(''acceptance_complete'', PBool (acceptance_complete r)),
      (''missing_checks'', PList (map PStr (missing_checks r))),
      (''missing_artifacts'', PList (map PStr (missing_artifacts r))),
      (''missing_final_fields'', PList (map PStr (missing_final_fields r)))]"

definition verify_persistent_acceptance ::
  "pylib \<Rightarrow> fsys \<Rightarrow> tx \<Rightarrow> string \<Rightarrow> db \<Rightarrow> (acceptance_result \<times> db) result" where
  "verify_persistent_acceptance L F x tid db =
     rbind (acceptance_result_of L F db tid) (\<lambda>r.
     rbind (active_task db tid) (\<lambda>tk.
     rbind (add_event x tk ''acceptance.checked'' (Some (status tk)) (result_dump r) db) (\<lambda>db'.
     Inr (r, db'))))"

definition record_tool_outcome ::
  "tx \<Rightarrow> string \<Rightarrow> string \<Rightarrow> string \<Rightarrow> string option \<Rightarrow> db \<Rightarrow> db result" where
  "record_tool_outcome x tid tool_digest st sid db =
     rbind (get_task db tid) (\<lambda>tk.
       add_event x tk ''tool.outcome'' (Some (status tk))
         [(''tool_digest'', PStr tool_digest), (''status'', PStr st),
          (''step_id'', case sid of None \<Rightarrow> PNone | Some s \<Rightarrow> PStr s)] db)"

section \<open>Facts about single operations\<close>

lemma TRANSITIONS_terminal: "TRANSITIONS s = [] \<longleftrightarrow> terminal s"
  by (cases s) simp_all

lemma TRANSITIONS_cancel: "CANCELLED \<in> set (TRANSITIONS s) \<longleftrightarrow> \<not> terminal s"
  by (cases s) simp_all

lemma active_task_Inr: "active_task db tid = Inr tk \<longleftrightarrow> task_of db tid = Some tk \<and> \<not> terminal (status tk)"
  by (auto simp: active_task_def result_simps TERMINAL_def)

lemma get_task_Inr: "get_task db tid = Inr tk \<longleftrightarrow> task_of db tid = Some tk"
  by (auto simp: get_task_def result_simps)

lemma transition_cases:
  assumes "transition L F x tid tgt step md db = Inr (tk', db')"
  obtains tk where "task_of db tid = Some tk" "status tk = tgt" "tk' = tk" "db' = db"
  | tk where "task_of db tid = Some tk" "status tk \<noteq> tgt" "tgt \<in> set (TRANSITIONS (status tk))"
      "tgt = COMPLETED \<Longrightarrow> \<exists>r. acceptance_result_of L F db tid = Inr r \<and> acceptance_complete r"
      "status tk' = tgt" "task_id tk' = task_id tk"
      "add_event x tk' ''task.transition'' (Some (status tk)) md (put_task tid tk' db) = Inr db'"
proof -
  from assms obtain tk where tk: "task_of db tid = Some tk"
    by (auto simp: transition_def result_simps)
  show thesis
  proof (cases "status tk = tgt")
    case True
    with assms tk have "tk' = tk \<and> db' = db" by (auto simp: transition_def result_simps)
    with tk True show thesis by (intro that(1)) auto
  next
    case False
    with assms tk have "tgt \<in> set (TRANSITIONS (status tk))
        \<and> (tgt = COMPLETED \<longrightarrow> (\<exists>r. acceptance_result_of L F db tid = Inr r \<and> acceptance_complete r))
        \<and> status tk' = tgt \<and> task_id tk' = task_id tk
        \<and> add_event x tk' ''task.transition'' (Some (status tk)) md (put_task tid tk' db) = Inr db'"
      by (auto simp: transition_def rbind_eq_Inr of_opt_eq_Inr Let_def split: if_split_asm)
    with tk False show thesis by (intro that(2)) auto
  qed
qed

section \<open>How an operation may change the tasks\<close>

definition status_moves :: "db \<Rightarrow> db \<Rightarrow> bool" where
  "status_moves db db' \<longleftrightarrow>
     (\<forall>tid s. status_of db tid = Some s \<longrightarrow>
        (\<exists>s'. status_of db' tid = Some s' \<and> (s' = s \<or> s' \<in> set (TRANSITIONS s))))"

definition evolves :: "db \<Rightarrow> db \<Rightarrow> bool" where
  "evolves db db' \<longleftrightarrow> (tasks_keyed db \<longrightarrow> tasks_keyed db' \<and> status_moves db db')"

lemma status_of_eq: "status_of db tid = Some s \<longleftrightarrow> (\<exists>tk. task_of db tid = Some tk \<and> status tk = s)"
  by (auto simp: status_of_def)

lemma evolves_same:
  assumes "tasks db' = tasks db"
  shows "evolves db db'"
  by (simp add: evolves_def status_moves_def tasks_keyed_def status_of_cong [OF assms] task_of_cong [OF assms])

lemma evolves_refl [simp]: "evolves db db"
  by (simp add: evolves_same)

lemma evolves_put:
  assumes "tasks db' = tasks (put_task tid tk' db)" "task_of db tid = Some tk"
    and "task_id tk' = task_id tk" "status tk' = status tk \<or> status tk' \<in> set (TRANSITIONS (status tk))"
  shows "evolves db db'"
proof -
  have "task_of db' = (\<lambda>i. if i = tid then Some tk' else task_of db i)"
    using assms(2) task_of_cong [OF assms(1)] by simp
  with assms show ?thesis
    by (auto simp: evolves_def status_moves_def tasks_keyed_def status_of_eq)
qed

text \<open>The same for an update addressed by the identifier in the payload.\<close>

lemma evolves_put_id:
  assumes "tasks db' = tasks (put_task (task_id tk') tk' db1)" "tasks db1 = tasks db"
    and "task_of db tid = Some tk" "task_id tk' = task_id tk" "status tk' = status tk"
  shows "evolves db db'"
proof (cases "tasks_keyed db")
  case True
  with assms(3,4) have "task_id tk' = tid" by (auto simp: tasks_keyed_def)
  moreover have "tasks (put_task tid tk' db1) = tasks (put_task tid tk' db)"
    using assms(2) by (simp add: put_task_def)
  ultimately show ?thesis using assms by (intro evolves_put [where tid = tid and tk' = tk' and tk = tk]) auto
next
  case False
  then show ?thesis by (simp add: evolves_def)
qed

lemma evolves_put_event:
  assumes "add_event x tk' e p m (put_task tid tk' db) = Inr db'" "task_of db tid = Some tk"
    and "task_id tk' = task_id tk" "status tk' = status tk \<or> status tk' \<in> set (TRANSITIONS (status tk))"
  shows "evolves db db'"
  using assms by (intro evolves_put [OF add_event_frame(1) [OF assms(1)]])

lemma evolves_put_id_event:
  assumes "add_event x tk' e p m (put_task (task_id tk') tk' db1) = Inr db'" "tasks db1 = tasks db"
    and "task_of db tid = Some tk" "task_id tk' = task_id tk" "status tk' = status tk"
  shows "evolves db db'"
  using assms by (intro evolves_put_id [OF add_event_frame(1) [OF assms(1)]])

lemma evolves_insert:
  assumes "t_get (tasks db) tid = None" "task_id (tr_task r) = tid" "tasks db' = tasks db @ [(tid, r)]"
  shows "evolves db db'"
proof -
  have "t_get (tasks db') = (t_get (tasks db))(tid \<mapsto> r)"
    using assms by (simp add: t_get_snoc_new)
  then have new: "task_of db' = (\<lambda>i. if i = tid then Some (tr_task r) else task_of db i)"
    by (simp add: task_of_def fun_eq_iff)
  moreover have "task_of db tid = None" using assms(1) by (simp add: task_of_None)
  ultimately show ?thesis
    using assms(2) by (auto simp: evolves_def status_moves_def tasks_keyed_def status_of_eq)
qed

lemma evolves_then_same:
  assumes "evolves db db1" "tasks db2 = tasks db1"
  shows "evolves db db2"
  using assms(1)
  unfolding evolves_def status_moves_def tasks_keyed_def status_of_cong [OF assms(2)] task_of_cong [OF assms(2)] .

lemma create_task_shape:
  assumes "create_task x tk acc db = Inr (r, db')"
  shows "r = tk" "t_get (tasks db) (task_id tk) = None"
    "tasks db' = tasks db @ [(task_id tk, \<lparr>tr_task = tk, tr_revision = 0\<rparr>)]"
    "t_get (task_acceptance db) (task_id tk) = None"
    "task_acceptance db' = task_acceptance db @ [(task_id tk, acceptance_row_for acc)]"
  using assms by (auto simp: create_task_def rbind_eq_Inr t_ins_Inr add_event_Inr)

lemma create_task_evolves: "create_task x tk acc db = Inr (r, db') \<Longrightarrow> evolves db db'"
  by (rule evolves_insert [OF create_task_shape(2) _ create_task_shape(3)]) auto

lemma transition_evolves: "transition L F x tid tgt step md db = Inr (tk, db') \<Longrightarrow> evolves db db'"
  by (erule transition_cases) (auto intro: evolves_put dest: add_event_frame)

lemma checkpoint_shape:
  assumes "checkpoint_task x tid step st db = Inr (tk, db')"
  obtains tk0 e p m where "task_of db tid = Some tk0"
    "tk = tk0\<lparr>current_step := Some step, checkpoint := st, updated_at := tx_stamp x\<rparr>"
    "add_event x tk e p m (put_task tid tk db) = Inr db'"
  using assms by (auto simp: checkpoint_task_def rbind_eq_Inr of_opt_eq_Inr Let_def)

lemma checkpoint_evolves: "checkpoint_task x tid step st db = Inr (tk, db') \<Longrightarrow> evolves db db'"
  by (erule checkpoint_shape, erule evolves_put_event) auto

lemma set_route_shape:
  assumes "set_route x d db = Inr (tk, db')"
  obtains tk0 e p m where "task_of db (rd_task_id d) = Some tk0"
    "tk = tk0\<lparr>selected_route := Some (route_id d), updated_at := tx_stamp x\<rparr>"
    "add_event x tk e p m (put_task (task_id tk) tk
        (db\<lparr>routes := t_ins_ignore (route_id d) d (routes db)\<rparr>)) = Inr db'"
  using assms by (auto simp: set_route_def rbind_eq_Inr of_opt_eq_Inr Let_def task_of_def)

lemma set_route_evolves: "set_route x d db = Inr (tk, db') \<Longrightarrow> evolves db db'"
  by (erule set_route_shape, erule evolves_put_id_event) auto

lemma add_artifact_shape:
  assumes "add_artifact x a db = Inr (tk, db')"
  obtains tk0 e p m where "task_of db (ar_task_id a) = Some tk0" "\<not> terminal (status tk0)"
    "t_get (artifacts db) (artifact_id a) = None"
    "tk = tk0\<lparr>task_artifacts := (if artifact_id a \<in> set (task_artifacts tk0) then task_artifacts tk0
                                  else task_artifacts tk0 @ [artifact_id a]), updated_at := tx_stamp x\<rparr>"
    "add_event x tk e p m (put_task (task_id tk) tk
        (db\<lparr>artifacts := artifacts db @ [(artifact_id a, a)]\<rparr>)) = Inr db'"
  using assms
  by (auto simp: add_artifact_def rbind_eq_Inr of_opt_eq_Inr t_ins_Inr Let_def task_of_def active_task_Inr
      simp del: if_split split del: if_split)

lemma add_artifact_evolves: "add_artifact x a db = Inr (tk, db') \<Longrightarrow> evolves db db'"
  by (erule add_artifact_shape, erule evolves_put_id_event) auto

lemma acceptance_ops_tasks:
  "bind_acceptance tid c db = Inr db' \<Longrightarrow> tasks db' = tasks db"
  "record_observations dump x tid ob db = Inr db' \<Longrightarrow> tasks db' = tasks db"
  "record_final_evidence L F x tid aid db = Inr db' \<Longrightarrow> tasks db' = tasks db"
  "verify_persistent_acceptance L F x tid db = Inr (r, db') \<Longrightarrow> tasks db' = tasks db"
  "record_tool_outcome x tid d s sid db = Inr db' \<Longrightarrow> tasks db' = tasks db"
  by (auto simp: bind_acceptance_def record_observations_def record_final_evidence_def
      verify_persistent_acceptance_def record_tool_outcome_def result_simps add_event_Inr split: if_splits)

end
