(* ===== verification/Ledger_Steps.thy ===== *)
theory Ledger_Steps imports Ledger begin

text \<open>
  dante/ledger.py, the execution journal: a tool action is recorded as an intent, claimed before
  its effect, finished with a receipt or marked uncertain, and reconciled only with evidence.
\<close>

section \<open>Identity of an operation\<close>

definition step_key :: "pylib \<Rightarrow> string \<Rightarrow> string \<Rightarrow> string \<Rightarrow> string option \<Rightarrow> string result" where
  "step_key L tool ver args_digest key =
     (case key of
        Some k \<Rightarrow> digest L (PStr k)
      | None \<Rightarrow> digest L (PList [PStr tool, PStr ver, PStr args_digest]))"

definition find_step :: "db \<Rightarrow> string \<Rightarrow> string \<Rightarrow> step_record option" where
  "find_step db tid key =
     find (\<lambda>s. sr_task_id s = tid \<and> idempotency_key s = key) (t_rows (execution_steps db))"

definition same_operation :: "step_record \<Rightarrow> string \<Rightarrow> string \<Rightarrow> string \<Rightarrow> bool" where
  "same_operation s tool ver args_digest =
     (sr_tool_id s = tool \<and> sr_tool_version s = ver \<and> arguments_digest s = args_digest)"

definition lookup_step ::
  "pylib \<Rightarrow> string \<Rightarrow> string \<Rightarrow> string \<Rightarrow> pydict \<Rightarrow> string option \<Rightarrow> db \<Rightarrow> step_record option result" where
  "lookup_step L tid tool ver args key db =
     rbind (digest L (PDict args)) (\<lambda>args_digest.
     rbind (step_key L tool ver args_digest key) (\<lambda>k.
       case find_step db tid k of
         None \<Rightarrow> Inr None
       | Some s \<Rightarrow> if same_operation s tool ver args_digest then Inr (Some s) else Inl ValueError))"

definition get_step :: "db \<Rightarrow> string \<Rightarrow> string \<Rightarrow> step_record result" where
  "get_step db tid sid =
     (case t_get (execution_steps db) sid of
        None \<Rightarrow> Inl KeyError
      | Some s \<Rightarrow> if sr_task_id s = tid then Inr s else Inl KeyError)"

text \<open>\<open>ORDER BY created_at,step_id\<close>\<close>

definition steps :: "db \<Rightarrow> string \<Rightarrow> step_record list" where
  "steps db tid = sort_key (\<lambda>s. (sr_created_at s, step_id s)) (steps_of db tid)"

definition verified_step_result :: "pylib \<Rightarrow> fsys \<Rightarrow> db \<Rightarrow> string \<Rightarrow> string \<Rightarrow> pydict result" where
  "verified_step_result L F db tid sid =
     rbind (get_step db tid sid) (\<lambda>s.
     rbind (verified_receipt L F s) (\<lambda>r.
       case set_ref (evidence_ref s) of
         None \<Rightarrow> Inr r
       | Some ref \<Rightarrow>
           (case checked_artifact L F db tid ref of
              Inr _ \<Rightarrow> Inr r
            | Inl e \<Rightarrow> if e \<in> {OSError, ValueError} then Inl ReconciliationRequired else Inl e)))"

section \<open>Writing the journal\<close>

definition new_step ::
  "tx \<Rightarrow> string \<Rightarrow> string \<Rightarrow> string \<Rightarrow> string \<Rightarrow> string \<Rightarrow> string \<Rightarrow> step_record" where
  "new_step x sid tid tool ver args_digest key =
     \<lparr>step_id = sid, sr_task_id = tid, sr_tool_id = tool, sr_tool_version = ver,
      arguments_digest = args_digest, idempotency_key = key, attempt = 0, sr_state = StIntent,
      sr_created_at = tx_stamp x, started_at = None, completed_at = None, sr_result = None,
      result_digest = None, evidence_ref = None, sr_error = None\<rparr>"

text \<open>\<open>sid\<close> is the identifier \<open>new_id('step')\<close> draws.\<close>

definition prepare_step ::
  "pylib \<Rightarrow> tx \<Rightarrow> string \<Rightarrow> string \<Rightarrow> string \<Rightarrow> string \<Rightarrow> pydict \<Rightarrow> string option \<Rightarrow> db
   \<Rightarrow> (step_record \<times> db) result" where
  "prepare_step L x sid tid tool ver args key db =
     rbind (digest L (PDict args)) (\<lambda>args_digest.
     rbind (step_key L tool ver args_digest key) (\<lambda>k.
     rbind (assert_lease x db tid True None) (\<lambda>_.
     rbind (active_task db tid) (\<lambda>tk.
       case find_step db tid k of
         Some s \<Rightarrow> if same_operation s tool ver args_digest then Inr (s, db) else Inl ValueError
       | None \<Rightarrow>
           rbind (of_opt RuntimeError (t_get (task_acceptance db) tid)) (\<lambda>row.
           let contract = (if aw_locked row then aw_contract row
                           else (aw_contract row)\<lparr>required_tools := finsert tool (required_tools (aw_contract row))\<rparr>);
               db1 = db\<lparr>task_acceptance :=
                       t_upd tid (\<lambda>r. r\<lparr>aw_strict := True, aw_contract := contract, aw_attestations := nothing_observed\<rparr>)
                         (task_acceptance db)\<rparr>
           in rbind (t_ins sid (new_step x sid tid tool ver args_digest k) (execution_steps db1)) (\<lambda>ss.
              rbind (add_event x tk ''step.intent'' (Some (status tk))
                       [(''step_id'', PStr sid), (''arguments_digest'', PStr args_digest)]
                       (db1\<lparr>execution_steps := ss\<rparr>)) (\<lambda>db2.
              rbind (get_step db2 tid sid) (\<lambda>s. Inr (s, db2)))))))))"

definition upd_step :: "string \<Rightarrow> (step_record \<Rightarrow> step_record) \<Rightarrow> db \<Rightarrow> db" where
  "upd_step sid f db = db\<lparr>execution_steps := t_upd sid f (execution_steps db)\<rparr>"

text \<open>The row an \<open>UPDATE ... WHERE task_id=? AND step_id=? AND state=?\<close> changes, if any.\<close>

definition step_in_state :: "db \<Rightarrow> string \<Rightarrow> string \<Rightarrow> step_state \<Rightarrow> step_record option" where
  "step_in_state db tid sid st =
     (case t_get (execution_steps db) sid of
        None \<Rightarrow> None
      | Some s \<Rightarrow> if sr_task_id s = tid \<and> sr_state s = st then Some s else None)"

definition claim_step :: "pylib \<Rightarrow> fsys \<Rightarrow> tx \<Rightarrow> string \<Rightarrow> string \<Rightarrow> db \<Rightarrow> db result" where
  "claim_step L F x tid sid db =
     rbind (assert_lease x db tid True None) (\<lambda>_.
     rbind (active_task db tid) (\<lambda>tk.
     rbind (case step_in_state db tid sid StIntent of
              None \<Rightarrow> Inr ()
            | Some s \<Rightarrow>
                (case set_ref (evidence_ref s) of
                   None \<Rightarrow> Inr ()
                 | Some ref \<Rightarrow>
                     (case checked_artifact L F db tid ref of
                        Inr _ \<Rightarrow> Inr ()
                      | Inl e \<Rightarrow> if e \<in> {OSError, ValueError} then Inl ReconciliationRequired else Inl e))) (\<lambda>_.
     rbind (guard (step_in_state db tid sid StIntent \<noteq> None) ReconciliationRequired) (\<lambda>_.
       add_event x tk ''step.started'' (Some (status tk)) [(''step_id'', PStr sid)]
         (upd_step sid (\<lambda>s. s\<lparr>sr_state := StStarted, attempt := Suc (attempt s),
                              started_at := Some (tx_stamp x), sr_error := None\<rparr>) db)))))"

definition finish_step ::
  "pylib \<Rightarrow> fsys \<Rightarrow> tx \<Rightarrow> string \<Rightarrow> string \<Rightarrow> pydict \<Rightarrow> db \<Rightarrow> (step_record \<times> db) result" where
  "finish_step L F x tid sid res db =
     rbind (get_task db tid) (\<lambda>tk0.
     rbind (receipt L F res (workspace tk0)) (\<lambda>safe.
     rbind (assert_lease x db tid False None) (\<lambda>_.
     rbind (active_task db tid) (\<lambda>tk.
     rbind (digest L (PDict safe)) (\<lambda>h.
     rbind (guard (step_in_state db tid sid StStarted \<noteq> None) ReconciliationRequired) (\<lambda>_.
     rbind (add_event x tk ''step.succeeded'' (Some (status tk))
              [(''step_id'', PStr sid), (''result_digest'', PStr h)]
              (upd_step sid (\<lambda>s. s\<lparr>sr_state := StSucceeded, completed_at := Some (tx_stamp x),
                   sr_result := Some (PDict safe), result_digest := Some h, sr_error := None\<rparr>) db)) (\<lambda>db'.
     rbind (get_step db' tid sid) (\<lambda>s. Inr (s, db')))))))))"

definition mark_uncertain :: "tx \<Rightarrow> string \<Rightarrow> string \<Rightarrow> string \<Rightarrow> db \<Rightarrow> db result" where
  "mark_uncertain x tid sid err db =
     rbind (assert_lease x db tid False None) (\<lambda>_.
     rbind (active_task db tid) (\<lambda>tk.
       add_event x tk ''step.uncertain'' (Some (status tk))
         [(''step_id'', PStr sid), (''error_type'', PStr err)]
         (if step_in_state db tid sid StStarted = None then db
          else upd_step sid (\<lambda>s. s\<lparr>sr_state := StUncertain, sr_error := Some err\<rparr>) db)))"

section \<open>Reconciliation\<close>

text \<open>The step must be open: started, uncertain, or succeeded with a receipt that no longer verifies.\<close>

definition awaiting_reconciliation ::
  "pylib \<Rightarrow> fsys \<Rightarrow> db \<Rightarrow> string \<Rightarrow> string \<Rightarrow> step_record result" where
  "awaiting_reconciliation L F db tid sid =
     (case t_get (execution_steps db) sid of
        None \<Rightarrow> Inl ReconciliationRequired
      | Some s \<Rightarrow>
          if sr_task_id s \<noteq> tid \<or> sr_state s = StIntent then Inl ReconciliationRequired
          else if sr_state s = StSucceeded
          then (case verified_receipt L F s of
                  Inr _ \<Rightarrow> Inl ReconciliationRequired
                | Inl e \<Rightarrow> if e = ReconciliationRequired then Inr s else Inl e)
          else Inr s)"

definition field_is :: "pydict \<Rightarrow> string \<Rightarrow> string \<Rightarrow> bool" where
  "field_is d k v = (dget d k = Some (PStr v))"

definition reconcile_step ::
  "pylib \<Rightarrow> fsys \<Rightarrow> tx \<Rightarrow> string \<Rightarrow> string \<Rightarrow> string \<Rightarrow> string \<Rightarrow> bool \<Rightarrow> db
   \<Rightarrow> (step_record \<times> db) result" where
  "reconcile_step L F x tid sid aid actor executor_stopped db =
     (if \<not> executor_stopped \<or> strip actor = [] then Inl ReconciliationRequired
      else
        rbind (active_task db tid) (\<lambda>tk.
        rbind (awaiting_reconciliation L F db tid sid) (\<lambda>s.
        rbind (checked_artifact L F db tid aid) (\<lambda>a.
        rbind (load_json_file L F (path a)) (\<lambda>doc.
        rbind (case doc of PDict d \<Rightarrow> Inr d | _ \<Rightarrow> Inl AttributeError) (\<lambda>evidence.
        rbind (guard (field_is evidence ''step_id'' sid
                      \<and> field_is evidence ''arguments_digest'' (arguments_digest s)) ValueError) (\<lambda>_.
        rbind (if field_is evidence ''outcome'' ''applied'' then
                 rbind (of_opt KeyError (dget evidence ''result'')) (\<lambda>v.
                 rbind (case v of PDict d \<Rightarrow> Inr d | _ \<Rightarrow> Inl AttributeError) (\<lambda>res.
                 rbind (receipt L F res (workspace tk)) (\<lambda>safe.
                 rbind (digest L (PDict safe)) (\<lambda>h.
                   Inr (''applied'',
                     upd_step sid (\<lambda>s. s\<lparr>sr_state := StSucceeded, completed_at := Some (tx_stamp x),
                       sr_result := Some (PDict safe), result_digest := Some h,
                       evidence_ref := Some aid, sr_error := None\<rparr>) db)))))
               else if field_is evidence ''outcome'' ''not_applied'' then
                 Inr (''not_applied'',
                   upd_step sid (\<lambda>s. s\<lparr>sr_state := StIntent, evidence_ref := Some aid, sr_error := None\<rparr>) db)
               else Inl ReconciliationRequired) (\<lambda>(outcome, db1).
        rbind (add_event x tk ''step.reconciled'' (Some (status tk))
                 [(''step_id'', PStr sid), (''artifact_id'', PStr aid), (''actor'', PStr actor),
                  (''outcome'', PStr outcome)] db1) (\<lambda>db2.
        rbind (get_step db2 tid sid) (\<lambda>s'. Inr (s', db2)))))))))))"

section \<open>How an operation may change the journal\<close>

text \<open>
  A step may still be claimed as often as its budget says beyond the attempts already made: an
  intent has one claim left, a step in any other state none. \<open>journal_moves\<close> is what every
  operation but a reconciliation may do: the identity of a step is fixed, its attempts never
  decrease, its budget never grows, and a success stays one.
\<close>

definition claim_budget :: "step_record \<Rightarrow> nat" where
  "claim_budget s = attempt s + (if sr_state s = StIntent then 1 else 0)"

definition same_step :: "step_record \<Rightarrow> step_record \<Rightarrow> bool" where
  "same_step s s' \<longleftrightarrow>
     step_id s' = step_id s \<and> sr_task_id s' = sr_task_id s \<and> sr_tool_id s' = sr_tool_id s
     \<and> sr_tool_version s' = sr_tool_version s \<and> arguments_digest s' = arguments_digest s
     \<and> idempotency_key s' = idempotency_key s"

definition step_moves :: "step_record \<Rightarrow> step_record \<Rightarrow> bool" where
  "step_moves s s' \<longleftrightarrow> same_step s s' \<and> attempt s \<le> attempt s' \<and> claim_budget s' \<le> claim_budget s
     \<and> (sr_state s = StSucceeded \<longrightarrow> sr_state s' = StSucceeded)"

definition journal_moves :: "db \<Rightarrow> db \<Rightarrow> bool" where
  "journal_moves db db' \<longleftrightarrow>
     (\<forall>sid s. t_get (execution_steps db) sid = Some s \<longrightarrow>
        (\<exists>s'. t_get (execution_steps db') sid = Some s' \<and> step_moves s s'))"

text \<open>
  The well-formedness of the journal: rows are stored under their identifier, a task has one step
  per idempotency key, and a succeeded step carries a digestible receipt with its digest.
\<close>

definition keys_unique :: "db \<Rightarrow> bool" where
  "keys_unique db \<longleftrightarrow>
     (\<forall>i j s s'. t_get (execution_steps db) i = Some s \<longrightarrow> t_get (execution_steps db) j = Some s' \<longrightarrow>
        sr_task_id s = sr_task_id s' \<longrightarrow> idempotency_key s = idempotency_key s' \<longrightarrow> i = j)"

definition receipted :: "pylib \<Rightarrow> step_record \<Rightarrow> bool" where
  "receipted L s \<longleftrightarrow> (sr_state s = StSucceeded \<longrightarrow>
     (\<exists>r h. sr_result s = Some (PDict r) \<and> (r = bare_receipt \<or> (\<exists>p c. r = file_receipt p c))
        \<and> digest L (PDict r) = Inr h \<and> result_digest s = Some h))"

definition journal_ok :: "pylib \<Rightarrow> db \<Rightarrow> bool" where
  "journal_ok L db \<longleftrightarrow> t_wf (execution_steps db) \<and> keys_unique db \<and>
     (\<forall>sid s. t_get (execution_steps db) sid = Some s \<longrightarrow> step_id s = sid \<and> receipted L s)"

lemma step_moves_refl [simp]: "step_moves s s"
  by (simp add: step_moves_def same_step_def)

lemma step_moves_trans: "step_moves a b \<Longrightarrow> step_moves b c \<Longrightarrow> step_moves a c"
  by (auto simp: step_moves_def same_step_def)

lemma journal_moves_refl [simp]: "journal_moves db db"
  by (auto simp: journal_moves_def)

lemma journal_moves_trans: "journal_moves a b \<Longrightarrow> journal_moves b c \<Longrightarrow> journal_moves a c"
  by (fastforce simp: journal_moves_def intro: step_moves_trans)

lemma journal_moves_same: "execution_steps db' = execution_steps db \<Longrightarrow> journal_moves db db'"
  by (auto simp: journal_moves_def)

lemma journal_ok_same: "execution_steps db' = execution_steps db \<Longrightarrow> journal_ok L db' = journal_ok L db"
  by (simp add: journal_ok_def keys_unique_def)

lemma journal_moves_upd:
  assumes "execution_steps db' = t_upd sid f (execution_steps db)"
    and "\<And>s. t_get (execution_steps db) sid = Some s \<Longrightarrow> step_moves s (f s)"
  shows "journal_moves db db'"
  using assms by (auto simp: journal_moves_def t_get_upd)

lemma journal_moves_insert:
  assumes "execution_steps db' = execution_steps db @ [(sid, s)]" "t_get (execution_steps db) sid = None"
  shows "journal_moves db db'"
  using assms by (auto simp: journal_moves_def t_get_snoc_new)

lemma journal_ok_upd:
  assumes "journal_ok L db" "execution_steps db' = t_upd sid f (execution_steps db)"
    and "\<And>s. t_get (execution_steps db) sid = Some s \<Longrightarrow> same_step s (f s) \<and> receipted L (f s)"
  shows "journal_ok L db'"
proof -
  have get: "t_get (execution_steps db') = (t_get (execution_steps db))(sid := map_option f (t_get (execution_steps db) sid))"
    using assms(2) by (simp add: t_get_upd)
  have "keys_unique db'"
    using assms(1,3) unfolding keys_unique_def journal_ok_def get
    by (auto simp: same_step_def split: if_splits)
  moreover have "t_wf (execution_steps db')"
    using assms(1,2) by (simp add: journal_ok_def)
  moreover have "step_id s' = i \<and> receipted L s'" if "t_get (execution_steps db') i = Some s'" for i s'
    using that assms(1,3) unfolding get journal_ok_def by (auto simp: same_step_def split: if_splits)
  ultimately show ?thesis by (simp add: journal_ok_def)
qed

lemma find_step_None:
  assumes "journal_ok L db" "find_step db tid k = None" "t_get (execution_steps db) i = Some s"
    and "sr_task_id s = tid" "idempotency_key s = k"
  shows False
proof -
  have "s \<in> set (t_rows (execution_steps db))"
    using t_get_in_set [OF assms(3)] by (force simp: t_rows_def)
  with assms(2,4,5) show False by (auto simp: find_step_def find_None_iff)
qed

lemma find_step_Some:
  assumes "journal_ok L db" "find_step db tid k = Some s"
  shows "t_get (execution_steps db) (step_id s) = Some s \<and> sr_task_id s = tid \<and> idempotency_key s = k"
proof -
  from assms(2) have s: "s \<in> set (t_rows (execution_steps db))" "sr_task_id s = tid" "idempotency_key s = k"
    by (auto simp: find_step_def find_Some_iff)
  then obtain i where i: "(i, s) \<in> set (execution_steps db)" by (auto simp: t_rows_def)
  with assms(1) have "t_get (execution_steps db) i = Some s"
    by (intro t_wf_get) (auto simp: journal_ok_def)
  with assms(1) s show ?thesis by (auto simp: journal_ok_def)
qed

lemma journal_ok_insert:
  assumes ok: "journal_ok L db" and ins: "execution_steps db' = execution_steps db @ [(sid, s)]"
    and new: "t_get (execution_steps db) sid = None" and s: "step_id s = sid" "receipted L s"
    and fresh: "find_step db (sr_task_id s) (idempotency_key s) = None"
  shows "journal_ok L db'"
proof -
  have get: "t_get (execution_steps db') = (t_get (execution_steps db))(sid \<mapsto> s)"
    using ins new by (simp add: t_get_snoc_new)
  have none: "t_get (execution_steps db) i = Some s' \<Longrightarrow>
      \<not> (sr_task_id s' = sr_task_id s \<and> idempotency_key s' = idempotency_key s)" for i s'
    using find_step_None [OF ok fresh] by blast
  have "keys_unique db'"
    using ok none unfolding keys_unique_def journal_ok_def get
    by (auto split: if_splits) metis+
  moreover have "t_wf (execution_steps db')"
    using ok new ins by (simp add: journal_ok_def t_wf_snoc)
  ultimately show ?thesis
    using ok s unfolding journal_ok_def by (auto simp: get split: if_splits)
qed

section \<open>The journal operations\<close>

lemma step_in_state_Some:
  "step_in_state db tid sid st = Some s \<longleftrightarrow>
     t_get (execution_steps db) sid = Some s \<and> sr_task_id s = tid \<and> sr_state s = st"
  by (auto simp: step_in_state_def split: option.splits if_splits)

lemma get_step_Inr: "get_step db tid sid = Inr s \<longleftrightarrow> t_get (execution_steps db) sid = Some s \<and> sr_task_id s = tid"
  by (auto simp: get_step_def split: option.splits if_splits)

lemma upd_step_frame [simp]:
  "execution_steps (upd_step sid f db) = t_upd sid f (execution_steps db)"
  "tasks (upd_step sid f db) = tasks db" "task_queue (upd_step sid f db) = task_queue db"
  "artifacts (upd_step sid f db) = artifacts db" "approvals (upd_step sid f db) = approvals db"
  "task_acceptance (upd_step sid f db) = task_acceptance db"
  by (simp_all add: upd_step_def)

definition started :: "tx \<Rightarrow> step_record \<Rightarrow> step_record" where
  "started x s = s\<lparr>sr_state := StStarted, attempt := Suc (attempt s), started_at := Some (tx_stamp x), sr_error := None\<rparr>"

lemma claim_step_shape:
  assumes "claim_step L F x tid sid db = Inr db'"
  obtains s tk where "t_get (execution_steps db) sid = Some s" "sr_task_id s = tid" "sr_state s = StIntent"
    "task_of db tid = Some tk" "\<not> terminal (status tk)"
    "execution_steps db' = t_upd sid (started x) (execution_steps db)" "tasks db' = tasks db"
    "task_queue db' = task_queue db" "\<exists>r. assert_lease x db tid True None = Inr r"
proof -
  from assms obtain s tk r where
    "step_in_state db tid sid StIntent = Some s" "active_task db tid = Inr tk"
    "assert_lease x db tid True None = Inr r"
    "\<exists>m. add_event x tk ''step.started'' (Some (status tk)) m (upd_step sid (started x) db) = Inr db'"
    unfolding claim_step_def started_def by (auto simp: rbind_eq_Inr)
  then show thesis
    by (intro that [of s tk]) (auto simp: step_in_state_Some active_task_Inr add_event_Inr)
qed

lemma claim_step_moves: "claim_step L F x tid sid db = Inr db' \<Longrightarrow> journal_moves db db'"
  by (erule claim_step_shape, erule journal_moves_upd)
     (auto simp: step_moves_def same_step_def claim_budget_def started_def)

lemma claim_step_ok: "claim_step L F x tid sid db = Inr db' \<Longrightarrow> journal_ok L db \<Longrightarrow> journal_ok L db'"
  by (erule claim_step_shape, erule journal_ok_upd) (auto simp: same_step_def started_def receipted_def)

definition succeeded :: "tx \<Rightarrow> pydict \<Rightarrow> string \<Rightarrow> step_record \<Rightarrow> step_record" where
  "succeeded x safe h s = s\<lparr>sr_state := StSucceeded, completed_at := Some (tx_stamp x),
     sr_result := Some (PDict safe), result_digest := Some h, sr_error := None\<rparr>"

lemma finish_step_shape:
  assumes "finish_step L F x tid sid res db = Inr (s', db')"
  obtains s tk safe h where "t_get (execution_steps db) sid = Some s" "sr_task_id s = tid" "sr_state s = StStarted"
    "task_of db tid = Some tk" "\<not> terminal (status tk)"
    "receipt L F res (workspace tk) = Inr safe" "digest L (PDict safe) = Inr h" "s' = succeeded x safe h s"
    "execution_steps db' = t_upd sid (succeeded x safe h) (execution_steps db)" "tasks db' = tasks db"
    "task_queue db' = task_queue db" "\<exists>r. assert_lease x db tid False None = Inr r"
proof -
  from assms obtain tk0 tk safe h s r m where
    1: "task_of db tid = Some tk0" "receipt L F res (workspace tk0) = Inr safe" "assert_lease x db tid False None = Inr r"
    "active_task db tid = Inr tk" "digest L (PDict safe) = Inr h"
    "step_in_state db tid sid StStarted = Some s"
    "add_event x tk ''step.succeeded'' (Some (status tk)) m (upd_step sid (succeeded x safe h) db) = Inr db'"
    "get_step db' tid sid = Inr s'"
    unfolding finish_step_def succeeded_def [abs_def]
    by (elim rbindE) (auto simp: get_task_Inr elim!: rbindE)
  then have "execution_steps db' = t_upd sid (succeeded x safe h) (execution_steps db)"
    by (auto simp: add_event_Inr)
  with 1 show thesis
    by (intro that [of s tk safe h]) (auto simp: step_in_state_Some active_task_Inr add_event_Inr get_step_Inr)
qed

lemma receipt_receipted:
  "receipt L F res ws = Inr safe \<Longrightarrow> digest L (PDict safe) = Inr h \<Longrightarrow>
   sr_result s = Some (PDict safe) \<Longrightarrow> result_digest s = Some h \<Longrightarrow> receipted L s"
  by (auto simp: receipted_def dest!: receipt_shape)

lemma finish_step_moves: "finish_step L F x tid sid res db = Inr (s', db') \<Longrightarrow> journal_moves db db'"
  by (erule finish_step_shape, erule journal_moves_upd)
     (auto simp: step_moves_def same_step_def claim_budget_def succeeded_def)

lemma finish_step_ok:
  assumes "finish_step L F x tid sid res db = Inr (s', db')" "journal_ok L db"
  shows "journal_ok L db'"
  using assms(1)
proof (rule finish_step_shape)
  fix s tk safe h
  assume a: "receipt L F res (workspace tk) = Inr safe" "digest L (PDict safe) = Inr h"
    "execution_steps db' = t_upd sid (succeeded x safe h) (execution_steps db)"
  show ?thesis
    using assms(2) a(3)
    by (rule journal_ok_upd) (auto simp: same_step_def succeeded_def intro: receipt_receipted [OF a(1,2)])
qed

definition uncertain :: "string \<Rightarrow> step_record \<Rightarrow> step_record" where
  "uncertain err s = s\<lparr>sr_state := StUncertain, sr_error := Some err\<rparr>"

lemma mark_uncertain_shape:
  assumes "mark_uncertain x tid sid err db = Inr db'"
  shows "tasks db' = tasks db" "task_queue db' = task_queue db"
    "execution_steps db' = execution_steps db
     \<or> (\<exists>s. t_get (execution_steps db) sid = Some s \<and> sr_state s = StStarted \<and> sr_task_id s = tid
          \<and> execution_steps db' = t_upd sid (uncertain err) (execution_steps db))"
  using assms
  by (auto simp: mark_uncertain_def rbind_eq_Inr add_event_Inr step_in_state_Some uncertain_def [abs_def]
      split: if_splits)

lemma mark_uncertain_cases:
  assumes "mark_uncertain x tid sid err db = Inr db'"
  shows "journal_moves db db' \<and> (journal_ok L db \<longrightarrow> journal_ok L db')"
  using mark_uncertain_shape(3) [OF assms]
proof
  assume same: "execution_steps db' = execution_steps db"
  show ?thesis using journal_moves_same [OF same] journal_ok_same [OF same] by blast
next
  assume "\<exists>s. t_get (execution_steps db) sid = Some s \<and> sr_state s = StStarted \<and> sr_task_id s = tid
    \<and> execution_steps db' = t_upd sid (uncertain err) (execution_steps db)"
  then have u: "execution_steps db' = t_upd sid (uncertain err) (execution_steps db)" 
    and st: "\<And>s. t_get (execution_steps db) sid = Some s \<Longrightarrow> sr_state s = StStarted" by auto
  have "journal_moves db db'"
    by (rule journal_moves_upd [OF u]) (auto dest: st simp: step_moves_def same_step_def claim_budget_def uncertain_def)
  moreover have "journal_ok L db \<Longrightarrow> journal_ok L db'"
    by (erule journal_ok_upd [OF _ u]) (auto simp: same_step_def receipted_def uncertain_def)
  ultimately show ?thesis by blast
qed

lemma new_step_sel [simp]:
  "step_id (new_step x sid tid tool ver d k) = sid" "sr_task_id (new_step x sid tid tool ver d k) = tid"
  "sr_tool_id (new_step x sid tid tool ver d k) = tool" "sr_tool_version (new_step x sid tid tool ver d k) = ver"
  "arguments_digest (new_step x sid tid tool ver d k) = d" "idempotency_key (new_step x sid tid tool ver d k) = k"
  "sr_state (new_step x sid tid tool ver d k) = StIntent" "attempt (new_step x sid tid tool ver d k) = 0"
  by (simp_all add: new_step_def)

lemma prepare_step_shape:
  assumes "prepare_step L x sid tid tool ver args key db = Inr (s, db')"
  obtains d k tk where "digest L (PDict args) = Inr d" "step_key L tool ver d key = Inr k"
    "task_of db tid = Some tk" "\<not> terminal (status tk)" "same_operation s tool ver d"
    "find_step db tid k = Some s \<and> db' = db \<or>
     find_step db tid k = None \<and> s = new_step x sid tid tool ver d k
       \<and> t_get (execution_steps db) sid = None
       \<and> execution_steps db' = execution_steps db @ [(sid, s)] \<and> tasks db' = tasks db
       \<and> task_queue db' = task_queue db \<and> artifacts db' = artifacts db"
proof -
  from assms obtain d k r tk where
    1: "digest L (PDict args) = Inr d" "step_key L tool ver d key = Inr k"
    "assert_lease x db tid True None = Inr r" "active_task db tid = Inr tk"
    and 2: "(case find_step db tid k of
         Some s \<Rightarrow> if same_operation s tool ver d then Inr (s, db) else Inl ValueError
       | None \<Rightarrow>
           rbind (of_opt RuntimeError (t_get (task_acceptance db) tid)) (\<lambda>row.
           let contract = (if aw_locked row then aw_contract row
                           else (aw_contract row)\<lparr>required_tools := finsert tool (required_tools (aw_contract row))\<rparr>);
               db1 = db\<lparr>task_acceptance :=
                       t_upd tid (\<lambda>r. r\<lparr>aw_strict := True, aw_contract := contract, aw_attestations := nothing_observed\<rparr>)
                         (task_acceptance db)\<rparr>
           in rbind (t_ins sid (new_step x sid tid tool ver d k) (execution_steps db1)) (\<lambda>ss.
              rbind (add_event x tk ''step.intent'' (Some (status tk))
                       [(''step_id'', PStr sid), (''arguments_digest'', PStr d)]
                       (db1\<lparr>execution_steps := ss\<rparr>)) (\<lambda>db2.
              rbind (get_step db2 tid sid) (\<lambda>s. Inr (s, db2)))))) = Inr (s, db')"
    unfolding prepare_step_def by (elim rbindE) 
  show thesis
  proof (cases "find_step db tid k")
    case None
    with 1 2 have n: "s = new_step x sid tid tool ver d k" "t_get (execution_steps db) sid = None"
        "execution_steps db' = execution_steps db @ [(sid, new_step x sid tid tool ver d k)]" "tasks db' = tasks db"
        "task_queue db' = task_queue db" "artifacts db' = artifacts db"
      by (auto simp: rbind_eq_Inr Let_def t_ins_Inr add_event_Inr get_step_Inr t_get_snoc_new)
    have "same_operation s tool ver d" by (simp add: n(1) same_operation_def)
    with 1 None n show ?thesis
      by (intro that [of d k tk]) (simp_all add: active_task_Inr)
  next
    case (Some s0)
    with 1 2 show ?thesis
      by (intro that [of d k tk]) (auto simp: active_task_Inr split: if_splits)
  qed
qed

lemma prepare_step_moves: "prepare_step L x sid tid tool ver args key db = Inr (s, db') \<Longrightarrow> journal_moves db db'"
  by (erule prepare_step_shape) (auto intro: journal_moves_insert)

lemma prepare_step_ok:
  assumes "prepare_step L x sid tid tool ver args key db = Inr (s, db')" "journal_ok L db"
  shows "journal_ok L db'"
  using assms(1)
proof (rule prepare_step_shape)
  fix d k
  assume "find_step db tid k = Some s \<and> db' = db \<or>
     find_step db tid k = None \<and> s = new_step x sid tid tool ver d k
       \<and> t_get (execution_steps db) sid = None
       \<and> execution_steps db' = execution_steps db @ [(sid, s)] \<and> tasks db' = tasks db
       \<and> task_queue db' = task_queue db \<and> artifacts db' = artifacts db"
  then show ?thesis
  proof (elim disjE conjE)
    assume n: "find_step db tid k = None" "s = new_step x sid tid tool ver d k"
      "t_get (execution_steps db) sid = None" "execution_steps db' = execution_steps db @ [(sid, s)]"
    show ?thesis
      by (rule journal_ok_insert [OF assms(2) n(4,3)]) (use n(1,2) in \<open>auto simp: receipted_def\<close>)
  qed (use assms(2) in simp)
qed

definition applied :: "tx \<Rightarrow> string \<Rightarrow> pydict \<Rightarrow> string \<Rightarrow> step_record \<Rightarrow> step_record" where
  "applied x aid safe h s = s\<lparr>sr_state := StSucceeded, completed_at := Some (tx_stamp x),
     sr_result := Some (PDict safe), result_digest := Some h, evidence_ref := Some aid, sr_error := None\<rparr>"

definition not_applied :: "string \<Rightarrow> step_record \<Rightarrow> step_record" where
  "not_applied aid s = s\<lparr>sr_state := StIntent, evidence_ref := Some aid, sr_error := None\<rparr>"

text \<open>
  A reconciliation needs a stopped executor, a named actor, a checked artifact whose JSON names
  the step and the digest of its arguments, and either the result or the statement that the
  action was not applied.
\<close>

lemma reconcile_step_shape:
  assumes "reconcile_step L F x tid sid aid actor stopped db = Inr (s', db')"
  obtains tk s a evidence where "stopped" "strip actor \<noteq> []" "task_of db tid = Some tk" "\<not> terminal (status tk)"
    "awaiting_reconciliation L F db tid sid = Inr s"
    "checked_artifact L F db tid aid = Inr a" "load_json_file L F (path a) = Inr (PDict evidence)"
    "field_is evidence ''step_id'' sid" "field_is evidence ''arguments_digest'' (arguments_digest s)"
    "(\<exists>res safe h. field_is evidence ''outcome'' ''applied'' \<and> dget evidence ''result'' = Some (PDict res)
        \<and> receipt L F res (workspace tk) = Inr safe \<and> digest L (PDict safe) = Inr h
        \<and> execution_steps db' = t_upd sid (applied x aid safe h) (execution_steps db))
     \<or> field_is evidence ''outcome'' ''not_applied''
        \<and> execution_steps db' = t_upd sid (not_applied aid) (execution_steps db)"
    "tasks db' = tasks db" "task_queue db' = task_queue db" "approvals db' = approvals db"
proof -
  from assms have g: "stopped" "strip actor \<noteq> []" by (auto simp: reconcile_step_def split: if_splits)
  from assms g obtain tk s a doc evidence u outcome db1 db2 where
    1: "active_task db tid = Inr tk" "awaiting_reconciliation L F db tid sid = Inr s"
    "checked_artifact L F db tid aid = Inr a" "load_json_file L F (path a) = Inr doc"
    "(case doc of PDict d \<Rightarrow> Inr d | _ \<Rightarrow> Inl AttributeError) = Inr evidence"
    "guard (field_is evidence ''step_id'' sid
                      \<and> field_is evidence ''arguments_digest'' (arguments_digest s)) ValueError = Inr u"
    and 2: "(if field_is evidence ''outcome'' ''applied'' then
                 rbind (of_opt KeyError (dget evidence ''result'')) (\<lambda>v.
                 rbind (case v of PDict d \<Rightarrow> Inr d | _ \<Rightarrow> Inl AttributeError) (\<lambda>res.
                 rbind (receipt L F res (workspace tk)) (\<lambda>safe.
                 rbind (digest L (PDict safe)) (\<lambda>h.
                   Inr (''applied'', upd_step sid (applied x aid safe h) db)))))
               else if field_is evidence ''outcome'' ''not_applied'' then
                 Inr (''not_applied'', upd_step sid (not_applied aid) db)
               else Inl ReconciliationRequired) = Inr (outcome, db1)"
    and 3: "add_event x tk ''step.reconciled'' (Some (status tk))
                 [(''step_id'', PStr sid), (''artifact_id'', PStr aid), (''actor'', PStr actor),
                  (''outcome'', PStr outcome)] db1 = Inr db2"
      "rbind (get_step db2 tid sid) (\<lambda>s'. Inr (s', db2)) = Inr (s', db')"
    unfolding reconcile_step_def applied_def [abs_def] not_applied_def [abs_def]
    by (auto elim!: rbindE split: prod.splits)
  from 3 have f: "db2 = db'" "execution_steps db' = execution_steps db1" "tasks db' = tasks db1" 
    "task_queue db' = task_queue db1" "approvals db' = approvals db1"
    by (auto simp: rbind_eq_Inr add_event_Inr)
  from 1(5) have doc: "doc = PDict evidence" by (auto split: pyval.splits)
  from 2 have "(\<exists>res safe h. field_is evidence ''outcome'' ''applied'' \<and> dget evidence ''result'' = Some (PDict res)
        \<and> receipt L F res (workspace tk) = Inr safe \<and> digest L (PDict safe) = Inr h
        \<and> db1 = upd_step sid (applied x aid safe h) db)
     \<or> field_is evidence ''outcome'' ''not_applied'' \<and> db1 = upd_step sid (not_applied aid) db"
    by (auto elim!: rbindE simp: of_opt_eq_Inr split: if_splits pyval.splits)
  with 1 f g doc show thesis
    by (intro that [of tk s a evidence]) (auto simp: active_task_Inr guard_def split: if_splits)
qed

lemma reconcile_step_ok:
  assumes "reconcile_step L F x tid sid aid actor stopped db = Inr (s', db')" "journal_ok L db"
  shows "journal_ok L db'"
  using assms(1)
proof (rule reconcile_step_shape)
  fix tk evidence
  assume "(\<exists>res safe h. field_is evidence ''outcome'' ''applied'' \<and> dget evidence ''result'' = Some (PDict res)
        \<and> receipt L F res (workspace tk) = Inr safe \<and> digest L (PDict safe) = Inr h
        \<and> execution_steps db' = t_upd sid (applied x aid safe h) (execution_steps db))
     \<or> field_is evidence ''outcome'' ''not_applied''
        \<and> execution_steps db' = t_upd sid (not_applied aid) (execution_steps db)"
  then show ?thesis
  proof (elim disjE exE conjE)
    fix res safe h
    assume a: "receipt L F res (workspace tk) = Inr safe" "digest L (PDict safe) = Inr h"
      "execution_steps db' = t_upd sid (applied x aid safe h) (execution_steps db)"
    show ?thesis
      using assms(2) a(3)
      by (rule journal_ok_upd) (auto simp: same_step_def applied_def intro: receipt_receipted [OF a(1,2)])
  next
    assume a: "execution_steps db' = t_upd sid (not_applied aid) (execution_steps db)"
    show ?thesis
      using assms(2) a by (rule journal_ok_upd) (auto simp: same_step_def not_applied_def receipted_def)
  qed
qed

end
