(* ===== verification/Task_Queue.thy ===== *)
theory Task_Queue imports Ledger_Steps begin

text \<open>
  dante/task_queue.py: the persistent queue. A task is submitted with a plan, claimed by a worker
  under a dated lease with a new generation, kept alive by heartbeats, advanced action by action,
  released, retried, cancelled, and recovered once its lease has expired.
\<close>

section \<open>Submission\<close>

definition SENSITIVE_KEYS :: "string list" where
  "SENSITIVE_KEYS = [''password'', ''secret'', ''api_key'', ''token'', ''access_token'']"

fun sensitive :: "pyval \<Rightarrow> bool"
  and sensitive_list :: "pyval list \<Rightarrow> bool"
  and sensitive_items :: "pydict \<Rightarrow> bool" where
  "sensitive (PDict d) = sensitive_items d"
| "sensitive (PList xs) = sensitive_list xs"
| "sensitive _ = False"
| "sensitive_list [] = False"
| "sensitive_list (x # xs) = (sensitive x \<or> sensitive_list xs)"
| "sensitive_items [] = False"
| "sensitive_items ((k, v) # d) =
     (lower (key_text k) \<in> set SENSITIVE_KEYS \<or> sensitive v \<or> sensitive_items d)"

definition dump_strings :: "string fset \<Rightarrow> pyval" where
  "dump_strings A = PList (map PStr (sorted_list_of_fset A))"

definition dump_opt :: "string option \<Rightarrow> pyval" where
  "dump_opt s = (case s of None \<Rightarrow> PNone | Some t \<Rightarrow> PStr t)"

definition dump_contract :: "acceptance_contract \<Rightarrow> pyval" where
  "dump_contract c = PDict
     [(KStr ''required_tools'', dump_strings (required_tools c)),
      (KStr ''required_artifacts'', dump_strings (required_artifacts c)),
      (KStr ''required_final_fields'', dump_strings (required_final_fields c)),
      (KStr ''instructions'', PDict (map (\<lambda>kv. (KStr (fst kv), PStr (snd kv))) (instructions c)))]"

definition dump_action :: "plan_action \<Rightarrow> pyval" where
  "dump_action a = PDict
     [(KStr ''tool_id'', PStr (act_tool_id a)), (KStr ''version'', PStr (act_version a)),
      (KStr ''arguments'', PDict (act_arguments a)), (KStr ''approval_id'', dump_opt (act_approval_id a)),
      (KStr ''plan_hash'', PStr (act_plan_hash a))]"

definition dump_plan :: "execution_plan \<Rightarrow> pyval" where
  "dump_plan p = PDict
     [(KStr ''actions'', PList (map dump_action (plan_actions p))),
      (KStr ''acceptance'', dump_contract (plan_acceptance p))]"

definition valid_plan :: "execution_plan \<Rightarrow> bool" where
  "valid_plan p =
     (1 \<le> length (plan_actions p) \<and> length (plan_actions p) \<le> 1000
      \<and> list_all (\<lambda>a. act_tool_id a \<noteq> []) (plan_actions p))"

definition new_queue_row :: "execution_plan \<Rightarrow> queue_row" where
  "new_queue_row p =
     \<lparr>q_plan = p, q_state = QReady, q_next_action = 0, q_worker_id = None, q_generation = 0,
      q_claimed_at = None, q_lease_expires_at = None, q_heartbeat_at = None, q_attempt = 0,
      q_retry_count = 0, q_next_attempt_at = 0, q_last_failure = None, q_cancel_requested = False\<rparr>"

text \<open>\<open>plan_json\<close> is pydantic's \<open>model_dump_json\<close> of the plan.\<close>

definition submit ::
  "pylib \<Rightarrow> (execution_plan \<Rightarrow> string) \<Rightarrow> tx \<Rightarrow> task \<Rightarrow> execution_plan \<Rightarrow> db \<Rightarrow> (task \<times> db) result" where
  "submit L plan_json x tk plan db =
     rbind (guard (valid_plan plan) ValueError) (\<lambda>_.
     rbind (digest L (dump_plan plan)) (\<lambda>_.
       if status tk \<noteq> CREATED \<or> sensitive (dump_plan plan)
          \<or> classification (classify True (goal tk @ plan_json plan) (privacy_class tk)) = SECRET
       then Inl ValueError
       else
         let acc = (plan_acceptance plan)\<lparr>required_tools :=
                      required_tools (plan_acceptance plan) |\<union>| fset_of_list (map act_tool_id (plan_actions plan))\<rparr>
         in rbind (t_ins (task_id tk) \<lparr>tr_task = tk, tr_revision = 0\<rparr> (tasks db)) (\<lambda>ts.
            rbind (t_ins (task_id tk) (acceptance_row_for (Some acc)) (task_acceptance db)) (\<lambda>as.
            rbind (t_ins (task_id tk) (new_queue_row plan) (task_queue db)) (\<lambda>qs.
            rbind (add_event x tk ''task.created'' None []
                    (db\<lparr>tasks := ts, task_acceptance := as, task_queue := qs\<rparr>)) (\<lambda>db1.
            rbind (add_event x tk ''worker.submitted'' None
                    [(''action_count'', PInt (int (length (plan_actions plan))))] db1) (\<lambda>db2.
            Inr (tk, db2))))))))"

section \<open>Reading the queue\<close>

definition queue_status :: "db \<Rightarrow> string \<Rightarrow> (queue_row \<times> task_status) result" where
  "queue_status db tid =
     rbind (of_opt KeyError (t_get (task_queue db) tid)) (\<lambda>row.
     rbind (get_task db tid) (\<lambda>tk. Inr (row, status tk)))"

definition row_runnable :: "rat \<Rightarrow> queue_row \<Rightarrow> bool result" where
  "row_runnable now row =
     (if q_cancel_requested row then Inr False
      else if q_state row = QReady \<and> q_next_attempt_at row \<le> now then Inr True
      else if q_state row = QLeased
      then (case q_lease_expires_at row of None \<Rightarrow> Inl TypeError | Some e \<Rightarrow> Inr (e \<le> now))
      else Inr False)"

fun queue_list_from ::
  "rat \<Rightarrow> bool \<Rightarrow> db \<Rightarrow> string list \<Rightarrow> (string \<times> queue_row \<times> task_status) list result" where
  "queue_list_from now runnable db [] = Inr []"
| "queue_list_from now runnable db (tid # tids) =
     rbind (queue_status db tid) (\<lambda>r.
     rbind (if runnable then row_runnable now (fst r) else Inr True) (\<lambda>keep.
     rbind (queue_list_from now runnable db tids) (\<lambda>rest.
       Inr (if keep then (tid, r) # rest else rest))))"

definition queue_list :: "rat \<Rightarrow> bool \<Rightarrow> db \<Rightarrow> (string \<times> queue_row \<times> task_status) list result" where
  "queue_list now runnable db = queue_list_from now runnable db (map fst (task_queue db))"

definition queue_plan :: "db \<Rightarrow> string \<Rightarrow> execution_plan result" where
  "queue_plan db tid = rbind (of_opt KeyError (t_get (task_queue db) tid)) (\<lambda>r. Inr (q_plan r))"

section \<open>Shared steps\<close>

definition queue_event :: "tx \<Rightarrow> string \<Rightarrow> string \<Rightarrow> (string \<times> pyval) list \<Rightarrow> db \<Rightarrow> db result" where
  "queue_event x tid event metadata db =
     rbind (of_opt TypeError (task_of db tid)) (\<lambda>tk. add_event x tk event (Some (status tk)) metadata db)"

definition upd_queue :: "string \<Rightarrow> (queue_row \<Rightarrow> queue_row) \<Rightarrow> db \<Rightarrow> db" where
  "upd_queue tid f db = db\<lparr>task_queue := t_upd tid f (task_queue db)\<rparr>"

definition cancel_task :: "tx \<Rightarrow> task \<Rightarrow> db \<Rightarrow> (task \<times> db) result" where
  "cancel_task x tk db =
     rbind (guard (CANCELLED \<in> set (TRANSITIONS (status tk))) ValueError) (\<lambda>_.
     let tk' = tk\<lparr>status := CANCELLED, updated_at := tx_stamp x\<rparr>
     in rbind (add_event x tk' ''task.transition'' (Some (status tk)) [(''reason'', PStr ''cancel_requested'')]
                (put_task (task_id tk) tk' db)) (\<lambda>db'.
        Inr (tk', db')))"

definition continuity_next :: "db \<Rightarrow> string \<Rightarrow> rat" where
  "continuity_next db tid =
     (case t_get (task_continuity db) tid of
        None \<Rightarrow> 0
      | Some r \<Rightarrow> (case c_next_attempt_at r of None \<Rightarrow> 0 | Some t \<Rightarrow> t))"

definition lease_meta :: "string option \<Rightarrow> nat \<Rightarrow> (string \<times> pyval) list" where
  "lease_meta w g = [(''worker_id'', dump_opt w), (''generation'', PInt (int g))]"

section \<open>Recovery of expired leases\<close>

definition expired_rows :: "rat \<Rightarrow> db \<Rightarrow> (string \<times> queue_row) list" where
  "expired_rows now db =
     filter (\<lambda>kr. q_state (snd kr) = QLeased
        \<and> (case q_lease_expires_at (snd kr) of None \<Rightarrow> False | Some e \<Rightarrow> e \<le> now)) (task_queue db)"

definition mark_started_uncertain :: "string \<Rightarrow> db \<Rightarrow> db" where
  "mark_started_uncertain tid db =
     db\<lparr>execution_steps :=
        t_upd_where (\<lambda>s. sr_task_id s = tid \<and> sr_state s = StStarted)
          (\<lambda>s. s\<lparr>sr_state := StUncertain, sr_error := Some ''lease_expired''\<rparr>) (execution_steps db)\<rparr>"

definition recover_row :: "tx \<Rightarrow> string \<times> queue_row \<Rightarrow> db \<Rightarrow> db result" where
  "recover_row x kr db =
     (let tid = fst kr; row = snd kr; db1 = mark_started_uncertain tid db in
      rbind (of_opt TypeError (task_of db1 tid)) (\<lambda>tk.
      rbind (if q_cancel_requested row \<and> \<not> terminal (status tk) then cancel_task x tk db1
             else Inr (tk, db1)) (\<lambda>(tk', db2).
      let st = (if terminal (status tk') then QDone else QReady);
          db3 = upd_queue tid (\<lambda>r. r\<lparr>q_state := st, q_lease_expires_at := None\<rparr>) db2;
          db4 = upd_queue tid (\<lambda>r. r\<lparr>q_next_attempt_at := max (q_next_attempt_at r) (continuity_next db3 tid)\<rparr>) db3
      in queue_event x tid ''worker.recovered''
           (lease_meta (q_worker_id row) (q_generation row) @ [(''reason'', PStr ''lease_expired'')]) db4)))"

fun recover_rows :: "tx \<Rightarrow> (string \<times> queue_row) list \<Rightarrow> db \<Rightarrow> db result" where
  "recover_rows x [] db = Inr db"
| "recover_rows x (kr # krs) db = rbind (recover_row x kr db) (\<lambda>db'. recover_rows x krs db')"

definition recover_expired :: "tx \<Rightarrow> db \<Rightarrow> (nat \<times> db) result" where
  "recover_expired x db =
     (let rows = expired_rows (tx_now x) db in
      rbind (recover_rows x rows db) (\<lambda>db'. Inr (length rows, db')))"

section \<open>Claiming\<close>

definition claimable :: "rat \<Rightarrow> db \<Rightarrow> string \<times> queue_row \<Rightarrow> bool" where
  "claimable now db kr =
     (q_state (snd kr) = QReady \<and> \<not> q_cancel_requested (snd kr) \<and> q_next_attempt_at (snd kr) \<le> now
      \<and> continuity_next db (fst kr) \<le> now
      \<and> (case status_of db (fst kr) of None \<Rightarrow> False | Some s \<Rightarrow> \<not> terminal s))"

definition next_claim :: "rat \<Rightarrow> db \<Rightarrow> (string \<times> queue_row) option" where
  "next_claim now db =
     (case sort_key (\<lambda>kr. q_next_attempt_at (snd kr)) (filter (claimable now db) (task_queue db)) of
        [] \<Rightarrow> None | kr # _ \<Rightarrow> Some kr)"

definition claim :: "tx \<Rightarrow> string \<Rightarrow> pyfloat \<Rightarrow> db \<Rightarrow> (lease option \<times> db) result" where
  "claim x worker lease_s db =
     rbind (positive lease_s) (\<lambda>dur.
     rbind (guard (strip worker \<noteq> []) ValueError) (\<lambda>_.
       case next_claim (tx_now x) db of
         None \<Rightarrow> Inr (None, db)
       | Some (tid, row) \<Rightarrow>
           let l = \<lparr>l_task_id = tid, l_worker_id = worker, l_generation = Suc (q_generation row)\<rparr>
           in rbind (queue_event x tid ''worker.claimed'' (lease_meta (Some worker) (l_generation l))
                (upd_queue tid (\<lambda>r. r\<lparr>q_state := QLeased, q_worker_id := Some worker,
                   q_generation := l_generation l, q_claimed_at := Some (tx_now x),
                   q_lease_expires_at := Some (tx_now x + dur), q_heartbeat_at := Some (tx_now x),
                   q_attempt := Suc (q_attempt r)\<rparr>) db)) (\<lambda>db'.
              Inr (Some l, db'))))"

section \<open>Operations of the lease holder\<close>

text \<open>\<open>heartbeat\<close> reads the clock twice: for the check and for the new expiry (\<open>now2\<close>).\<close>

definition heartbeat :: "tx \<Rightarrow> rat \<Rightarrow> lease \<Rightarrow> pyfloat \<Rightarrow> db \<Rightarrow> db result" where
  "heartbeat x now2 l lease_s db =
     rbind (positive lease_s) (\<lambda>dur.
     rbind (assert_lease x db (l_task_id l) False (Some l)) (\<lambda>_.
       queue_event x (l_task_id l) ''worker.heartbeat'' (lease_meta (Some (l_worker_id l)) (l_generation l))
         (upd_queue (l_task_id l) (\<lambda>r. r\<lparr>q_heartbeat_at := Some now2,
            q_lease_expires_at := Some (now2 + dur)\<rparr>) db)))"

definition boundary :: "tx \<Rightarrow> lease \<Rightarrow> db \<Rightarrow> unit result" where
  "boundary x l db = rbind (assert_lease x db (l_task_id l) True (Some l)) (\<lambda>_. Inr ())"

definition advance :: "tx \<Rightarrow> lease \<Rightarrow> nat \<Rightarrow> db \<Rightarrow> db result" where
  "advance x l index db =
     rbind (assert_lease x db (l_task_id l) False (Some l)) (\<lambda>r.
     rbind (of_opt TypeError r) (\<lambda>row.
     rbind (guard (q_next_action row = index) ValueError) (\<lambda>_.
       queue_event x (l_task_id l) ''worker.checkpoint''
         [(''generation'', PInt (int (l_generation l))), (''next_action'', PInt (int (Suc index)))]
         (upd_queue (l_task_id l) (\<lambda>r. r\<lparr>q_next_action := Suc index\<rparr>) db))))"

definition state_name :: "queue_state \<Rightarrow> string" where
  "state_name s = (case s of QReady \<Rightarrow> ''ready'' | QLeased \<Rightarrow> ''leased'' | QBlocked \<Rightarrow> ''blocked'' | QDone \<Rightarrow> ''done'')"

definition truthy :: "string option \<Rightarrow> bool" where
  "truthy s = (case s of None \<Rightarrow> False | Some t \<Rightarrow> t \<noteq> [])"

definition retry_timestamp :: "pyfloat option \<Rightarrow> rat option result" where
  "retry_timestamp r =
     (case r of
        None \<Rightarrow> Inr None
      | Some (Fin q) \<Rightarrow> if q \<le> 0 then Inl ValueError else Inr (Some q)
      | Some _ \<Rightarrow> Inl ValueError)"

definition release :: "tx \<Rightarrow> lease \<Rightarrow> string option \<Rightarrow> pyfloat option \<Rightarrow> db \<Rightarrow> db result" where
  "release x l blocked retry_at db =
     rbind (retry_timestamp retry_at) (\<lambda>ra.
     rbind (assert_lease x db (l_task_id l) False (Some l)) (\<lambda>r.
     rbind (of_opt TypeError (task_of db (l_task_id l))) (\<lambda>tk.
     rbind (of_opt TypeError r) (\<lambda>row.
     rbind (if q_cancel_requested row \<and> \<not> terminal (status tk) then cancel_task x tk db
            else Inr (tk, db)) (\<lambda>(tk', db1).
     let st = (if terminal (status tk') then QDone
               else if truthy blocked \<and> ra = None then QBlocked else QReady);
         db2 = upd_queue (l_task_id l) (\<lambda>r. r\<lparr>q_state := st, q_lease_expires_at := None,
                 q_last_failure := blocked\<rparr>) db1
     in rbind (case ra of
                 None \<Rightarrow> Inr db2
               | Some t \<Rightarrow>
                   if st = QReady
                   then queue_event x (l_task_id l) ''worker.retry_scheduled''
                          [(''next_attempt_at'', PFloat (Fin t)), (''reason'', dump_opt blocked)]
                          (upd_queue (l_task_id l) (\<lambda>r. r\<lparr>q_next_attempt_at := t,
                             q_retry_count := Suc (q_retry_count r)\<rparr>) db2)
                   else Inr db2) (\<lambda>db3.
        queue_event x (l_task_id l) ''worker.released''
          (lease_meta (Some (l_worker_id l)) (l_generation l)
           @ [(''state'', PStr (state_name st)), (''reason'', dump_opt blocked)]) db3))))))"

section \<open>Operations of the user\<close>

definition cancel :: "tx \<Rightarrow> string \<Rightarrow> db \<Rightarrow> db result" where
  "cancel x tid db =
     rbind (of_opt KeyError (t_get (task_queue db) tid)) (\<lambda>row.
     rbind (of_opt TypeError (task_of db tid)) (\<lambda>tk.
       if terminal (status tk) then Inr db
       else
         let db1 = upd_queue tid (\<lambda>r. r\<lparr>q_cancel_requested := True\<rparr>) db
         in rbind (if q_state row \<noteq> QLeased then Inr True
                   else (case q_lease_expires_at row of None \<Rightarrow> Inl TypeError | Some e \<Rightarrow> Inr (e \<le> tx_now x)))
              (\<lambda>idle.
            rbind (if idle
                   then rbind (cancel_task x tk db1) (\<lambda>(tk', db2).
                          Inr (upd_queue tid (\<lambda>r. r\<lparr>q_state := QDone, q_lease_expires_at := None\<rparr>) db2))
                   else Inr db1) (\<lambda>db3.
            queue_event x tid ''worker.cancel_requested'' [] db3))))"

text \<open>\<open>now2\<close> is the clock reading of the new attempt time.\<close>

definition retry :: "tx \<Rightarrow> rat \<Rightarrow> string \<Rightarrow> pyfloat \<Rightarrow> db \<Rightarrow> db result" where
  "retry x now2 tid delay_s db =
     rbind (positive delay_s) (\<lambda>d.
     rbind (of_opt KeyError (t_get (task_queue db) tid)) (\<lambda>row.
     rbind (of_opt TypeError (task_of db tid)) (\<lambda>tk.
       if q_cancel_requested row \<or> terminal (status tk) \<or> q_state row = QLeased then Inl ValueError
       else queue_event x tid ''worker.retry_scheduled''
              [(''delay_s'', PFloat (Fin d)), (''retry_count'', PInt (int (Suc (q_retry_count row))))]
              (upd_queue tid (\<lambda>r. r\<lparr>q_state := QReady, q_retry_count := Suc (q_retry_count r),
                 q_next_attempt_at := now2 + d\<rparr>) db))))"

section \<open>How an operation may change the queue\<close>

text \<open>
  \<open>row_moves\<close> is what every operation keeps of a queue row: its plan, a generation, a position
  and an attempt count that never decrease, a cancellation that is never withdrawn, and the
  fencing rule, that within one generation the worker is fixed and a lease is never taken again.
\<close>

definition row_dated :: "queue_row \<Rightarrow> bool" where
  "row_dated r \<longleftrightarrow> (q_state r = QLeased \<longrightarrow> q_lease_expires_at r \<noteq> None \<and> q_worker_id r \<noteq> None)"

definition row_moves :: "queue_row \<Rightarrow> queue_row \<Rightarrow> bool" where
  "row_moves r r' \<longleftrightarrow>
     q_plan r' = q_plan r \<and> q_generation r \<le> q_generation r' \<and> q_next_action r \<le> q_next_action r'
     \<and> q_attempt r \<le> q_attempt r' \<and> (q_cancel_requested r \<longrightarrow> q_cancel_requested r')
     \<and> (q_generation r' = q_generation r \<longrightarrow>
          q_worker_id r' = q_worker_id r \<and> (q_state r' = QLeased \<longrightarrow> q_state r = QLeased))
     \<and> (row_dated r \<longrightarrow> row_dated r')"

definition queue_moves :: "db \<Rightarrow> db \<Rightarrow> bool" where
  "queue_moves db db' \<longleftrightarrow>
     (\<forall>tid r. t_get (task_queue db) tid = Some r \<longrightarrow>
        (\<exists>r'. t_get (task_queue db') tid = Some r' \<and> row_moves r r'))
     \<and> (\<forall>tid r'. t_get (task_queue db') tid = Some r' \<longrightarrow> t_get (task_queue db) tid = None \<longrightarrow> row_dated r')
     \<and> (t_wf (task_queue db) \<longrightarrow> t_wf (task_queue db'))"

lemma leases_dated_iff: "leases_dated db \<longleftrightarrow> (\<forall>tid r. t_get (task_queue db) tid = Some r \<longrightarrow> row_dated r)"
  by (auto simp: leases_dated_def row_dated_def)

lemma row_moves_refl [simp]: "row_moves r r"
  by (simp add: row_moves_def)

lemma row_moves_trans: "row_moves a b \<Longrightarrow> row_moves b c \<Longrightarrow> row_moves a c"
  unfolding row_moves_def by (metis order_trans antisym)

lemma queue_moves_refl [simp]: "queue_moves db db"
  by (auto simp: queue_moves_def)

lemma queue_moves_trans:
  assumes "queue_moves a b" "queue_moves b c"
  shows "queue_moves a c"
proof -
  have "\<exists>r''. t_get (task_queue c) tid = Some r'' \<and> row_moves r r''" if "t_get (task_queue a) tid = Some r" for tid r
    using that assms unfolding queue_moves_def by (meson row_moves_trans)
  moreover have "row_dated r''" if "t_get (task_queue c) tid = Some r''" "t_get (task_queue a) tid = None" for tid r''
  proof (cases "t_get (task_queue b) tid")
    case None
    with that assms show ?thesis unfolding queue_moves_def by blast
  next
    case (Some r')
    with that assms have "row_dated r'" "\<exists>s. t_get (task_queue c) tid = Some s \<and> row_moves r' s"
      unfolding queue_moves_def by blast+
    with that show ?thesis by (auto simp: row_moves_def)
  qed
  moreover have "t_wf (task_queue a) \<longrightarrow> t_wf (task_queue c)"
    using assms unfolding queue_moves_def by blast
  ultimately show ?thesis by (auto simp: queue_moves_def)
qed

lemma queue_moves_dated: "queue_moves db db' \<Longrightarrow> leases_dated db \<Longrightarrow> leases_dated db'"
  unfolding leases_dated_iff queue_moves_def row_moves_def by (metis not_None_eq option.inject)

lemma queue_moves_same: "task_queue db' = task_queue db \<Longrightarrow> queue_moves db db'"
  by (auto simp: queue_moves_def)

lemma queue_moves_then_same:
  assumes "queue_moves db db1" "task_queue db2 = task_queue db1"
  shows "queue_moves db db2"
  using assms by (simp add: queue_moves_def)

lemma queue_moves_upd:
  assumes "task_queue db' = t_upd tid f (task_queue db)"
    and "\<And>r. t_get (task_queue db) tid = Some r \<Longrightarrow> row_moves r (f r)"
  shows "queue_moves db db'"
  using assms by (auto simp: queue_moves_def t_get_upd split: if_splits)

lemma queue_moves_insert:
  assumes "task_queue db' = task_queue db @ [(tid, r)]" "t_get (task_queue db) tid = None" "row_dated r"
  shows "queue_moves db db'"
  using assms by (auto simp: queue_moves_def t_get_snoc_new t_wf_snoc)

lemma upd_queue_frame [simp]:
  "task_queue (upd_queue tid f db) = t_upd tid f (task_queue db)" "tasks (upd_queue tid f db) = tasks db"
  "execution_steps (upd_queue tid f db) = execution_steps db" "artifacts (upd_queue tid f db) = artifacts db"
  "task_continuity (upd_queue tid f db) = task_continuity db" "approvals (upd_queue tid f db) = approvals db"
  "task_acceptance (upd_queue tid f db) = task_acceptance db"
  by (simp_all add: upd_queue_def)

lemma queue_event_shape:
  assumes "queue_event x tid e m db = Inr db'"
  obtains tk where "task_of db tid = Some tk" "add_event x tk e (Some (status tk)) m db = Inr db'"
  using assms by (auto simp: queue_event_def rbind_eq_Inr of_opt_eq_Inr)

lemma queue_event_frame:
  assumes "queue_event x tid e m db = Inr db'"
  shows "tasks db' = tasks db" "task_queue db' = task_queue db" "execution_steps db' = execution_steps db"
    "artifacts db' = artifacts db" "approvals db' = approvals db" "task_acceptance db' = task_acceptance db"
    "task_continuity db' = task_continuity db"
  using assms by (auto simp: queue_event_def rbind_eq_Inr of_opt_eq_Inr add_event_Inr)

lemma queue_event_Inr:
  "queue_event x tid e m db = Inr db' \<longleftrightarrow>
     (\<exists>tk. task_of db tid = Some tk \<and> t_get (tasks db) (task_id tk) \<noteq> None \<and>
       db' = db\<lparr>task_events := task_events db @
        [\<lparr>ev_task_id = task_id tk, ev_event = e, ev_from = Some (status tk), ev_to = status tk,
          ev_trace_id = trace_id tk, ev_timestamp = tx_stamp x, ev_metadata = m\<rparr>]\<rparr>)"
  by (auto simp: queue_event_def rbind_eq_Inr of_opt_eq_Inr add_event_Inr)

section \<open>The operations\<close>

lemma submit_shape:
  assumes "submit L pj x tk plan db = Inr (tk', db')"
  shows "tk' = tk" "status tk = CREATED" "valid_plan plan" "\<not> sensitive (dump_plan plan)"
    "classification (classify True (goal tk @ pj plan) (privacy_class tk)) \<noteq> SECRET"
    "t_get (tasks db) (task_id tk) = None" "t_get (task_queue db) (task_id tk) = None"
    "tasks db' = tasks db @ [(task_id tk, \<lparr>tr_task = tk, tr_revision = 0\<rparr>)]"
    "task_queue db' = task_queue db @ [(task_id tk, new_queue_row plan)]"
    "execution_steps db' = execution_steps db"
  using assms
  by (auto simp: submit_def rbind_eq_Inr t_ins_Inr add_event_Inr Let_def guard_def split: if_splits)

lemma submit_evolves: "submit L pj x tk plan db = Inr (tk', db') \<Longrightarrow> evolves db db'"
  by (rule evolves_insert [OF submit_shape(6) _ submit_shape(8)]) auto

lemma submit_queue: "submit L pj x tk plan db = Inr (tk', db') \<Longrightarrow> queue_moves db db'"
  by (rule queue_moves_insert [OF submit_shape(9) submit_shape(7)]) (auto simp: row_dated_def new_queue_row_def)

lemma cancel_task_shape:
  assumes "cancel_task x tk db = Inr (tk', db')"
  shows "CANCELLED \<in> set (TRANSITIONS (status tk))" "status tk' = CANCELLED" "task_id tk' = task_id tk"
    "tasks db' = tasks (put_task (task_id tk) tk' db)"
    "task_queue db' = task_queue db" "execution_steps db' = execution_steps db"
    "task_continuity db' = task_continuity db" "approvals db' = approvals db"
  using assms by (auto simp: cancel_task_def rbind_eq_Inr guard_def add_event_Inr Let_def split: if_splits)

lemma cancel_task_evolves:
  assumes "cancel_task x tk db = Inr (tk', db')" "task_of db tid = Some tk"
  shows "evolves db db'"
proof (cases "tasks_keyed db")
  case True
  with assms(2) have "task_id tk = tid" by (auto simp: tasks_keyed_def)
  with assms show ?thesis
    using cancel_task_shape [OF assms(1)]
    by (intro evolves_put [where tid = tid and tk' = tk' and tk = tk]) auto
qed (simp add: evolves_def)

text \<open>The transition \<open>_cancel_task\<close> refuses is never asked for: its callers hold an open task.\<close>

lemma cancel_task_open: "\<not> terminal (status tk) \<Longrightarrow> cancel_task x tk db = Inl e \<Longrightarrow> e = IntegrityError"
  by (auto simp: cancel_task_def rbind_def TRANSITIONS_cancel guard_def Let_def dest: add_event_error split: sum.splits)

lemma claim_shape:
  assumes "claim x w d db = Inr (Some l, db')"
  obtains tid row dur tk m where "next_claim (tx_now x) db = Some (tid, row)" "d = Fin dur" "0 < dur" "strip w \<noteq> []"
    "l = \<lparr>l_task_id = tid, l_worker_id = w, l_generation = Suc (q_generation row)\<rparr>"
    "task_queue db' = t_upd tid (\<lambda>r. r\<lparr>q_state := QLeased, q_worker_id := Some w,
                   q_generation := l_generation l, q_claimed_at := Some (tx_now x),
                   q_lease_expires_at := Some (tx_now x + dur), q_heartbeat_at := Some (tx_now x),
                   q_attempt := Suc (q_attempt r)\<rparr>) (task_queue db)"
    "tasks db' = tasks db" "execution_steps db' = execution_steps db"
  using assms
  by (auto simp: claim_def rbind_eq_Inr positive_Inr guard_def Let_def queue_event_Inr split: option.splits if_splits)

lemma claim_none: "claim x w d db = Inr (None, db') \<Longrightarrow> db' = db \<and> next_claim (tx_now x) db = None"
  by (cases "next_claim (tx_now x) db") (auto simp: claim_def rbind_eq_Inr Let_def)

lemma heartbeat_shape:
  assumes "heartbeat x now2 l d db = Inr db'"
  obtains dur where "d = Fin dur" "0 < dur" "\<exists>r. assert_lease x db (l_task_id l) False (Some l) = Inr r"
    "task_queue db' = t_upd (l_task_id l) (\<lambda>r. r\<lparr>q_heartbeat_at := Some now2,
            q_lease_expires_at := Some (now2 + dur)\<rparr>) (task_queue db)"
    "tasks db' = tasks db" "execution_steps db' = execution_steps db"
  using assms by (auto simp: heartbeat_def rbind_eq_Inr positive_Inr queue_event_Inr)

lemma heartbeat_queue: "heartbeat x now2 l d db = Inr db' \<Longrightarrow> queue_moves db db'"
  by (erule heartbeat_shape, erule queue_moves_upd) (auto simp: row_moves_def row_dated_def)

lemma advance_shape:
  assumes "advance x l i db = Inr db'"
  obtains row where "t_get (task_queue db) (l_task_id l) = Some row" "q_next_action row = i"
    "holds_lease (tx_now x) l (l_task_id l) row"
    "task_queue db' = t_upd (l_task_id l) (\<lambda>r. r\<lparr>q_next_action := Suc i\<rparr>) (task_queue db)"
    "tasks db' = tasks db" "execution_steps db' = execution_steps db"
  using assms
  by (auto simp: advance_def rbind_eq_Inr of_opt_eq_Inr assert_lease_Inr effective_owner_def guard_def
      queue_event_Inr split: if_splits)

lemma advance_queue: "advance x l i db = Inr db' \<Longrightarrow> queue_moves db db'"
  by (erule advance_shape, erule queue_moves_upd) (auto simp: row_moves_def row_dated_def)

lemma retry_shape:
  assumes "retry x now2 tid d db = Inr db'"
  obtains row dl tk where "t_get (task_queue db) tid = Some row" "d = Fin dl" "0 < dl" "task_of db tid = Some tk"
    "\<not> q_cancel_requested row" "\<not> terminal (status tk)" "q_state row \<noteq> QLeased"
    "task_queue db' = t_upd tid (\<lambda>r. r\<lparr>q_state := QReady, q_retry_count := Suc (q_retry_count r),
                 q_next_attempt_at := now2 + dl\<rparr>) (task_queue db)"
    "tasks db' = tasks db" "execution_steps db' = execution_steps db"
  using assms
  by (auto simp: retry_def rbind_eq_Inr of_opt_eq_Inr positive_Inr queue_event_Inr split: if_splits)

lemma retry_queue: "retry x now2 tid d db = Inr db' \<Longrightarrow> queue_moves db db'"
  by (erule retry_shape, erule queue_moves_upd) (auto simp: row_moves_def row_dated_def)

section \<open>Which row is claimed\<close>

lemma next_claim_Some:
  assumes "next_claim now db = Some kr"
  shows "kr \<in> set (task_queue db)" "claimable now db kr"
    "\<And>kr'. kr' \<in> set (task_queue db) \<Longrightarrow> claimable now db kr' \<Longrightarrow>
       q_next_attempt_at (snd kr) \<le> q_next_attempt_at (snd kr')"
proof -
  let ?k = "\<lambda>kr. q_next_attempt_at (snd kr)"
  from assms obtain rest where s: "sort_key ?k (filter (claimable now db) (task_queue db)) = kr # rest"
    by (auto simp: next_claim_def split: list.splits)
  have set: "set (kr # rest) = {kr \<in> set (task_queue db). claimable now db kr}"
    by (metis s set_sort set_filter)
  have sorted: "sorted (map ?k (kr # rest))" by (metis s sorted_sort_key)
  from set show "kr \<in> set (task_queue db)" "claimable now db kr" by auto
  fix kr' assume "kr' \<in> set (task_queue db)" "claimable now db kr'"
  with set have "kr' \<in> set (kr # rest)" by blast
  with sorted show "?k kr \<le> ?k kr'" by auto
qed

lemma next_claim_None:
  "next_claim now db = None \<longleftrightarrow> (\<forall>kr \<in> set (task_queue db). \<not> claimable now db kr)"
proof -
  have "next_claim now db = None \<longleftrightarrow> filter (claimable now db) (task_queue db) = []"
    by (auto simp: next_claim_def split: list.splits) (metis sort_key_simps(1) list.distinct(1) set_sort set_empty)+
  then show ?thesis by (simp add: filter_empty_conv)
qed

lemma next_claim_row:
  assumes "t_wf (task_queue db)" "next_claim now db = Some (tid, row)"
  shows "t_get (task_queue db) tid = Some row"
  using assms next_claim_Some(1) [OF assms(2)] by (intro t_wf_get) auto

lemma claim_queue:
  assumes "claim x w d db = Inr (ol, db')" "t_wf (task_queue db)"
  shows "queue_moves db db'"
proof (cases ol)
  case None
  with assms show ?thesis by (auto dest: claim_none)
next
  case (Some l)
  from assms(1) [unfolded Some] show ?thesis
  proof (rule claim_shape)
    fix tid row dur
    assume n: "next_claim (tx_now x) db = Some (tid, row)"
      and l: "l = \<lparr>l_task_id = tid, l_worker_id = w, l_generation = Suc (q_generation row)\<rparr>"
      and q: "task_queue db' = t_upd tid (\<lambda>r. r\<lparr>q_state := QLeased, q_worker_id := Some w,
                   q_generation := l_generation l, q_claimed_at := Some (tx_now x),
                   q_lease_expires_at := Some (tx_now x + dur), q_heartbeat_at := Some (tx_now x),
                   q_attempt := Suc (q_attempt r)\<rparr>) (task_queue db)"
    have row: "t_get (task_queue db) tid = Some row" using assms(2) n by (rule next_claim_row)
    show "queue_moves db db'"
      using q by (rule queue_moves_upd) (auto simp: row l row_moves_def row_dated_def)
  qed
qed

section \<open>Release and cancellation\<close>

lemma retry_timestamp_Inr:
  "retry_timestamp r = Inr t \<longleftrightarrow> (r = None \<and> t = None) \<or> (\<exists>q. r = Some (Fin q) \<and> 0 < q \<and> t = Some q)"
  by (auto simp: retry_timestamp_def split: option.splits pyfloat.splits if_splits)

lemma queue_event_evolves: "queue_event x tid e m db = Inr db' \<Longrightarrow> evolves db1 db \<Longrightarrow> evolves db1 db'"
  using evolves_then_same queue_event_frame(1) by blast

definition release_state :: "task \<Rightarrow> string option \<Rightarrow> rat option \<Rightarrow> queue_state" where
  "release_state tk blocked ra =
     (if terminal (status tk) then QDone else if truthy blocked \<and> ra = None then QBlocked else QReady)"

lemma release_shape:
  assumes "release x l blocked retry_at db = Inr db'"
  obtains row tk tk' ra f where "t_get (task_queue db) (l_task_id l) = Some row" "holds_lease (tx_now x) l (l_task_id l) row"
    "task_of db (l_task_id l) = Some tk" "retry_timestamp retry_at = Inr ra"
    "if q_cancel_requested row \<and> \<not> terminal (status tk)
     then \<exists>db1. cancel_task x tk db = Inr (tk', db1) \<and> tasks db' = tasks db1
     else tk' = tk \<and> tasks db' = tasks db"
    "task_queue db' = t_upd (l_task_id l) f (task_queue db)" "execution_steps db' = execution_steps db"
    "\<And>r. q_state (f r) = release_state tk' blocked ra \<and> q_lease_expires_at (f r) = None
       \<and> q_last_failure (f r) = blocked \<and> q_plan (f r) = q_plan r \<and> q_generation (f r) = q_generation r
       \<and> q_next_action (f r) = q_next_action r \<and> q_attempt (f r) = q_attempt r
       \<and> q_cancel_requested (f r) = q_cancel_requested r \<and> q_worker_id (f r) = q_worker_id r
       \<and> (\<forall>t. ra = Some t \<longrightarrow> release_state tk' blocked ra = QReady \<longrightarrow> q_next_attempt_at (f r) = t)"
    "approvals db' = approvals db"
proof -
  from assms obtain ra r tk row tk' db1 db3 where
    1: "retry_timestamp retry_at = Inr ra" "assert_lease x db (l_task_id l) False (Some l) = Inr r"
    "task_of db (l_task_id l) = Some tk" "r = Some row"
    and 2: "(if q_cancel_requested row \<and> \<not> terminal (status tk) then cancel_task x tk db
            else Inr (tk, db)) = Inr (tk', db1)"
    and 3: "(case ra of
                 None \<Rightarrow> Inr (upd_queue (l_task_id l) (\<lambda>r. r\<lparr>q_state := release_state tk' blocked ra, q_lease_expires_at := None,
                 q_last_failure := blocked\<rparr>) db1)
               | Some t \<Rightarrow>
                   if release_state tk' blocked ra = QReady
                   then queue_event x (l_task_id l) ''worker.retry_scheduled''
                          [(''next_attempt_at'', PFloat (Fin t)), (''reason'', dump_opt blocked)]
                          (upd_queue (l_task_id l) (\<lambda>r. r\<lparr>q_next_attempt_at := t,
                             q_retry_count := Suc (q_retry_count r)\<rparr>) (upd_queue (l_task_id l) (\<lambda>r. r\<lparr>q_state := release_state tk' blocked ra, q_lease_expires_at := None,
                 q_last_failure := blocked\<rparr>) db1))
                   else Inr (upd_queue (l_task_id l) (\<lambda>r. r\<lparr>q_state := release_state tk' blocked ra, q_lease_expires_at := None,
                 q_last_failure := blocked\<rparr>) db1)) = Inr db3"
    and 4: "queue_event x (l_task_id l) ''worker.released''
          (lease_meta (Some (l_worker_id l)) (l_generation l)
           @ [(''state'', PStr (state_name (release_state tk' blocked ra))), (''reason'', dump_opt blocked)]) db3 = Inr db'"
    unfolding release_def release_state_def Let_def
    by (elim rbindE) (auto simp: of_opt_eq_Inr elim!: rbindE split: prod.splits)
  let ?g = "\<lambda>r. r\<lparr>q_state := release_state tk' blocked ra, q_lease_expires_at := None, q_last_failure := blocked\<rparr>"
  let ?f = "case ra of Some t \<Rightarrow> (if release_state tk' blocked ra = QReady
       then (\<lambda>r. (?g r)\<lparr>q_next_attempt_at := t, q_retry_count := Suc (q_retry_count r)\<rparr>) else ?g) | None \<Rightarrow> ?g"
  have db1: "task_queue db1 = task_queue db" "execution_steps db1 = execution_steps db" "approvals db1 = approvals db"
    "if q_cancel_requested row \<and> \<not> terminal (status tk) then cancel_task x tk db = Inr (tk', db1) else tk' = tk \<and> tasks db1 = tasks db"
    using 2 by (auto dest: cancel_task_shape split: if_splits)
  have db3: "task_queue db3 = t_upd (l_task_id l) ?f (task_queue db)" "tasks db3 = tasks db1"
    "execution_steps db3 = execution_steps db" "approvals db3 = approvals db"
    using 3 db1 by (auto simp: queue_event_Inr t_upd_upd comp_def split: option.splits if_splits)
  show thesis
    using 1 db1 db3 queue_event_frame [OF 4]
    by (intro that [of row tk ra tk' ?f]) (auto simp: assert_lease_Inr effective_owner_def split: option.splits if_splits)
qed

lemma release_queue: "release x l b ra db = Inr db' \<Longrightarrow> queue_moves db db'"
  by (erule release_shape, erule queue_moves_upd)
     (auto simp: row_moves_def row_dated_def release_state_def holds_lease_def)

lemma release_evolves:
  assumes "release x l b ra db = Inr db'"
  shows "evolves db db'"
  using assms
proof (rule release_shape)
  fix row tk tk'
  assume a: "task_of db (l_task_id l) = Some tk"
    "if q_cancel_requested row \<and> \<not> terminal (status tk)
     then \<exists>db1. cancel_task x tk db = Inr (tk', db1) \<and> tasks db' = tasks db1
     else tk' = tk \<and> tasks db' = tasks db"
  show ?thesis
  proof (cases "q_cancel_requested row \<and> \<not> terminal (status tk)")
    case True
    with a obtain db1 where "cancel_task x tk db = Inr (tk', db1)" "tasks db' = tasks db1" by auto
    with a(1) show ?thesis by (metis cancel_task_evolves evolves_then_same)
  qed (use a(2) in \<open>auto intro: evolves_same\<close>)
qed

lemma cancel_shape:
  assumes "cancel x tid db = Inr db'"
  obtains row tk where "t_get (task_queue db) tid = Some row" "task_of db tid = Some tk"
    "terminal (status tk)" "db' = db"
  | row tk tk' db1 where "t_get (task_queue db) tid = Some row" "task_of db tid = Some tk" "\<not> terminal (status tk)"
    "q_state row = QLeased \<Longrightarrow> \<exists>e. q_lease_expires_at row = Some e \<and> e \<le> tx_now x"
    "cancel_task x tk (upd_queue tid (\<lambda>r. r\<lparr>q_cancel_requested := True\<rparr>) db) = Inr (tk', db1)"
    "tasks db' = tasks db1" "execution_steps db' = execution_steps db"
    "task_queue db' = t_upd tid (\<lambda>r. r\<lparr>q_cancel_requested := True, q_state := QDone, q_lease_expires_at := None\<rparr>) (task_queue db)"
  | row tk e where "t_get (task_queue db) tid = Some row" "task_of db tid = Some tk" "\<not> terminal (status tk)"
    "q_state row = QLeased" "q_lease_expires_at row = Some e" "tx_now x < e"
    "tasks db' = tasks db" "execution_steps db' = execution_steps db"
    "task_queue db' = t_upd tid (\<lambda>r. r\<lparr>q_cancel_requested := True\<rparr>) (task_queue db)"
proof -
  from assms obtain row tk where 1: "t_get (task_queue db) tid = Some row" "task_of db tid = Some tk"
    by (auto simp: cancel_def rbind_eq_Inr of_opt_eq_Inr)
  show thesis
  proof (cases "terminal (status tk)")
    case True
    with 1 assms show thesis by (intro that(1)) (auto simp: cancel_def)
  next
    case False
    let ?db1 = "upd_queue tid (\<lambda>r. r\<lparr>q_cancel_requested := True\<rparr>) db"
    from 1 False assms obtain idle db3 where
      2: "(if q_state row \<noteq> QLeased then Inr True
          else (case q_lease_expires_at row of None \<Rightarrow> Inl TypeError | Some e \<Rightarrow> Inr (e \<le> tx_now x))) = Inr idle"
      and 3: "(if idle then rbind (cancel_task x tk ?db1) (\<lambda>(tk', db2).
                          Inr (upd_queue tid (\<lambda>r. r\<lparr>q_state := QDone, q_lease_expires_at := None\<rparr>) db2))
                   else Inr ?db1) = Inr db3"
      and 4: "queue_event x tid ''worker.cancel_requested'' [] db3 = Inr db'"
      by (auto simp: cancel_def Let_def elim!: rbindE)
    show thesis
    proof (cases idle)
      case True
      with 3 obtain tk' db2 where c: "cancel_task x tk ?db1 = Inr (tk', db2)"
        "db3 = upd_queue tid (\<lambda>r. r\<lparr>q_state := QDone, q_lease_expires_at := None\<rparr>) db2"
        by (auto elim!: rbindE)
      with 1 2 False True show thesis
        using cancel_task_shape [OF c(1)] queue_event_frame [OF 4]
        by (intro that(2) [of row tk tk' db2]) (auto simp: t_upd_upd split: if_splits option.splits)
    next
      case idle: False
      with 1 2 3 False show thesis
        using queue_event_frame [OF 4] by (auto intro: that(3) split: if_splits option.splits)
    qed
  qed
qed

lemma cancel_queue: "cancel x tid db = Inr db' \<Longrightarrow> queue_moves db db'"
  by (erule cancel_shape) (simp, (erule queue_moves_upd, simp add: row_moves_def row_dated_def)+)

lemma evolves_from_same:
  assumes "evolves db1 db2" "tasks db1 = tasks db"
  shows "evolves db db2"
  using assms(1)
  unfolding evolves_def status_moves_def tasks_keyed_def status_of_cong [OF assms(2)] task_of_cong [OF assms(2)] .

lemma cancel_evolves:
  assumes "cancel x tid db = Inr db'"
  shows "evolves db db'"
  using assms
proof (rule cancel_shape)
  fix tk tk' db1
  let ?db = "upd_queue tid (\<lambda>r. r\<lparr>q_cancel_requested := True\<rparr>) db"
  assume a: "task_of db tid = Some tk" "cancel_task x tk ?db = Inr (tk', db1)" "tasks db' = tasks db1"
  have "task_of ?db tid = Some tk" using a(1) by (simp add: task_of_def)
  from cancel_task_evolves [OF a(2) this] have "evolves ?db db1" .
  then have "evolves db db1" by (rule evolves_from_same) simp
  with a(3) show ?thesis by (rule evolves_then_same [rotated])
qed (auto intro: evolves_same)

section \<open>Recovery\<close>

text \<open>Recovery changes no status but that of an open task, which it cancels.\<close>

definition only_cancels :: "db \<Rightarrow> db \<Rightarrow> bool" where
  "only_cancels db db' \<longleftrightarrow>
     (tasks_keyed db \<longrightarrow> tasks_keyed db') \<and>
     (tasks_keyed db \<longrightarrow> (\<forall>tid s. status_of db tid = Some s \<longrightarrow>
        (\<exists>s'. status_of db' tid = Some s' \<and> (s' = s \<or> \<not> terminal s \<and> s' = CANCELLED))))"

lemma only_cancels_refl [simp]: "only_cancels db db"
  by (auto simp: only_cancels_def)

lemma only_cancels_trans: "only_cancels a b \<Longrightarrow> only_cancels b c \<Longrightarrow> only_cancels a c"
  unfolding only_cancels_def by (metis terminal_simps(2))

lemma only_cancels_evolves: "only_cancels a b \<Longrightarrow> evolves a b"
  unfolding only_cancels_def evolves_def status_moves_def by (metis TRANSITIONS_cancel)

lemma only_cancels_same:
  assumes "tasks db' = tasks db"
  shows "only_cancels db db'"
  by (simp add: only_cancels_def tasks_keyed_def status_of_cong [OF assms] task_of_cong [OF assms])

lemma only_cancels_cancel:
  assumes "cancel_task x tk db = Inr (tk', db1)" "task_of db tid = Some tk" "tasks db' = tasks db1"
  shows "only_cancels db db'"
proof (cases "tasks_keyed db")
  case True
  with assms(2) have id: "task_id tk = tid" by (auto simp: tasks_keyed_def)
  note c = cancel_task_shape [OF assms(1)]
  have "tasks db' = tasks (put_task tid tk' db)" using assms(3) c(4) id by simp
  from task_of_cong [OF this] assms(2) have t: "task_of db' = (\<lambda>i. if i = tid then Some tk' else task_of db i)" by simp
  have "\<not> terminal (status tk)" using c(1) by (simp add: TRANSITIONS_cancel)
  with True t id c(2,3) assms(2) show ?thesis
    by (auto simp: only_cancels_def tasks_keyed_def status_of_eq)
qed (simp add: only_cancels_def)

definition lapsed :: "step_record \<Rightarrow> step_record" where
  "lapsed s = s\<lparr>sr_state := StUncertain, sr_error := Some ''lease_expired''\<rparr>"

lemma mark_started_uncertain_frame [simp]:
  "tasks (mark_started_uncertain tid db) = tasks db" "task_queue (mark_started_uncertain tid db) = task_queue db"
  "execution_steps (mark_started_uncertain tid db) =
     t_upd_where (\<lambda>s. sr_task_id s = tid \<and> sr_state s = StStarted) lapsed (execution_steps db)"
  by (simp_all add: mark_started_uncertain_def lapsed_def [abs_def])

definition recovered_state :: "task_status \<Rightarrow> queue_state" where
  "recovered_state s = (if terminal s then QDone else QReady)"

lemma recovered_state_free [simp]: "recovered_state s \<noteq> QLeased"
  by (simp add: recovered_state_def)

lemma recover_row_shape:
  assumes "recover_row x (tid, row) db = Inr db'"
  obtains tk and tk' :: task and f where "task_of db tid = Some tk" "only_cancels db db'"
    "execution_steps db' = t_upd_where (\<lambda>s. sr_task_id s = tid \<and> sr_state s = StStarted) lapsed (execution_steps db)"
    "task_queue db' = t_upd tid f (task_queue db)"
    "status tk' = (if q_cancel_requested row \<and> \<not> terminal (status tk) then CANCELLED else status tk)"
    "\<And>r. q_state (f r) = recovered_state (status tk') \<and> q_lease_expires_at (f r) = None
       \<and> q_plan (f r) = q_plan r \<and> q_generation (f r) = q_generation r
       \<and> q_next_action (f r) = q_next_action r \<and> q_attempt (f r) = q_attempt r
       \<and> q_cancel_requested (f r) = q_cancel_requested r \<and> q_worker_id (f r) = q_worker_id r"
proof -
  let ?db1 = "mark_started_uncertain tid db"
  have t1: "task_of ?db1 = task_of db" by (rule task_of_cong) simp
  from assms obtain tk tk' db2 db3 where
    1: "task_of db tid = Some tk" and
    2: "(if q_cancel_requested row \<and> \<not> terminal (status tk) then cancel_task x tk ?db1
             else Inr (tk, ?db1)) = Inr (tk', db2)"
    and db3: "db3 = upd_queue tid (\<lambda>r. r\<lparr>q_state := recovered_state (status tk'), q_lease_expires_at := None\<rparr>) db2"
    and 4: "queue_event x tid ''worker.recovered''
           (lease_meta (q_worker_id row) (q_generation row) @ [(''reason'', PStr ''lease_expired'')])
           (upd_queue tid (\<lambda>r. r\<lparr>q_next_attempt_at := max (q_next_attempt_at r) (continuity_next db3 tid)\<rparr>) db3) = Inr db'"
    unfolding recover_row_def Let_def fst_conv snd_conv recovered_state_def
    by (elim rbindE) (auto simp: of_opt_eq_Inr t1 elim!: rbindE split: prod.splits)
  let ?f = "\<lambda>r. r\<lparr>q_state := recovered_state (status tk'), q_lease_expires_at := None,
     q_next_attempt_at := max (q_next_attempt_at r) (continuity_next db3 tid)\<rparr>"
  have t2: "only_cancels ?db1 db2 \<and> task_queue db2 = task_queue db \<and> execution_steps db2 = execution_steps ?db1
      \<and> status tk' = (if q_cancel_requested row \<and> \<not> terminal (status tk) then CANCELLED else status tk)"
  proof (cases "q_cancel_requested row \<and> \<not> terminal (status tk)")
    case True
    with 2 have c: "cancel_task x tk ?db1 = Inr (tk', db2)" by simp
    from only_cancels_cancel [OF c, of tid db2] 1 t1 cancel_task_shape [OF c] True show ?thesis by auto
  qed (use 2 in auto)
  have "only_cancels db db'"
    by (rule only_cancels_trans [OF only_cancels_same only_cancels_trans [OF conjunct1 [OF t2] only_cancels_same]])
       (use queue_event_frame [OF 4] db3 in auto)
  then show thesis
    using 1 t2 queue_event_frame [OF 4] by (intro that [of tk ?f tk']) (auto simp: db3 t_upd_upd)
qed

lemma recover_row_queue:
  assumes "recover_row x kr db = Inr db'"
  shows "queue_moves db db'"
proof -
  obtain tid row where kr: "kr = (tid, row)" by (cases kr)
  from assms [unfolded kr] show ?thesis
  proof (rule recover_row_shape)
    fix tk' :: task and f
    assume q: "task_queue db' = t_upd tid f (task_queue db)"
      and f: "\<And>r. q_state (f r) = recovered_state (status tk') \<and> q_lease_expires_at (f r) = None
       \<and> q_plan (f r) = q_plan r \<and> q_generation (f r) = q_generation r
       \<and> q_next_action (f r) = q_next_action r \<and> q_attempt (f r) = q_attempt r
       \<and> q_cancel_requested (f r) = q_cancel_requested r \<and> q_worker_id (f r) = q_worker_id r"
    show ?thesis
      using q by (rule queue_moves_upd) (simp add: row_moves_def row_dated_def f)
  qed
qed

lemma recover_row_journal:
  assumes "recover_row x kr db = Inr db'"
  shows "journal_moves db db'" "journal_ok L db \<Longrightarrow> journal_ok L db'"
proof -
  obtain tid row where kr: "kr = (tid, row)" by (cases kr)
  from assms [unfolded kr] have e: "execution_steps db' =
      t_upd_where (\<lambda>s. sr_task_id s = tid \<and> sr_state s = StStarted) lapsed (execution_steps db)"
    by (rule recover_row_shape)
  have get: "t_get (execution_steps db') i = map_option
      (\<lambda>s. if sr_task_id s = tid \<and> sr_state s = StStarted then lapsed s else s) (t_get (execution_steps db) i)" for i
    by (simp add: e t_get_upd_where)
  show "journal_moves db db'"
    by (auto simp: journal_moves_def get step_moves_def same_step_def lapsed_def claim_budget_def)
  assume ok: "journal_ok L db"
  have pre: "\<exists>s. t_get (execution_steps db) i = Some s \<and> sr_task_id s = sr_task_id s'
      \<and> idempotency_key s = idempotency_key s'" if "t_get (execution_steps db') i = Some s'" for i s'
    using that by (auto simp: get lapsed_def)
  have uniq: "keys_unique db" using ok by (simp add: journal_ok_def)
  have "keys_unique db'"
    unfolding keys_unique_def
  proof (intro allI impI)
    fix i j s s'
    assume "t_get (execution_steps db') i = Some s" "t_get (execution_steps db') j = Some s'"
      and same: "sr_task_id s = sr_task_id s'" "idempotency_key s = idempotency_key s'"
    with pre obtain u v where "t_get (execution_steps db) i = Some u" "t_get (execution_steps db) j = Some v"
      "sr_task_id u = sr_task_id v" "idempotency_key u = idempotency_key v" by metis
    with uniq show "i = j" unfolding keys_unique_def by blast
  qed
  moreover have "t_wf (execution_steps db')" using ok by (simp add: e journal_ok_def)
  moreover have "step_id s' = i \<and> receipted L s'" if "t_get (execution_steps db') i = Some s'" for i s'
    using that ok unfolding get journal_ok_def by (auto simp: lapsed_def receipted_def)
  ultimately show "journal_ok L db'" by (simp add: journal_ok_def)
qed

lemma recover_rows_all:
  assumes "recover_rows x krs db = Inr db'"
  shows "only_cancels db db' \<and> queue_moves db db' \<and> journal_moves db db' \<and> (journal_ok L db \<longrightarrow> journal_ok L db')"
  using assms
proof (induction krs arbitrary: db)
  case (Cons kr krs)
  then obtain db1 where r: "recover_row x kr db = Inr db1" "recover_rows x krs db1 = Inr db'"
    by (auto elim: rbindE)
  have "only_cancels db db1"
    by (cases kr) (use r(1) in \<open>auto elim: recover_row_shape\<close>)
  with Cons.IH [OF r(2)] recover_row_queue [OF r(1)] recover_row_journal(1) [OF r(1)] recover_row_journal(2) [OF r(1), of L] show ?case
    by (blast intro: only_cancels_trans queue_moves_trans journal_moves_trans)
qed simp

lemma recover_expired_all:
  assumes "recover_expired x db = Inr (n, db')"
  shows "evolves db db'" "queue_moves db db'" "journal_moves db db'" "journal_ok L db \<Longrightarrow> journal_ok L db'"
    "n = length (expired_rows (tx_now x) db)"
proof -
  from assms have r: "recover_rows x (expired_rows (tx_now x) db) db = Inr db'"
    and n: "n = length (expired_rows (tx_now x) db)"
    by (auto simp: recover_expired_def Let_def elim!: rbindE)
  show "evolves db db'" "queue_moves db db'" "journal_moves db db'" "journal_ok L db \<Longrightarrow> journal_ok L db'"
    "n = length (expired_rows (tx_now x) db)"
    using recover_rows_all [OF r, of L] n by (auto intro: only_cancels_evolves)
qed

end
