(* ===== verification/Approvals.thy ===== *)
theory Approvals imports Leases begin

text \<open>
  dante/approvals.py: an approval is requested with a secret token of which only the hash is
  stored, decided once by whoever holds the token, and, when approved, consumed once by the action
  it is bound to. The approval's identifier and the token are what \<open>new_id\<close> and
  \<open>secrets.token_urlsafe\<close> draw, so they are arguments.
\<close>

section \<open>Operations\<close>

text \<open>\<open>hashlib.sha256(token.encode()).hexdigest()\<close>\<close>

definition token_digest :: "pylib \<Rightarrow> string \<Rightarrow> string" where
  "token_digest L token = sha256 L token"

definition request ::
  "pylib \<Rightarrow> string \<Rightarrow> string \<Rightarrow> string \<Rightarrow> string \<Rightarrow> string \<Rightarrow> string \<Rightarrow> db \<Rightarrow> ((approval \<times> string) \<times> db) result" where
  "request L apid token tid act tgt ph db =
     (let ap = \<lparr>approval_id = apid, ap_task_id = tid, action = act, target = tgt, plan_hash = ph,
                ap_status = Pending, decided_at = None, decided_by = None\<rparr>
      in rbind (t_ins apid \<lparr>apw_task_id = tid, apw_approval = ap, apw_token_hash = token_digest L token,
                            apw_consumed = False\<rparr> (approvals db)) (\<lambda>as.
         Inr ((ap, token), db\<lparr>approvals := as\<rparr>)))"

definition decide ::
  "pylib \<Rightarrow> tx \<Rightarrow> string \<Rightarrow> string \<Rightarrow> string \<Rightarrow> string \<Rightarrow> bool \<Rightarrow> db \<Rightarrow> (approval \<times> db) result" where
  "decide L x apid token ph actor approve db =
     (case t_get (approvals db) apid of
        None \<Rightarrow> Inl PermissionError
      | Some row \<Rightarrow>
          if apw_consumed row \<or> apw_token_hash row \<noteq> token_digest L token then Inl PermissionError
          else if plan_hash (apw_approval row) \<noteq> ph then Inl PermissionError
          else
            let ap = (apw_approval row)\<lparr>ap_status := (if approve then Approved else Rejected),
                       decided_at := Some (tx_stamp x), decided_by := Some actor\<rparr>
            in Inr (ap, db\<lparr>approvals :=
                 t_upd apid (\<lambda>r. r\<lparr>apw_approval := ap, apw_consumed := True\<rparr>) (approvals db)\<rparr>))"

definition authorizes :: "approval \<Rightarrow> string \<Rightarrow> string \<Rightarrow> bool" where
  "authorizes ap tid h =
     (ap_status ap = Approved \<and> ap_task_id ap = tid \<and> action ap = ''tool.execute''
      \<and> target ap = h \<and> plan_hash ap = h)"

definition consume_action :: "string \<Rightarrow> string \<Rightarrow> string \<Rightarrow> db \<Rightarrow> db result" where
  "consume_action apid tid h db =
     (case t_get (approvals db) apid of
        None \<Rightarrow> Inl PermissionError
      | Some row \<Rightarrow>
          if \<not> apw_consumed row then Inl PermissionError
          else if \<not> authorizes (apw_approval row) tid h then Inl PermissionError
          else Inr (db\<lparr>approvals :=
                 t_upd apid (\<lambda>r. r\<lparr>apw_approval := (apw_approval row)\<lparr>ap_status := Executed\<rparr>\<rparr>) (approvals db)\<rparr>))"

section \<open>The life of an approval\<close>

text \<open>
  An approval row is undecided while its token is live; it moves from pending to a decision, and
  from approved to executed. The binding (task, action, target, plan) never changes.
\<close>

fun approval_next :: "approval_status \<Rightarrow> approval_status list" where
  "approval_next Pending = [Approved, Rejected]"
| "approval_next Approved = [Executed]"
| "approval_next Rejected = []"
| "approval_next Executed = []"

definition same_binding :: "approval_row \<Rightarrow> approval_row \<Rightarrow> bool" where
  "same_binding r r' \<longleftrightarrow>
     apw_task_id r' = apw_task_id r \<and> apw_token_hash r' = apw_token_hash r
     \<and> approval_id (apw_approval r') = approval_id (apw_approval r)
     \<and> ap_task_id (apw_approval r') = ap_task_id (apw_approval r)
     \<and> action (apw_approval r') = action (apw_approval r) \<and> target (apw_approval r') = target (apw_approval r)
     \<and> plan_hash (apw_approval r') = plan_hash (apw_approval r)"

definition row_status :: "approval_row \<Rightarrow> approval_status" where
  "row_status r = ap_status (apw_approval r)"

definition approval_row_ok :: "approval_row \<Rightarrow> bool" where
  "approval_row_ok r \<longleftrightarrow> (apw_consumed r \<longleftrightarrow> row_status r \<noteq> Pending) \<and> ap_task_id (apw_approval r) = apw_task_id r"

definition approval_moves :: "approval_row \<Rightarrow> approval_row \<Rightarrow> bool" where
  "approval_moves r r' \<longleftrightarrow>
     same_binding r r' \<and> (approval_row_ok r \<longrightarrow> row_status r' = row_status r \<or>
       row_status r' \<in> set (approval_next (row_status r)))
     \<and> (approval_row_ok r \<longrightarrow> approval_row_ok r')"

definition approvals_move :: "db \<Rightarrow> db \<Rightarrow> bool" where
  "approvals_move db db' \<longleftrightarrow>
     (\<forall>i r. t_get (approvals db) i = Some r \<longrightarrow> (\<exists>r'. t_get (approvals db') i = Some r' \<and> approval_moves r r'))
     \<and> (\<forall>i r'. t_get (approvals db') i = Some r' \<longrightarrow> t_get (approvals db) i = None \<longrightarrow>
          approval_row_ok r' \<and> row_status r' = Pending)"

definition approvals_ok :: "db \<Rightarrow> bool" where
  "approvals_ok db \<longleftrightarrow> (\<forall>i r. t_get (approvals db) i = Some r \<longrightarrow> approval_row_ok r)"

lemma approvals_move_ok: "approvals_move db db' \<Longrightarrow> approvals_ok db \<Longrightarrow> approvals_ok db'"
  unfolding approvals_move_def approvals_ok_def approval_moves_def by (metis not_None_eq option.inject)

lemma approvals_move_same: "approvals db' = approvals db \<Longrightarrow> approvals_move db db'"
  by (auto simp: approvals_move_def approval_moves_def same_binding_def)

lemma request_shape:
  assumes "request L apid token tid act tgt ph db = Inr ((ap, tok), db')"
  shows "tok = token" "ap_task_id ap = tid" "action ap = act" "target ap = tgt" "plan_hash ap = ph"
    "ap_status ap = Pending" "approval_id ap = apid" "t_get (approvals db) apid = None"
    "db' = db\<lparr>approvals := approvals db @ [(apid, \<lparr>apw_task_id = tid, apw_approval = ap,
       apw_token_hash = token_digest L token, apw_consumed = False\<rparr>)]\<rparr>"
  using assms by (auto simp: request_def Let_def rbind_eq_Inr t_ins_Inr)

lemma request_moves: "request L apid token tid act tgt ph db = Inr ((ap, tok), db') \<Longrightarrow> approvals_move db db'"
  using request_shape [of L apid token tid act tgt ph db ap tok db']
  by (auto simp: approvals_move_def approval_moves_def same_binding_def t_get_snoc_new approval_row_ok_def row_status_def)

lemma decide_shape:
  assumes "decide L x apid token ph actor ok db = Inr (ap, db')"
  obtains row where "t_get (approvals db) apid = Some row" "\<not> apw_consumed row"
    "apw_token_hash row = token_digest L token" "plan_hash (apw_approval row) = ph"
    "ap = (apw_approval row)\<lparr>ap_status := (if ok then Approved else Rejected),
             decided_at := Some (tx_stamp x), decided_by := Some actor\<rparr>"
    "db' = db\<lparr>approvals := t_upd apid (\<lambda>r. r\<lparr>apw_approval := ap, apw_consumed := True\<rparr>) (approvals db)\<rparr>"
  using assms by (auto simp: decide_def Let_def split: option.splits if_splits)

lemma consume_shape:
  assumes "consume_action apid tid h db = Inr db'"
  obtains row where "t_get (approvals db) apid = Some row" "apw_consumed row"
    "authorizes (apw_approval row) tid h"
    "db' = db\<lparr>approvals :=
       t_upd apid (\<lambda>r. r\<lparr>apw_approval := (apw_approval row)\<lparr>ap_status := Executed\<rparr>\<rparr>) (approvals db)\<rparr>"
  using assms by (auto simp: consume_action_def split: option.splits if_splits)

lemma approvals_move_upd:
  assumes "approvals db' = t_upd i f (approvals db)"
    and "\<And>r. t_get (approvals db) i = Some r \<Longrightarrow> approval_moves r (f r)"
  shows "approvals_move db db'"
proof -
  have refl: "approval_moves r r" for r by (simp add: approval_moves_def same_binding_def)
  show ?thesis
    using assms refl by (auto simp: approvals_move_def t_get_upd split: if_splits)
qed

lemma decide_moves:
  assumes "decide L x apid token ph actor ok db = Inr (ap, db')"
  shows "approvals_move db db'"
  using assms
proof (rule decide_shape)
  fix row
  assume a: "t_get (approvals db) apid = Some row" "\<not> apw_consumed row"
    "ap = (apw_approval row)\<lparr>ap_status := (if ok then Approved else Rejected),
             decided_at := Some (tx_stamp x), decided_by := Some actor\<rparr>"
    "db' = db\<lparr>approvals := t_upd apid (\<lambda>r. r\<lparr>apw_approval := ap, apw_consumed := True\<rparr>) (approvals db)\<rparr>"
  show ?thesis
    by (rule approvals_move_upd [of _ apid "\<lambda>r. r\<lparr>apw_approval := ap, apw_consumed := True\<rparr>"])
       (use a in \<open>auto simp: approval_moves_def same_binding_def approval_row_ok_def row_status_def\<close>)
qed

lemma consume_moves:
  assumes "consume_action apid tid h db = Inr db'"
  shows "approvals_move db db'"
  using assms
proof (rule consume_shape)
  fix row
  assume a: "t_get (approvals db) apid = Some row" "apw_consumed row" "authorizes (apw_approval row) tid h"
    "db' = db\<lparr>approvals :=
       t_upd apid (\<lambda>r. r\<lparr>apw_approval := (apw_approval row)\<lparr>ap_status := Executed\<rparr>\<rparr>) (approvals db)\<rparr>"
  show ?thesis
    by (rule approvals_move_upd [of _ apid "\<lambda>r. r\<lparr>apw_approval := (apw_approval row)\<lparr>ap_status := Executed\<rparr>\<rparr>"])
       (use a in \<open>auto simp: approval_moves_def same_binding_def approval_row_ok_def row_status_def authorizes_def\<close>)
qed

text \<open>Once a token is used, no second decision is made; once an approval is consumed, no second action.\<close>

lemma decide_twice:
  "decide L x apid token ph actor ok db = Inr (ap, db') \<Longrightarrow> decide L x' apid token' ph' actor' ok' db' = Inl PermissionError"
  by (erule decide_shape) (auto simp: decide_def)

lemma consume_twice:
  "consume_action apid tid h db = Inr db' \<Longrightarrow> consume_action apid tid' h' db' = Inl PermissionError"
  by (erule consume_shape) (auto simp: consume_action_def authorizes_def)

end
