(* ===== verification/Continuity_Store.thy ===== *)
theory Continuity_Store imports Leases begin

text \<open>
  dante/contracts/continuity.py and the database half of dante/continuity.py: the observations of
  the backends' health and the per-task window of route attempts. \<open>now\<close> is a reading of the
  manager's clock, \<open>x\<close> what the transaction reads; a task's lease is checked in the same
  transaction as the write.
\<close>

section \<open>Policy\<close>

datatype execution_policy =
    LOCAL_ONLY | LOCAL_PREFERRED | CLOUD_PREFERRED | CLOUD_ONLY | LOCAL_FIRST
  | CLOUD_FIRST_WITH_LOCAL_FALLBACK | SPECIFIC_ALLOWED_BACKENDS

record continuity_policy =
  mode :: execution_policy
  allowed_backends :: "string fset"
  base_backoff_s :: rat
  max_backoff_s :: rat
  observation_ttl_s :: rat
  window_s :: rat
  max_route_attempts :: nat

text \<open>The field bounds and the model validator of \<open>ContinuityPolicy\<close>.\<close>

definition valid_policy :: "continuity_policy \<Rightarrow> bool" where
  "valid_policy p =
     (0 < base_backoff_s p \<and> 0 < max_backoff_s p \<and> 0 < observation_ttl_s p \<and> 0 < window_s p
      \<and> 1 \<le> max_route_attempts p \<and> max_route_attempts p \<le> 100 \<and> base_backoff_s p \<le> max_backoff_s p)"

section \<open>Backend health\<close>

fun backend_value :: "backend_state \<Rightarrow> string" where
  "backend_value BAvailable = ''available''"
| "backend_value BDegraded = ''degraded''"
| "backend_value BRateLimited = ''rate_limited''"
| "backend_value BQuotaExhausted = ''quota_exhausted''"
| "backend_value BUnavailable = ''unavailable''"
| "backend_value BCooldown = ''cooldown''"
| "backend_value BUnknown = ''unknown''"

definition BACKEND_REASONS :: "string list" where
  "BACKEND_REASONS = [''available'', ''degraded'', ''rate_limit'', ''rate_limited'', ''quota_exhausted'',
     ''unavailable'', ''cooldown'', ''unknown'', ''timeout'', ''invalid_response'']"

definition observation :: "db \<Rightarrow> string \<Rightarrow> backend_row option" where
  "observation db backend = t_get (backend_observations db) backend"

definition finite_cooldown :: "pyfloat option \<Rightarrow> rat option result" where
  "finite_cooldown c =
     (case c of None \<Rightarrow> Inr None | Some (Fin q) \<Rightarrow> Inr (Some q) | Some _ \<Rightarrow> Inl ValueError)"

text \<open>\<open>reason or state.value\<close>: an empty reason is replaced too.\<close>

definition reason_or :: "string option \<Rightarrow> backend_state \<Rightarrow> string" where
  "reason_or reason st = (case reason of None \<Rightarrow> backend_value st | Some r \<Rightarrow> if r = [] then backend_value st else r)"

definition observe ::
  "rat \<Rightarrow> tx \<Rightarrow> string \<Rightarrow> backend_state \<Rightarrow> pyfloat option \<Rightarrow> string option \<Rightarrow> string option \<Rightarrow> db \<Rightarrow> db result" where
  "observe now x backend st cooldown_until reason task db =
     rbind (finite_cooldown cooldown_until) (\<lambda>cd.
     rbind (guard (reason_or reason st \<in> set BACKEND_REASONS) ValueError) (\<lambda>_.
     rbind (case task of None \<Rightarrow> Inr None | Some tid \<Rightarrow> assert_lease x db tid False None) (\<lambda>_.
     let row = observation db backend;
         failures = (if st = BAvailable then 0 else (case row of None \<Rightarrow> 0 | Some r \<Rightarrow> b_failures r) + 1);
         last = (if st = BAvailable then Some now else (case row of None \<Rightarrow> None | Some r \<Rightarrow> b_last_success r))
     in Inr (db\<lparr>backend_observations :=
          t_replace backend \<lparr>b_state = st, b_reason = reason_or reason st, b_observed_at = now,
            b_cooldown_until = cd, b_failures = failures, b_last_success = last\<rparr> (backend_observations db)\<rparr>))))"

section \<open>Attempts of a task\<close>

definition new_window :: "rat \<Rightarrow> continuity_row" where
  "new_window now = \<lparr>c_window_start = now, c_attempts = 0, c_next_attempt_at = None,
     c_last_reason = None, c_disposition = None\<rparr>"

text \<open>The foreign key of \<open>task_continuity\<close> refuses a task the ledger does not hold.\<close>

definition ensure_window :: "rat \<Rightarrow> string \<Rightarrow> db \<Rightarrow> db result" where
  "ensure_window now tid db =
     (if t_get (task_continuity db) tid = None \<and> t_get (tasks db) tid = None then Inl IntegrityError
      else Inr (db\<lparr>task_continuity := t_ins_ignore tid (new_window now) (task_continuity db)\<rparr>))"

definition upd_window :: "string \<Rightarrow> (continuity_row \<Rightarrow> continuity_row) \<Rightarrow> db \<Rightarrow> db" where
  "upd_window tid f db = db\<lparr>task_continuity := t_upd tid f (task_continuity db)\<rparr>"

text \<open>
  \<open>_event\<close>: the prefix \<open>continuity.\<close> and the status of the task object the caller holds.
\<close>

definition continuity_event :: "tx \<Rightarrow> task \<Rightarrow> string \<Rightarrow> (string \<times> pyval) list \<Rightarrow> db \<Rightarrow> db result" where
  "continuity_event x tk event metadata db =
     rbind (assert_lease x db (task_id tk) False None) (\<lambda>_.
       add_event x tk (''continuity.'' @ event) (Some (status tk)) metadata db)"

text \<open>\<open>Some t\<close>: the budget of the window is spent until \<open>t\<close>. The new row is committed all the same.\<close>

definition reserve ::
  "continuity_policy \<Rightarrow> rat \<Rightarrow> tx \<Rightarrow> string \<Rightarrow> db \<Rightarrow> (rat option \<times> db) result" where
  "reserve p now x tid db =
     rbind (assert_lease x db tid True None) (\<lambda>_.
     rbind (ensure_window now tid db) (\<lambda>db1.
     rbind (of_opt TypeError (t_get (task_continuity db1) tid)) (\<lambda>row.
       if c_window_start row + window_s p \<le> now
       then Inr (None, upd_window tid (\<lambda>r. r\<lparr>c_attempts := Suc (c_attempts r)\<rparr>)
                         (upd_window tid (\<lambda>r. r\<lparr>c_window_start := now, c_attempts := 0\<rparr>) db1))
       else if max_route_attempts p \<le> c_attempts row
       then Inr (Some (c_window_start row + window_s p), db1)
       else Inr (None, upd_window tid (\<lambda>r. r\<lparr>c_attempts := Suc (c_attempts r)\<rparr>) db1))))"

fun disposition_value :: "disposition \<Rightarrow> string" where
  "disposition_value ContinueNow = ''continue_now''"
| "disposition_value RetryLater = ''retry_later''"
| "disposition_value Terminal = ''terminal''"

text \<open>\<open>now\<close> and \<open>now2\<close> are the two clock readings of \<open>_outcome\<close>.\<close>

definition outcome ::
  "rat \<Rightarrow> rat \<Rightarrow> tx \<Rightarrow> task \<Rightarrow> disposition \<Rightarrow> string \<Rightarrow> rat option \<Rightarrow> db \<Rightarrow> db result" where
  "outcome now now2 x tk d reason retry_at db =
     rbind (assert_lease x db (task_id tk) False None) (\<lambda>_.
     rbind (ensure_window now (task_id tk) db) (\<lambda>db1.
     let db2 = upd_window (task_id tk) (\<lambda>r. r\<lparr>c_next_attempt_at := retry_at, c_last_reason := Some reason,
                 c_disposition := Some d\<rparr>) db1;
         db3 = (if d = ContinueNow
                then upd_window (task_id tk) (\<lambda>r. r\<lparr>c_window_start := now2, c_attempts := 0\<rparr>) db2 else db2)
     in add_event x tk ''continuity.outcome'' (Some (status tk))
          [(''disposition'', PStr (disposition_value d)), (''reason'', PStr reason),
           (''next_attempt_at'', case retry_at of None \<Rightarrow> PNone | Some t \<Rightarrow> PFloat (Fin t))] db3))"

section \<open>Facts\<close>

lemma upd_window_frame [simp]:
  "task_continuity (upd_window tid f db) = t_upd tid f (task_continuity db)"
  "tasks (upd_window tid f db) = tasks db" "task_queue (upd_window tid f db) = task_queue db"
  "execution_steps (upd_window tid f db) = execution_steps db" "approvals (upd_window tid f db) = approvals db"
  "backend_observations (upd_window tid f db) = backend_observations db"
  "artifacts (upd_window tid f db) = artifacts db" "task_acceptance (upd_window tid f db) = task_acceptance db"
  by (simp_all add: upd_window_def)

lemma ensure_window_Inr:
  "ensure_window now tid db = Inr db' \<longleftrightarrow>
     (t_get (task_continuity db) tid = None \<longrightarrow> t_get (tasks db) tid \<noteq> None) \<and>
     db' = db\<lparr>task_continuity := t_ins_ignore tid (new_window now) (task_continuity db)\<rparr>"
  by (auto simp: ensure_window_def)

lemma ensure_window_frame:
  assumes "ensure_window now tid db = Inr db'"
  shows "tasks db' = tasks db" "task_queue db' = task_queue db" "execution_steps db' = execution_steps db"
    "approvals db' = approvals db" "backend_observations db' = backend_observations db"
    "artifacts db' = artifacts db" "task_acceptance db' = task_acceptance db"
    "t_get (task_continuity db') tid \<noteq> None"
    "t_get (task_continuity db) tid = None \<Longrightarrow> t_get (task_continuity db') tid = Some (new_window now)"
    "t_get (task_continuity db) tid = Some r \<Longrightarrow> task_continuity db' = task_continuity db"
  using assms by (auto simp: ensure_window_def t_ins_ignore_def t_get_snoc_new split: if_splits)

text \<open>None of these operations touches the tables of the ledger proper.\<close>

lemma continuity_frame:
  "observe now x b st cd r t db = Inr db' \<Longrightarrow> tasks db' = tasks db \<and> task_queue db' = task_queue db
     \<and> execution_steps db' = execution_steps db \<and> approvals db' = approvals db \<and> artifacts db' = artifacts db
     \<and> task_acceptance db' = task_acceptance db"
  "continuity_event x tk e m db = Inr db' \<Longrightarrow> tasks db' = tasks db \<and> task_queue db' = task_queue db
     \<and> execution_steps db' = execution_steps db \<and> approvals db' = approvals db \<and> artifacts db' = artifacts db
     \<and> task_acceptance db' = task_acceptance db"
  "reserve p now x tid db = Inr (t', db') \<Longrightarrow> tasks db' = tasks db \<and> task_queue db' = task_queue db
     \<and> execution_steps db' = execution_steps db \<and> approvals db' = approvals db \<and> artifacts db' = artifacts db
     \<and> task_acceptance db' = task_acceptance db"
  "outcome now now2 x tk d rs ra db = Inr db' \<Longrightarrow> tasks db' = tasks db \<and> task_queue db' = task_queue db
     \<and> execution_steps db' = execution_steps db \<and> approvals db' = approvals db \<and> artifacts db' = artifacts db
     \<and> task_acceptance db' = task_acceptance db"
  by (auto simp: observe_def continuity_event_def reserve_def outcome_def Let_def rbind_eq_Inr add_event_Inr
      ensure_window_Inr split: if_splits)

text \<open>
  A window never grants more attempts than the policy allows: \<open>reserve\<close> keeps the bound, grants
  only below it or in a new window, and otherwise names the end of the window.
\<close>

definition windows_bounded :: "continuity_policy \<Rightarrow> db \<Rightarrow> bool" where
  "windows_bounded p db \<longleftrightarrow>
     (\<forall>tid r. t_get (task_continuity db) tid = Some r \<longrightarrow> c_attempts r \<le> max_route_attempts p)"

lemma ensure_window_get:
  "ensure_window now tid db = Inr db' \<Longrightarrow>
   t_get (task_continuity db') i = (if i = tid \<and> t_get (task_continuity db) tid = None then Some (new_window now)
     else t_get (task_continuity db) i)"
  by (auto simp: ensure_window_def t_ins_ignore_def t_get_snoc_new split: if_splits)

lemma reserve_bounded:
  assumes "reserve p now x tid db = Inr (t, db')" "windows_bounded p db" "1 \<le> max_route_attempts p"
  shows "windows_bounded p db'"
  using assms
  by (auto simp: reserve_def rbind_eq_Inr of_opt_eq_Inr windows_bounded_def t_get_upd new_window_def
      ensure_window_get split: if_splits)

lemma reserve_denied:
  assumes "reserve p now x tid db = Inr (Some t, db')" 
  shows "\<exists>r. t_get (task_continuity db') tid = Some r \<and> t = c_window_start r + window_s p \<and> now < t
     \<and> max_route_attempts p \<le> c_attempts r"
  using assms by (auto simp: reserve_def rbind_eq_Inr of_opt_eq_Inr split: if_splits)

lemma reserve_granted:
  assumes "reserve p now x tid db = Inr (None, db')" "t_get (task_continuity db) tid = Some r"
  shows "\<exists>r'. t_get (task_continuity db') tid = Some r' \<and>
     (if c_window_start r + window_s p \<le> now then c_window_start r' = now \<and> c_attempts r' = 1
      else c_window_start r' = c_window_start r \<and> c_attempts r < max_route_attempts p
           \<and> c_attempts r' = Suc (c_attempts r))"
proof -
  from assms obtain db1 where e: "ensure_window now tid db = Inr db1"
    and 2: "(if c_window_start r + window_s p \<le> now
       then Inr (None, upd_window tid (\<lambda>r. r\<lparr>c_attempts := Suc (c_attempts r)\<rparr>)
                         (upd_window tid (\<lambda>r. r\<lparr>c_window_start := now, c_attempts := 0\<rparr>) db1))
       else if max_route_attempts p \<le> c_attempts r
       then Inr (Some (c_window_start r + window_s p), db1)
       else Inr (None, upd_window tid (\<lambda>r. r\<lparr>c_attempts := Suc (c_attempts r)\<rparr>) db1)) = (Inr (None, db') :: (rat option \<times> db) result)"
    by (auto simp: reserve_def rbind_eq_Inr of_opt_eq_Inr ensure_window_get)
  show ?thesis
    using 2 assms(2) ensure_window_get [OF e, of tid]
    by (cases "c_window_start r + window_s p \<le> now") (auto split: if_splits)
qed

end
