(* ===== verification/Ledger_Machine.thy ===== *)
theory Ledger_Machine imports Task_Queue Approvals Continuity_Store begin

text \<open>
  The ledger as a machine. Every method that writes the database is a rule of \<open>ledger_step\<close>, with
  whatever arguments, clock and lease its transaction has and whatever file system it finds; an operation that fails rolls back and
  is no step. \<open>repair_step\<close> adds the trusted reconciliation. The workers, the brokers and the user
  are nothing but sequences of these steps, in any interleaving: SQLite runs one writing
  transaction at a time.
\<close>

section \<open>Steps\<close>

inductive ledger_step :: "pylib \<Rightarrow> db \<Rightarrow> db \<Rightarrow> bool" for L where
  Create: "create_task x tk acc db = Inr (r, db') \<Longrightarrow> ledger_step L db db'"
| Transition: "transition L F x tid tgt step md db = Inr (r, db') \<Longrightarrow> ledger_step L db db'"
| Checkpoint: "checkpoint_task x tid step st db = Inr (r, db') \<Longrightarrow> ledger_step L db db'"
| Set_Route: "set_route x d db = Inr (r, db') \<Longrightarrow> ledger_step L db db'"
| Add_Artifact: "add_artifact x a db = Inr (r, db') \<Longrightarrow> ledger_step L db db'"
| Bind: "bind_acceptance tid c db = Inr db' \<Longrightarrow> ledger_step L db db'"
| Observations: "record_observations dump x tid ob db = Inr db' \<Longrightarrow> ledger_step L db db'"
| Final_Evidence: "record_final_evidence L F x tid aid db = Inr db' \<Longrightarrow> ledger_step L db db'"
| Check_Acceptance: "verify_persistent_acceptance L F x tid db = Inr (ar, db') \<Longrightarrow> ledger_step L db db'"
| Tool_Outcome: "record_tool_outcome x tid td ts sid db = Inr db' \<Longrightarrow> ledger_step L db db'"
| Prepare: "prepare_step L x sid tid tool ver args key db = Inr (s, db') \<Longrightarrow> ledger_step L db db'"
| Claim_Step: "claim_step L F x tid sid db = Inr db' \<Longrightarrow> ledger_step L db db'"
| Finish: "finish_step L F x tid sid res db = Inr (s, db') \<Longrightarrow> ledger_step L db db'"
| Uncertain: "mark_uncertain x tid sid err db = Inr db' \<Longrightarrow> ledger_step L db db'"
| Submit: "submit L pj x tk plan db = Inr (r, db') \<Longrightarrow> ledger_step L db db'"
| Cancel: "cancel x tid db = Inr db' \<Longrightarrow> ledger_step L db db'"
| Recover: "recover_expired x db = Inr (n, db') \<Longrightarrow> ledger_step L db db'"
| Claim: "claim x w d db = Inr (l, db') \<Longrightarrow> ledger_step L db db'"
| Heartbeat: "heartbeat x now2 ls d db = Inr db' \<Longrightarrow> ledger_step L db db'"
| Advance: "advance x ls i db = Inr db' \<Longrightarrow> ledger_step L db db'"
| Release: "release x ls b ra db = Inr db' \<Longrightarrow> ledger_step L db db'"
| Retry: "retry x now2 tid d db = Inr db' \<Longrightarrow> ledger_step L db db'"
| Request: "request L apid token tid act tgt ph db = Inr (apt, db') \<Longrightarrow> ledger_step L db db'"
| Decide: "decide L x apid token ph actor ok db = Inr (ap, db') \<Longrightarrow> ledger_step L db db'"
| Consume: "consume_action apid tid h db = Inr db' \<Longrightarrow> ledger_step L db db'"
| Observe: "observe now x b bst cd rsn t db = Inr db' \<Longrightarrow> ledger_step L db db'"
| Event: "continuity_event x tk e m db = Inr db' \<Longrightarrow> ledger_step L db db'"
| Reserve: "reserve p now x tid db = Inr (t', db') \<Longrightarrow> ledger_step L db db'"
| Outcome: "outcome now now2 x tk dp rs ra' db = Inr db' \<Longrightarrow> ledger_step L db db'"

inductive repair_step :: "pylib \<Rightarrow> db \<Rightarrow> db \<Rightarrow> bool" for L where
  Ordinary: "ledger_step L db db' \<Longrightarrow> repair_step L db db'"
| Reconcile: "reconcile_step L F x tid sid aid actor stopped db = Inr (s, db') \<Longrightarrow> repair_step L db db'"

section \<open>What the operations leave alone\<close>

lemma create_task_frame:
  "create_task x tk acc db = Inr (r, db') \<Longrightarrow>
   task_queue db' = task_queue db \<and> execution_steps db' = execution_steps db \<and> approvals db' = approvals db"
  by (auto simp: create_task_def rbind_eq_Inr add_event_Inr)

lemma transition_frame:
  "transition L F x tid tgt st md db = Inr (r, db') \<Longrightarrow>
   task_queue db' = task_queue db \<and> execution_steps db' = execution_steps db \<and> approvals db' = approvals db"
  by (erule transition_cases) (auto simp: add_event_Inr)

lemma checkpoint_frame:
  "checkpoint_task x tid st state db = Inr (r, db') \<Longrightarrow>
   task_queue db' = task_queue db \<and> execution_steps db' = execution_steps db \<and> approvals db' = approvals db"
  by (erule checkpoint_shape) (auto simp: add_event_Inr)

lemma set_route_frame:
  "set_route x d db = Inr (r, db') \<Longrightarrow>
   task_queue db' = task_queue db \<and> execution_steps db' = execution_steps db \<and> approvals db' = approvals db"
  by (erule set_route_shape) (auto simp: add_event_Inr)

lemma add_artifact_frame:
  "add_artifact x a db = Inr (r, db') \<Longrightarrow>
   task_queue db' = task_queue db \<and> execution_steps db' = execution_steps db \<and> approvals db' = approvals db"
  by (erule add_artifact_shape) (auto simp: add_event_Inr)

lemmas task_ops_frame = create_task_frame transition_frame checkpoint_frame set_route_frame add_artifact_frame

lemma acceptance_ops_frame:
  "bind_acceptance tid c db = Inr db' \<Longrightarrow> task_queue db' = task_queue db \<and> execution_steps db' = execution_steps db \<and> approvals db' = approvals db"
  "record_observations dump x tid ob db = Inr db' \<Longrightarrow> task_queue db' = task_queue db \<and> execution_steps db' = execution_steps db \<and> approvals db' = approvals db"
  "record_final_evidence L F x tid aid db = Inr db' \<Longrightarrow> task_queue db' = task_queue db \<and> execution_steps db' = execution_steps db \<and> approvals db' = approvals db"
  "verify_persistent_acceptance L F x tid db = Inr (ar, db') \<Longrightarrow> task_queue db' = task_queue db \<and> execution_steps db' = execution_steps db \<and> approvals db' = approvals db"
  "record_tool_outcome x tid d s sid db = Inr db' \<Longrightarrow> task_queue db' = task_queue db \<and> execution_steps db' = execution_steps db \<and> approvals db' = approvals db"
  by (auto simp: bind_acceptance_def record_observations_def record_final_evidence_def
      verify_persistent_acceptance_def record_tool_outcome_def result_simps add_event_Inr split: if_splits)

lemma approval_ops_frame:
  "request L apid token tid act tgt ph db = Inr (apt, db') \<Longrightarrow> tasks db' = tasks db \<and> task_queue db' = task_queue db \<and> execution_steps db' = execution_steps db"
  "decide L x apid token ph actor ok db = Inr (ap, db') \<Longrightarrow> tasks db' = tasks db \<and> task_queue db' = task_queue db \<and> execution_steps db' = execution_steps db"
  "consume_action apid tid h db = Inr db' \<Longrightarrow> tasks db' = tasks db \<and> task_queue db' = task_queue db \<and> execution_steps db' = execution_steps db"
  by (auto simp: request_def decide_def consume_action_def Let_def rbind_eq_Inr split: option.splits if_splits)

lemma prepare_approvals: "prepare_step L x sid tid tool ver args key db = Inr (s, db') \<Longrightarrow> approvals db' = approvals db"
  by (auto simp: prepare_step_def Let_def rbind_eq_Inr add_event_Inr split: option.splits if_splits)

lemma claim_step_approvals: "claim_step L F x tid sid db = Inr db' \<Longrightarrow> approvals db' = approvals db"
  by (auto simp: claim_step_def rbind_eq_Inr add_event_Inr)

lemma finish_step_approvals: "finish_step L F x tid sid res db = Inr (s, db') \<Longrightarrow> approvals db' = approvals db"
  by (auto simp: finish_step_def rbind_eq_Inr add_event_Inr)

lemma uncertain_approvals: "mark_uncertain x tid sid err db = Inr db' \<Longrightarrow> approvals db' = approvals db"
  by (auto simp: mark_uncertain_def rbind_eq_Inr add_event_Inr split: if_splits)

lemmas step_ops_approvals = prepare_approvals claim_step_approvals finish_step_approvals uncertain_approvals

lemma cancel_task_approvals: "cancel_task x tk db = Inr (tk', db') \<Longrightarrow> approvals db' = approvals db"
  by (auto simp: cancel_task_def rbind_eq_Inr add_event_Inr Let_def)

lemma submit_approvals: "submit L pj x tk plan db = Inr (r, db') \<Longrightarrow> approvals db' = approvals db"
  by (auto simp: submit_def rbind_eq_Inr add_event_Inr Let_def split: if_splits)

lemma claim_approvals: "claim x w d db = Inr (l, db') \<Longrightarrow> approvals db' = approvals db"
  by (auto simp: claim_def rbind_eq_Inr queue_event_Inr Let_def split: option.splits)

lemma holder_approvals:
  "heartbeat x now2 ls d db = Inr db' \<Longrightarrow> approvals db' = approvals db"
  "advance x ls i db = Inr db' \<Longrightarrow> approvals db' = approvals db"
  "retry x now2 tid d db = Inr db' \<Longrightarrow> approvals db' = approvals db"
  by (auto simp: heartbeat_def advance_def retry_def rbind_eq_Inr queue_event_Inr split: if_splits)

lemma cancel_approvals: "cancel x tid db = Inr db' \<Longrightarrow> approvals db' = approvals db"
  unfolding cancel_def Let_def
  by (auto elim!: rbindE dest!: queue_event_frame(5) cancel_task_approvals split: if_split_asm)

lemma release_approvals: "release x ls b ra db = Inr db' \<Longrightarrow> approvals db' = approvals db"
  by (erule release_shape)

lemma recover_row_approvals: "recover_row x kr db = Inr db' \<Longrightarrow> approvals db' = approvals db"
  by (auto simp: recover_row_def mark_started_uncertain_def rbind_eq_Inr queue_event_Inr Let_def
      dest: cancel_task_approvals split: if_splits)

lemma recover_approvals: "recover_expired x db = Inr (n, db') \<Longrightarrow> approvals db' = approvals db"
proof -
  have "recover_rows x krs db = Inr db' \<Longrightarrow> approvals db' = approvals db" for krs db db'
    by (induction krs arbitrary: db) (auto elim!: rbindE dest: recover_row_approvals)
  then show "recover_expired x db = Inr (n, db') \<Longrightarrow> approvals db' = approvals db"
    by (auto simp: recover_expired_def Let_def elim!: rbindE)
qed

lemmas queue_ops_approvals = submit_approvals claim_approvals holder_approvals cancel_approvals
  release_approvals recover_approvals

section \<open>Statuses: only a transition moves a task, but for cancellation\<close>

lemma only_cancels_status:
  assumes "evolves db db'"
    and "tasks_keyed db \<Longrightarrow> (\<And>tid s. status_of db tid = Some s \<Longrightarrow> status_of db' tid = Some s)"
  shows "only_cancels db db'"
  using assms unfolding only_cancels_def evolves_def by blast

lemma only_cancels_put:
  assumes "tasks db' = tasks (put_task tid tk' db)" "task_of db tid = Some tk"
    and "task_id tk' = task_id tk" "status tk' = status tk"
  shows "only_cancels db db'"
proof (rule only_cancels_status)
  show "evolves db db'" using assms(4) by (intro evolves_put [OF assms(1-3)]) simp
  show "status_of db' i = Some s" if "status_of db i = Some s" for i s
    using that assms(2,4) task_of_cong [OF assms(1)] by (auto simp: status_of_eq)
qed

lemma only_cancels_put_id:
  assumes "tasks db' = tasks (put_task (task_id tk') tk' db1)" "tasks db1 = tasks db"
    and "task_of db tid = Some tk" "task_id tk' = task_id tk" "status tk' = status tk"
  shows "only_cancels db db'"
proof (cases "tasks_keyed db")
  case True
  with assms(3,4) have "task_id tk' = tid" by (auto simp: tasks_keyed_def)
  then have "tasks db' = tasks (put_task tid tk' db)" using assms(1,2) by (simp add: put_task_def)
  then show ?thesis using assms(3-5) by (rule only_cancels_put)
qed (simp add: only_cancels_def)

lemma only_cancels_insert:
  assumes "t_get (tasks db) tid = None" "task_id (tr_task r) = tid" "tasks db' = tasks db @ [(tid, r)]"
  shows "only_cancels db db'"
proof (rule only_cancels_status)
  show "evolves db db'" using assms by (rule evolves_insert)
  show "status_of db' i = Some s" if "status_of db i = Some s" for i s
    using that assms by (auto simp: status_of_def task_of_def t_get_snoc_new)
qed

lemma only_cancels_then_same:
  assumes "only_cancels db db1" "tasks db2 = tasks db1"
  shows "only_cancels db db2"
  using only_cancels_trans [OF assms(1) only_cancels_same [OF assms(2)]] .

lemma create_cancels: "create_task x tk acc db = Inr (r, db') \<Longrightarrow> only_cancels db db'"
  by (rule only_cancels_insert [OF create_task_shape(2) _ create_task_shape(3)]) auto

lemma submit_cancels: "submit L pj x tk plan db = Inr (tk', db') \<Longrightarrow> only_cancels db db'"
  by (rule only_cancels_insert [OF submit_shape(6) _ submit_shape(8)]) auto

lemma checkpoint_cancels: "checkpoint_task x tid step st db = Inr (tk, db') \<Longrightarrow> only_cancels db db'"
  by (erule checkpoint_shape, drule add_event_frame(1), erule only_cancels_put) auto

lemma set_route_cancels: "set_route x d db = Inr (tk, db') \<Longrightarrow> only_cancels db db'"
  by (erule set_route_shape, drule add_event_frame(1), erule only_cancels_put_id) auto

lemma add_artifact_cancels: "add_artifact x a db = Inr (tk, db') \<Longrightarrow> only_cancels db db'"
  by (erule add_artifact_shape, drule add_event_frame(1), erule only_cancels_put_id) auto

lemma release_cancels:
  assumes "release x l b ra db = Inr db'"
  shows "only_cancels db db'"
  using assms
proof (rule release_shape)
  fix row tk tk'
  assume a: "task_of db (l_task_id l) = Some tk"
    "if q_cancel_requested row \<and> \<not> terminal (status tk)
     then \<exists>db1. cancel_task x tk db = Inr (tk', db1) \<and> tasks db' = tasks db1
     else tk' = tk \<and> tasks db' = tasks db"
  show ?thesis
  proof (cases "q_cancel_requested row \<and> \<not> terminal (status tk)")
    case True
    with a obtain db1 where "cancel_task x tk db = Inr (tk', db1)" "tasks db' = tasks db1" by auto
    with a(1) show ?thesis using only_cancels_cancel by blast
  qed (use a(2) in \<open>auto intro: only_cancels_same\<close>)
qed

lemma cancel_cancels:
  assumes "cancel x tid db = Inr db'"
  shows "only_cancels db db'"
  using assms
proof (rule cancel_shape)
  fix tk tk' db1
  let ?db = "upd_queue tid (\<lambda>r. r\<lparr>q_cancel_requested := True\<rparr>) db"
  assume a: "task_of db tid = Some tk" "cancel_task x tk ?db = Inr (tk', db1)" "tasks db' = tasks db1"
  have "task_of ?db tid = Some tk" using a(1) by (simp add: task_of_def)
  from only_cancels_cancel [OF a(2) this a(3)] have "only_cancels ?db db'" .
  with only_cancels_same [of ?db db] show ?thesis by (auto intro: only_cancels_trans)
qed (auto intro: only_cancels_same)

lemma recover_cancels:
  assumes "recover_expired x db = Inr (n, db')"
  shows "only_cancels db db'"
  using assms recover_rows_all by (auto simp: recover_expired_def Let_def elim!: rbindE)

lemma step_ops_tasks:
  "prepare_step L x sid tid tool ver args key db = Inr (s, db') \<Longrightarrow> tasks db' = tasks db"
  "claim_step L F x tid sid db = Inr db' \<Longrightarrow> tasks db' = tasks db"
  "finish_step L F x tid sid res db = Inr (s, db') \<Longrightarrow> tasks db' = tasks db"
  "mark_uncertain x tid sid err db = Inr db' \<Longrightarrow> tasks db' = tasks db"
  "reconcile_step L F x tid sid aid actor stopped db = Inr (s, db') \<Longrightarrow> tasks db' = tasks db"
  by (auto elim: prepare_step_shape claim_step_shape finish_step_shape reconcile_step_shape dest: mark_uncertain_shape)

lemma claim_tasks: "claim x w d db = Inr (l, db') \<Longrightarrow> tasks db' = tasks db \<and> execution_steps db' = execution_steps db"
  by (cases l) (auto elim: claim_shape dest: claim_none)

lemma queue_ops_tasks:
  "heartbeat x now2 ls d db = Inr db' \<Longrightarrow> tasks db' = tasks db \<and> execution_steps db' = execution_steps db"
  "advance x ls i db = Inr db' \<Longrightarrow> tasks db' = tasks db \<and> execution_steps db' = execution_steps db"
  "retry x now2 tid d db = Inr db' \<Longrightarrow> tasks db' = tasks db \<and> execution_steps db' = execution_steps db"
  by (auto elim: heartbeat_shape advance_shape retry_shape)

lemmas same_tasks = acceptance_ops_tasks step_ops_tasks claim_tasks [THEN conjunct1]
  queue_ops_tasks [THEN conjunct1] approval_ops_frame [THEN conjunct1] continuity_frame [THEN conjunct1]

lemmas status_facts = create_cancels submit_cancels checkpoint_cancels set_route_cancels add_artifact_cancels
  release_cancels cancel_cancels recover_cancels same_tasks [THEN only_cancels_same]

lemma ledger_step_status:
  assumes "ledger_step L db db'"
  obtains "only_cancels db db'"
  | F x tid tgt step md r where "transition L F x tid tgt step md db = Inr (r, db')"
  using assms by cases (blast dest: status_facts intro: that)+

lemma repair_step_status:
  assumes "repair_step L db db'"
  obtains "only_cancels db db'"
  | F x tid tgt step md r where "transition L F x tid tgt step md db = Inr (r, db')"
  using assms by cases (blast dest: status_facts intro: that elim: ledger_step_status)+

section \<open>Queue, journal and approvals\<close>

lemmas same_queue = task_ops_frame [THEN conjunct1] acceptance_ops_frame [THEN conjunct1]
  approval_ops_frame [THEN conjunct2, THEN conjunct1] continuity_frame [THEN conjunct2, THEN conjunct1]

lemma step_ops_queue:
  "prepare_step L x sid tid tool ver args key db = Inr (s, db') \<Longrightarrow> task_queue db' = task_queue db"
  "claim_step L F x tid sid db = Inr db' \<Longrightarrow> task_queue db' = task_queue db"
  "finish_step L F x tid sid res db = Inr (s, db') \<Longrightarrow> task_queue db' = task_queue db"
  "mark_uncertain x tid sid err db = Inr db' \<Longrightarrow> task_queue db' = task_queue db"
  "reconcile_step L F x tid sid aid actor stopped db = Inr (s, db') \<Longrightarrow> task_queue db' = task_queue db"
  by (auto elim: prepare_step_shape claim_step_shape finish_step_shape reconcile_step_shape dest: mark_uncertain_shape)

lemmas queue_facts = submit_queue claim_queue heartbeat_queue advance_queue retry_queue release_queue cancel_queue
  recover_expired_all(2) same_queue [THEN queue_moves_same] step_ops_queue [THEN queue_moves_same]

lemma ledger_step_queue: "ledger_step L db db' \<Longrightarrow> t_wf (task_queue db) \<Longrightarrow> queue_moves db db'"
  by (erule ledger_step.cases) (blast dest: queue_facts)+

lemma repair_step_queue: "repair_step L db db' \<Longrightarrow> t_wf (task_queue db) \<Longrightarrow> queue_moves db db'"
  by (erule repair_step.cases) (blast dest: ledger_step_queue queue_facts)+

lemma same_journal:
  "submit L pj x tk plan db = Inr (r, db') \<Longrightarrow> execution_steps db' = execution_steps db"
  "release x ls b ra db = Inr db' \<Longrightarrow> execution_steps db' = execution_steps db"
  "cancel x tid db = Inr db' \<Longrightarrow> execution_steps db' = execution_steps db"
  by (auto dest: submit_shape elim: release_shape cancel_shape)

lemmas same_journals = same_journal task_ops_frame [THEN conjunct2, THEN conjunct1]
  acceptance_ops_frame [THEN conjunct2, THEN conjunct1] approval_ops_frame [THEN conjunct2, THEN conjunct2]
  continuity_frame [THEN conjunct2, THEN conjunct2, THEN conjunct1] claim_tasks [THEN conjunct2]
  queue_ops_tasks [THEN conjunct2]

lemmas journal_facts = prepare_step_moves claim_step_moves finish_step_moves mark_uncertain_cases [THEN conjunct1]
  recover_expired_all(3) same_journals [THEN journal_moves_same]

lemma ledger_step_journal: "ledger_step L db db' \<Longrightarrow> journal_moves db db'"
  by (erule ledger_step.cases) (blast dest: journal_facts)+

lemma same_journal_ok: "execution_steps db' = execution_steps db \<Longrightarrow> journal_ok L db \<Longrightarrow> journal_ok L db'"
  by (simp add: journal_ok_def keys_unique_def)

lemmas journal_ok_facts = prepare_step_ok claim_step_ok finish_step_ok
  mark_uncertain_cases [THEN conjunct2, THEN mp] recover_expired_all(4) same_journals [THEN same_journal_ok]

lemma ledger_step_journal_ok: "ledger_step L db db' \<Longrightarrow> journal_ok L db \<Longrightarrow> journal_ok L db'"
  by (erule ledger_step.cases) (blast dest: journal_ok_facts)+

lemma repair_step_journal_ok: "repair_step L db db' \<Longrightarrow> journal_ok L db \<Longrightarrow> journal_ok L db'"
  by (erule repair_step.cases) (blast dest: ledger_step_journal_ok reconcile_step_ok)+

lemma reconcile_approvals: "reconcile_step L F x tid sid aid actor stopped db = Inr (s, db') \<Longrightarrow> approvals db' = approvals db"
  by (erule reconcile_step_shape)

lemmas approval_facts = decide_moves consume_moves
  task_ops_frame [THEN conjunct2, THEN conjunct2, THEN approvals_move_same]
  acceptance_ops_frame [THEN conjunct2, THEN conjunct2, THEN approvals_move_same]
  step_ops_approvals [THEN approvals_move_same] queue_ops_approvals [THEN approvals_move_same]
  reconcile_approvals [THEN approvals_move_same]
  continuity_frame [THEN conjunct2, THEN conjunct2, THEN conjunct2, THEN conjunct1, THEN approvals_move_same]

lemma request_moves': "request L apid token tid act tgt ph db = Inr (apt, db') \<Longrightarrow> approvals_move db db'"
  by (cases apt) (auto intro: request_moves)

lemma ledger_step_approvals: "ledger_step L db db' \<Longrightarrow> approvals_move db db'"
  by (erule ledger_step.cases) (blast dest: approval_facts request_moves')+

lemma repair_step_approvals: "repair_step L db db' \<Longrightarrow> approvals_move db db'"
  by (erule repair_step.cases) (blast dest: ledger_step_approvals approval_facts)+

lemma ledger_repair: "(ledger_step L)\<^sup>*\<^sup>* db db' \<Longrightarrow> (repair_step L)\<^sup>*\<^sup>* db db'"
  by (erule rtranclp_mono [THEN predicate2D, rotated]) (blast intro: Ordinary)

section \<open>Histories\<close>

text \<open>
  The contract every history argument uses: steps that keep an invariant and stay within a
  reflexive, transitive relation. Its runs then keep the invariant and stay within the relation.
\<close>

locale history =
  fixes step :: "'s \<Rightarrow> 's \<Rightarrow> bool" and inv :: "'s \<Rightarrow> bool" and rel :: "'s \<Rightarrow> 's \<Rightarrow> bool"
  assumes keeps: "step s t \<Longrightarrow> inv s \<Longrightarrow> inv t \<and> rel s t"
    and rel_refl: "rel s s"
    and rel_trans: "rel s t \<Longrightarrow> rel t u \<Longrightarrow> rel s u"
begin

lemma run: "step\<^sup>*\<^sup>* s t \<Longrightarrow> inv s \<Longrightarrow> inv t \<and> rel s t"
  by (induction rule: rtranclp_induct) (blast intro: rel_refl dest: keeps rel_trans)+

lemma run_inv: "step\<^sup>*\<^sup>* s t \<Longrightarrow> inv s \<Longrightarrow> inv t"
  by (blast dest: run)

lemma run_rel: "step\<^sup>*\<^sup>* s t \<Longrightarrow> inv s \<Longrightarrow> rel s t"
  by (blast dest: run)

end

text \<open>What the statuses can do over a whole history: follow the transitions.\<close>

definition status_reach :: "task_status \<Rightarrow> task_status \<Rightarrow> bool" where
  "status_reach = (\<lambda>a b. b \<in> set (TRANSITIONS a))\<^sup>*\<^sup>*"

definition status_path :: "db \<Rightarrow> db \<Rightarrow> bool" where
  "status_path db db' \<longleftrightarrow>
     (\<forall>tid s. status_of db tid = Some s \<longrightarrow> (\<exists>s'. status_of db' tid = Some s' \<and> status_reach s s'))"

lemma status_path_refl: "status_path db db"
  by (simp add: status_path_def status_reach_def)

lemma status_path_trans: "status_path a b \<Longrightarrow> status_path b c \<Longrightarrow> status_path a c"
  unfolding status_path_def status_reach_def by (meson rtranclp_trans)

lemma status_moves_path: "status_moves a b \<Longrightarrow> status_path a b"
  unfolding status_moves_def status_path_def status_reach_def by blast

lemma repair_step_evolves: "repair_step L db db' \<Longrightarrow> evolves db db'"
  by (erule repair_step_status) (auto intro: only_cancels_evolves transition_evolves)

lemma terminal_reach: "status_reach s s' \<Longrightarrow> terminal s \<Longrightarrow> s' = s"
  unfolding status_reach_def by (induction rule: rtranclp_induct) (auto simp: TRANSITIONS_terminal [symmetric])

definition approval_reach :: "approval_status \<Rightarrow> approval_status \<Rightarrow> bool" where
  "approval_reach = (\<lambda>a b. b \<in> set (approval_next a))\<^sup>*\<^sup>*"

definition approval_path :: "db \<Rightarrow> db \<Rightarrow> bool" where
  "approval_path db db' \<longleftrightarrow>
     (\<forall>i r. t_get (approvals db) i = Some r \<longrightarrow>
        (\<exists>r'. t_get (approvals db') i = Some r' \<and> same_binding r r' \<and> approval_reach (row_status r) (row_status r')))"

lemma same_binding_trans: "same_binding a b \<Longrightarrow> same_binding b c \<Longrightarrow> same_binding a c"
  by (simp add: same_binding_def)

lemma approval_path_trans: "approval_path a b \<Longrightarrow> approval_path b c \<Longrightarrow> approval_path a c"
  unfolding approval_path_def approval_reach_def by (meson rtranclp_trans same_binding_trans)

lemma approvals_move_path: "approvals_move a b \<Longrightarrow> approvals_ok a \<Longrightarrow> approval_path a b"
  unfolding approvals_move_def approvals_ok_def approval_moves_def approval_path_def approval_reach_def
  by (metis (no_types, lifting) r_into_rtranclp rtranclp.rtrancl_refl)

interpretation statuses: history "repair_step L" tasks_keyed status_path
  by unfold_locales
     (auto intro: status_path_refl status_path_trans status_moves_path dest!: repair_step_evolves simp: evolves_def)

lemma queue_moves_wf: "queue_moves db db' \<Longrightarrow> t_wf (task_queue db) \<Longrightarrow> t_wf (task_queue db')"
  unfolding queue_moves_def by blast

interpretation queues: history "repair_step L" "\<lambda>db. t_wf (task_queue db) \<and> leases_dated db" queue_moves
  by unfold_locales (auto intro: queue_moves_trans dest: repair_step_queue queue_moves_wf queue_moves_dated)

interpretation journal: history "repair_step L" "journal_ok L" "\<lambda>_ _. True"
  by unfold_locales (auto dest: repair_step_journal_ok)

interpretation claims: history "ledger_step L" "\<lambda>_. True" journal_moves
  by unfold_locales (auto intro: journal_moves_trans dest: ledger_step_journal)

interpretation grants: history "repair_step L" approvals_ok approval_path
proof unfold_locales
  show "repair_step L s t \<Longrightarrow> approvals_ok s \<Longrightarrow> approvals_ok t \<and> approval_path s t" for s t
    using repair_step_approvals approvals_move_ok approvals_move_path by blast
  show "approval_path s s" for s
    by (simp add: approval_path_def approval_reach_def same_binding_def)
qed (rule approval_path_trans)

end
