(* ===== verification/Ledger_Examples.thy ===== *)
theory Ledger_Examples imports Ledger_Machine begin

text \<open>
  A concrete history of the ledger, evaluated by the kernel: one direct task that is created,
  planned and run with one journalled step, one queued task that is submitted, claimed, lost and
  claimed again, and one approval. The witnesses of the properties apply them to these states.
\<close>

section \<open>Surroundings\<close>

text \<open>A hash that is the identity and a file system with no file: the simplest instances of the two.\<close>

definition ex_lib :: pylib where
  "ex_lib = \<lparr>sha256 = (\<lambda>s. s), float_repr = toy_repr, json_loads = (\<lambda>_. None)\<rparr>"

definition ex_fs :: fsys where
  "ex_fs = \<lparr>file_bytes = (\<lambda>_. None), resolve = Inr, is_link = (\<lambda>_. False)\<rparr>"

definition ex_tx :: "rat \<Rightarrow> lease option \<Rightarrow> tx" where
  "ex_tx now owner = \<lparr>tx_now = now, tx_stamp = ''2026-01-01'', tx_owner = owner\<rparr>"

definition ex_task :: "string \<Rightarrow> task" where
  "ex_task tid =
     \<lparr>task_id = tid, created_at = ''2026-01-01'', updated_at = ''2026-01-01'', status = CREATED, goal = ''goal'',
      privacy_class = INTERNAL, selected_route = None, workspace = ''/w'', attempts = 0,
      current_step = None, errors = [], task_artifacts = [],
      approval_state = ''not_required'', trace_id = ''trc'', checkpoint = []\<rparr>"

definition ex_plan :: execution_plan where
  "ex_plan = \<lparr>plan_actions = [\<lparr>act_tool_id = ''tool'', act_version = ''1'', act_arguments = [],
     act_approval_id = None, act_plan_hash = []\<rparr>], plan_acceptance = empty_contract\<rparr>"

definition plan_text :: "execution_plan \<Rightarrow> string" where
  "plan_text p = ''plan''"

text \<open>The state an operation leaves, and the start again when it fails.\<close>

definition after :: "('a \<times> db) result \<Rightarrow> db" where
  "after r = (case r of Inl _ \<Rightarrow> empty_db | Inr (_, db) \<Rightarrow> db)"

definition after_db :: "db result \<Rightarrow> db" where
  "after_db r = (case r of Inl _ \<Rightarrow> empty_db | Inr db \<Rightarrow> db)"

lemma after_ok: "is_ok r \<Longrightarrow> \<exists>a. r = Inr (a, after r)"
  by (auto simp: is_ok_iff after_def split: prod.splits)

lemma after_db_ok: "is_ok r \<Longrightarrow> r = Inr (after_db r)"
  by (auto simp: is_ok_iff after_db_def)

definition holds :: "'a option \<Rightarrow> ('a \<Rightarrow> bool) \<Rightarrow> bool" where
  "holds m P = (case m of None \<Rightarrow> False | Some a \<Rightarrow> P a)"

lemma holdsE: "holds m P \<Longrightarrow> (\<And>a. m = Some a \<Longrightarrow> P a \<Longrightarrow> thesis) \<Longrightarrow> thesis"
  by (auto simp: holds_def split: option.splits)

section \<open>A direct task and its step\<close>

definition ex_created :: db where
  "ex_created = after (create_task (ex_tx 0 None) (ex_task ''a'') None empty_db)"

definition ex_planned :: db where
  "ex_planned = after (transition ex_lib ex_fs (ex_tx 0 None) ''a'' PLANNED None [] ex_created)"

definition ex_running :: db where
  "ex_running = after (transition ex_lib ex_fs (ex_tx 0 None) ''a'' RUNNING None [] ex_planned)"

definition ex_intent :: db where
  "ex_intent = after (prepare_step ex_lib (ex_tx 0 None) ''s'' ''a'' ''tool'' ''1'' [] None ex_running)"

definition ex_started :: db where
  "ex_started = after_db (claim_step ex_lib ex_fs (ex_tx 0 None) ''a'' ''s'' ex_intent)"

definition ex_finished :: db where
  "ex_finished = after (finish_step ex_lib ex_fs (ex_tx 0 None) ''a'' ''s'' [(KStr ''ok'', PBool True)] ex_started)"

definition ex_verifying :: db where
  "ex_verifying = after (transition ex_lib ex_fs (ex_tx 0 None) ''a'' VERIFYING None [] ex_finished)"

definition ex_completed :: db where
  "ex_completed = after (transition ex_lib ex_fs (ex_tx 0 None) ''a'' COMPLETED None [] ex_verifying)"

lemma ex_direct_ok:
  "is_ok (create_task (ex_tx 0 None) (ex_task ''a'') None empty_db)"
  "is_ok (transition ex_lib ex_fs (ex_tx 0 None) ''a'' PLANNED None [] ex_created)"
  "is_ok (transition ex_lib ex_fs (ex_tx 0 None) ''a'' RUNNING None [] ex_planned)"
  "is_ok (prepare_step ex_lib (ex_tx 0 None) ''s'' ''a'' ''tool'' ''1'' [] None ex_running)"
  "is_ok (claim_step ex_lib ex_fs (ex_tx 0 None) ''a'' ''s'' ex_intent)"
  "is_ok (finish_step ex_lib ex_fs (ex_tx 0 None) ''a'' ''s'' [(KStr ''ok'', PBool True)] ex_started)"
  "is_ok (transition ex_lib ex_fs (ex_tx 0 None) ''a'' VERIFYING None [] ex_finished)"
  "is_ok (transition ex_lib ex_fs (ex_tx 0 None) ''a'' COMPLETED None [] ex_verifying)"
  by code_simp+

lemma ex_direct_run: "(ledger_step ex_lib)\<^sup>*\<^sup>* empty_db ex_completed"
  "(ledger_step ex_lib)\<^sup>*\<^sup>* empty_db ex_intent" "(ledger_step ex_lib)\<^sup>*\<^sup>* ex_intent ex_completed"
  "(ledger_step ex_lib)\<^sup>*\<^sup>* empty_db ex_verifying" "ledger_step ex_lib ex_verifying ex_completed"
  "(ledger_step ex_lib)\<^sup>*\<^sup>* empty_db ex_created" "(ledger_step ex_lib)\<^sup>*\<^sup>* ex_created ex_completed"
proof -
  have 1: "ledger_step ex_lib empty_db ex_created"
    using after_ok [OF ex_direct_ok(1)] unfolding ex_created_def by (blast intro: Create)
  have 2: "ledger_step ex_lib ex_created ex_planned"
    using after_ok [OF ex_direct_ok(2)] unfolding ex_planned_def by (blast intro: Transition)
  have 3: "ledger_step ex_lib ex_planned ex_running"
    using after_ok [OF ex_direct_ok(3)] unfolding ex_running_def by (blast intro: Transition)
  have 4: "ledger_step ex_lib ex_running ex_intent"
    using after_ok [OF ex_direct_ok(4)] unfolding ex_intent_def by (blast intro: Prepare)
  have 5: "ledger_step ex_lib ex_intent ex_started"
    using after_db_ok [OF ex_direct_ok(5)] unfolding ex_started_def by (blast intro: Claim_Step)
  have 6: "ledger_step ex_lib ex_started ex_finished"
    using after_ok [OF ex_direct_ok(6)] unfolding ex_finished_def by (blast intro: Finish)
  have 7: "ledger_step ex_lib ex_finished ex_verifying"
    using after_ok [OF ex_direct_ok(7)] unfolding ex_verifying_def by (blast intro: Transition)
  show 8: "ledger_step ex_lib ex_verifying ex_completed"
    using after_ok [OF ex_direct_ok(8)] unfolding ex_completed_def by (blast intro: Transition)
  show "(ledger_step ex_lib)\<^sup>*\<^sup>* ex_intent ex_completed"
    using 5 6 7 8 by (meson converse_rtranclp_into_rtranclp rtranclp.rtrancl_refl)
  show "(ledger_step ex_lib)\<^sup>*\<^sup>* empty_db ex_intent" "(ledger_step ex_lib)\<^sup>*\<^sup>* empty_db ex_created"
    using 1 2 3 4 by (meson converse_rtranclp_into_rtranclp rtranclp.rtrancl_refl)+
  show "(ledger_step ex_lib)\<^sup>*\<^sup>* empty_db ex_verifying"
    using 1 2 3 4 5 6 7 by (meson converse_rtranclp_into_rtranclp rtranclp.rtrancl_refl)
  show "(ledger_step ex_lib)\<^sup>*\<^sup>* empty_db ex_completed" "(ledger_step ex_lib)\<^sup>*\<^sup>* ex_created ex_completed"
    using 1 2 3 4 5 6 7 8 by (meson converse_rtranclp_into_rtranclp rtranclp.rtrancl_refl)+
qed

section \<open>A queued task whose first worker loses it\<close>

definition ex_lease :: "nat \<Rightarrow> lease" where
  "ex_lease g = \<lparr>l_task_id = ''q'', l_worker_id = (if g = 1 then ''w1'' else ''w2''), l_generation = g\<rparr>"

definition ex_queued :: db where
  "ex_queued = after (submit ex_lib plan_text (ex_tx 0 None) (ex_task ''q'') ex_plan empty_db)"

definition ex_claimed :: db where
  "ex_claimed = after (claim (ex_tx 1 None) ''w1'' (Fin 10) ex_queued)"

definition ex_lost :: db where
  "ex_lost = after (recover_expired (ex_tx 20 None) ex_claimed)"

definition ex_reclaimed :: db where
  "ex_reclaimed = after (claim (ex_tx 21 None) ''w2'' (Fin 10) ex_lost)"

lemma ex_queue_ok:
  "is_ok (submit ex_lib plan_text (ex_tx 0 None) (ex_task ''q'') ex_plan empty_db)"
  "is_ok (claim (ex_tx 1 None) ''w1'' (Fin 10) ex_queued)"
  "is_ok (recover_expired (ex_tx 20 None) ex_claimed)"
  "is_ok (claim (ex_tx 21 None) ''w2'' (Fin 10) ex_lost)"
  by code_simp+

lemma ex_queue_run:
  "(ledger_step ex_lib)\<^sup>*\<^sup>* empty_db ex_lost" "(ledger_step ex_lib)\<^sup>*\<^sup>* ex_lost ex_reclaimed"
  "(ledger_step ex_lib)\<^sup>*\<^sup>* empty_db ex_claimed" "(ledger_step ex_lib)\<^sup>*\<^sup>* empty_db ex_queued"
proof -
  have 1: "ledger_step ex_lib empty_db ex_queued"
    using after_ok [OF ex_queue_ok(1)] unfolding ex_queued_def by (blast intro: Submit)
  have 2: "ledger_step ex_lib ex_queued ex_claimed"
    using after_ok [OF ex_queue_ok(2)] unfolding ex_claimed_def by (blast intro: Claim)
  have 3: "ledger_step ex_lib ex_claimed ex_lost"
    using after_ok [OF ex_queue_ok(3)] unfolding ex_lost_def by (blast intro: Recover)
  have 4: "ledger_step ex_lib ex_lost ex_reclaimed"
    using after_ok [OF ex_queue_ok(4)] unfolding ex_reclaimed_def by (blast intro: Claim)
  show "(ledger_step ex_lib)\<^sup>*\<^sup>* empty_db ex_lost" "(ledger_step ex_lib)\<^sup>*\<^sup>* empty_db ex_claimed"
    "(ledger_step ex_lib)\<^sup>*\<^sup>* empty_db ex_queued"
    using 1 2 3 by (meson converse_rtranclp_into_rtranclp rtranclp.rtrancl_refl)+
  show "(ledger_step ex_lib)\<^sup>*\<^sup>* ex_lost ex_reclaimed" using 4 by blast
qed

section \<open>An approval\<close>

definition ex_requested :: db where
  "ex_requested = after (request ex_lib ''p'' ''token'' ''a'' ''tool.execute'' ''h'' ''h'' ex_running)"

definition ex_decided :: db where
  "ex_decided = after (decide ex_lib (ex_tx 0 None) ''p'' ''token'' ''h'' ''me'' True ex_requested)"

definition ex_consumed :: db where
  "ex_consumed = after_db (consume_action ''p'' ''a'' ''h'' ex_decided)"

lemma ex_approval_ok:
  "is_ok (request ex_lib ''p'' ''token'' ''a'' ''tool.execute'' ''h'' ''h'' ex_running)"
  "is_ok (decide ex_lib (ex_tx 0 None) ''p'' ''token'' ''h'' ''me'' True ex_requested)"
  "is_ok (consume_action ''p'' ''a'' ''h'' ex_decided)"
  by code_simp+

lemma ex_approval_run:
  "(ledger_step ex_lib)\<^sup>*\<^sup>* empty_db ex_requested" "(ledger_step ex_lib)\<^sup>*\<^sup>* ex_requested ex_consumed"
  "(ledger_step ex_lib)\<^sup>*\<^sup>* empty_db ex_decided" "(ledger_step ex_lib)\<^sup>*\<^sup>* empty_db ex_running"
proof -
  show r: "(ledger_step ex_lib)\<^sup>*\<^sup>* empty_db ex_running"
  proof -
    have "ledger_step ex_lib empty_db ex_created" "ledger_step ex_lib ex_created ex_planned"
      "ledger_step ex_lib ex_planned ex_running"
      using after_ok [OF ex_direct_ok(1)] after_ok [OF ex_direct_ok(2)] after_ok [OF ex_direct_ok(3)]
      unfolding ex_created_def ex_planned_def ex_running_def by (blast intro: Create Transition)+
    then show ?thesis by (meson converse_rtranclp_into_rtranclp rtranclp.rtrancl_refl)
  qed
  have 1: "ledger_step ex_lib ex_running ex_requested"
    using after_ok [OF ex_approval_ok(1)] unfolding ex_requested_def by (blast intro: Request)
  have 2: "ledger_step ex_lib ex_requested ex_decided"
    using after_ok [OF ex_approval_ok(2)] unfolding ex_decided_def by (blast intro: Decide)
  have 3: "ledger_step ex_lib ex_decided ex_consumed"
    using after_db_ok [OF ex_approval_ok(3)] unfolding ex_consumed_def by (blast intro: Consume)
  show "(ledger_step ex_lib)\<^sup>*\<^sup>* empty_db ex_requested" "(ledger_step ex_lib)\<^sup>*\<^sup>* empty_db ex_decided"
    using r 1 2 by (meson rtranclp.rtrancl_into_rtrancl)+
  show "(ledger_step ex_lib)\<^sup>*\<^sup>* ex_requested ex_consumed"
    using 2 3 by (meson converse_rtranclp_into_rtranclp rtranclp.rtrancl_refl)
qed

end
