(* ===== verification/Programs.thy ===== *)
theory Programs imports Ledger_Examples begin

text \<open>
  Programs that make several transactions, as the broker, the agent host and the worker do. A
  program maps the world to an exception or a result, and a new world; unlike a single operation it
  keeps the effects made before an exception. Between its transactions anything may happen to the
  database and the files: the environment says what, and what it may say is a hypothesis of the
  theorems (\<open>quiet\<close>: other actors make ledger steps too).
\<close>

section \<open>Worlds and environments\<close>

text \<open>\<open>w_runs\<close> records the handler calls made so far; no program reads it.\<close>

record world =
  w_db :: db
  w_files :: fsys
  w_tick :: nat
  w_runs :: "(string \<times> pydict) list"

text \<open>
  What the \<open>n\<close>-th transaction finds: the clock, the time stamp, a fresh identifier, what the others
  did meanwhile. \<open>e_owner\<close> is the lease in the context variable of the thread.
\<close>

record environment =
  e_lib :: pylib
  e_clock :: "nat \<Rightarrow> rat"
  e_stamp :: "nat \<Rightarrow> string"
  e_fresh :: "nat \<Rightarrow> string"
  e_owner :: "lease option"
  e_other :: "nat \<Rightarrow> db \<Rightarrow> db"
  e_others_files :: "nat \<Rightarrow> fsys \<Rightarrow> fsys"

type_synonym 'a prog = "world \<Rightarrow> (exn + 'a) \<times> world"

definition ret :: "'a \<Rightarrow> 'a prog" where
  "ret a w = (Inr a, w)"

definition throw :: "exn \<Rightarrow> 'a prog" where
  "throw e w = (Inl e, w)"

definition pbind :: "'a prog \<Rightarrow> ('a \<Rightarrow> 'b prog) \<Rightarrow> 'b prog" where
  "pbind m f w = (case m w of (Inl e, w') \<Rightarrow> (Inl e, w') | (Inr a, w') \<Rightarrow> f a w')"

lemma pbind_Inr: "m w = (Inr a, w') \<Longrightarrow> pbind m f w = f a w'"
  by (simp add: pbind_def)

lemma pbind_Inl: "m w = (Inl e, w') \<Longrightarrow> pbind m f w = (Inl e, w')"
  by (simp add: pbind_def)

text \<open>\<open>try: a = m \<dots> except e: h\<close>, with the rest of the block in \<open>k\<close> outside the handler.\<close>

definition attempt_prog :: "'a prog \<Rightarrow> (exn \<Rightarrow> 'b prog) \<Rightarrow> ('a \<Rightarrow> 'b prog) \<Rightarrow> 'b prog" where
  "attempt_prog m h k w = (case m w of (Inl e, w') \<Rightarrow> h e w' | (Inr a, w') \<Rightarrow> k a w')"

lemma attempt_Inr: "m w = (Inr a, w') \<Longrightarrow> attempt_prog m h k w = k a w'"
  by (simp add: attempt_prog_def)

lemma attempt_Inl: "m w = (Inl e, w') \<Longrightarrow> attempt_prog m h k w = h e w'"
  by (simp add: attempt_prog_def)

lemma pbindE:
  assumes "pbind m f w = (Inr b, w')"
  obtains a w1 where "m w = (Inr a, w1)" "f a w1 = (Inr b, w')"
proof -
  obtain r w1 where m: "m w = (r, w1)" by (cases "m w")
  with assms show thesis by (cases r) (auto simp: pbind_def intro: that)
qed

lemma attemptE:
  assumes "attempt_prog m h k w = (Inr b, w')"
  obtains a w1 where "m w = (Inr a, w1)" "k a w1 = (Inr b, w')" | e w1 where "m w = (Inl e, w1)" "h e w1 = (Inr b, w')"
proof -
  obtain r w1 where m: "m w = (r, w1)" by (cases "m w")
  with assms show thesis by (cases r) (auto simp: attempt_prog_def intro: that)
qed

definition tick :: "environment \<Rightarrow> world \<Rightarrow> world" where
  "tick E w = w\<lparr>w_db := e_other E (w_tick w) (w_db w), w_files := e_others_files E (w_tick w) (w_files w),
                w_tick := Suc (w_tick w)\<rparr>"

definition tx_at :: "environment \<Rightarrow> world \<Rightarrow> tx" where
  "tx_at E w = \<lparr>tx_now = e_clock E (w_tick w), tx_stamp = e_stamp E (w_tick w), tx_owner = e_owner E\<rparr>"

text \<open>One transaction with its result, one without, and a read.\<close>

definition transact :: "environment \<Rightarrow> (tx \<Rightarrow> fsys \<Rightarrow> db \<Rightarrow> ('a \<times> db) result) \<Rightarrow> 'a prog" where
  "transact E f w =
     (let w1 = tick E w in
      case f (tx_at E w1) (w_files w1) (w_db w1) of
        Inl e \<Rightarrow> (Inl e, w1)
      | Inr (a, db') \<Rightarrow> (Inr a, w1\<lparr>w_db := db'\<rparr>))"

definition commit :: "environment \<Rightarrow> (tx \<Rightarrow> fsys \<Rightarrow> db \<Rightarrow> db result) \<Rightarrow> unit prog" where
  "commit E f = transact E (\<lambda>x F db. rbind (f x F db) (\<lambda>db'. Inr ((), db')))"

definition query :: "environment \<Rightarrow> (tx \<Rightarrow> fsys \<Rightarrow> db \<Rightarrow> 'a result) \<Rightarrow> 'a prog" where
  "query E f = transact E (\<lambda>x F db. rbind (f x F db) (\<lambda>a. Inr (a, db)))"

lemma query_world: "snd (query E f w) = tick E w"
  by (cases "f (tx_at E (tick E w)) (w_files (tick E w)) (w_db (tick E w))")
     (simp_all add: query_def transact_def Let_def rbind_eq_Inl)

text \<open>The identifier the next transaction draws.\<close>

definition fresh_at :: "environment \<Rightarrow> world \<Rightarrow> string" where
  "fresh_at E w = e_fresh E (w_tick w)"

definition with_fresh :: "environment \<Rightarrow> (string \<Rightarrow> 'a prog) \<Rightarrow> 'a prog" where
  "with_fresh E f w = f (fresh_at E w) w"

section \<open>Results\<close>

text \<open>What a program returns, when it returns.\<close>

definition gives :: "('a \<Rightarrow> bool) \<Rightarrow> 'a prog \<Rightarrow> bool" where
  "gives P m \<longleftrightarrow> (\<forall>w a w'. m w = (Inr a, w') \<longrightarrow> P a)"

named_theorems giving

lemma gives_ret [giving]: "P a \<Longrightarrow> gives P (ret a)"
  by (simp add: gives_def ret_def)

lemma gives_throw [giving]: "gives P (throw e)"
  by (simp add: gives_def throw_def)

lemma gives_bind: "gives Q m \<Longrightarrow> (\<And>a. Q a \<Longrightarrow> gives P (f a)) \<Longrightarrow> gives P (pbind m f)"
  unfolding gives_def
proof (intro allI impI)
  fix w b w'
  assume a: "\<forall>w a w'. m w = (Inr a, w') \<longrightarrow> Q a" "\<And>a. Q a \<Longrightarrow> \<forall>w b w'. f a w = (Inr b, w') \<longrightarrow> P b"
    "pbind m f w = (Inr b, w')"
  obtain r w1 where m: "m w = (r, w1)" by (cases "m w")
  with a(3) obtain x where "r = Inr x" "f x w1 = (Inr b, w')" by (cases r) (auto simp: pbind_def)
  with a(1,2) m show "P b" by blast
qed

lemma gives_pbind [giving]: "(\<And>a. gives P (f a)) \<Longrightarrow> gives P (pbind m f)"
  by (rule gives_bind [of "\<lambda>_. True"]) (simp_all add: gives_def)

lemma gives_attempt:
  "gives Q m \<Longrightarrow> (\<And>e. gives P (h e)) \<Longrightarrow> (\<And>a. Q a \<Longrightarrow> gives P (k a)) \<Longrightarrow> gives P (attempt_prog m h k)"
  unfolding gives_def
proof (intro allI impI)
  fix w b w'
  assume a: "\<forall>w a w'. m w = (Inr a, w') \<longrightarrow> Q a" "\<And>e. \<forall>w b w'. h e w = (Inr b, w') \<longrightarrow> P b"
    "\<And>a. Q a \<Longrightarrow> \<forall>w b w'. k a w = (Inr b, w') \<longrightarrow> P b" "attempt_prog m h k w = (Inr b, w')"
  obtain r w1 where m: "m w = (r, w1)" by (cases "m w")
  show "P b"
  proof (cases r)
    case (Inl e)
    with a(2,4) m show ?thesis by (auto simp: attempt_prog_def)
  next
    case (Inr x)
    with a(4) m have "k x w1 = (Inr b, w')" by (simp add: attempt_prog_def)
    with a(1,3) m Inr show ?thesis by blast
  qed
qed

lemma gives_fresh [giving]: "(\<And>s. gives P (f s)) \<Longrightarrow> gives P (with_fresh E f)"
  by (simp add: gives_def with_fresh_def)

lemma givesD: "gives P m \<Longrightarrow> m w = (Inr a, w') \<Longrightarrow> P a"
  by (auto simp: gives_def)

lemma gives_query: "(\<And>x F db a. f x F db = Inr a \<Longrightarrow> P a) \<Longrightarrow> gives P (query E f)"
  by (auto simp: gives_def query_def transact_def Let_def rbind_eq_Inr split: sum.splits)

section \<open>Programs that return\<close>

text \<open>From a world of \<open>I\<close> the program returns, with a result of \<open>P\<close>, in a world of \<open>J\<close>.\<close>

definition arrives :: "(world \<Rightarrow> bool) \<Rightarrow> ('a \<Rightarrow> bool) \<Rightarrow> (world \<Rightarrow> bool) \<Rightarrow> 'a prog \<Rightarrow> bool" where
  "arrives I P J m \<longleftrightarrow> (\<forall>w. I w \<longrightarrow> (\<exists>a w'. m w = (Inr a, w') \<and> P a \<and> J w'))"

lemma arrivesD: "arrives I P J m \<Longrightarrow> I w \<Longrightarrow> \<exists>a w'. m w = (Inr a, w') \<and> P a \<and> J w'"
  by (simp add: arrives_def)

lemma arrives_ret: "P a \<Longrightarrow> arrives I P I (ret a)"
  by (simp add: arrives_def ret_def)

lemma arrives_pbind: "arrives I Q K m \<Longrightarrow> (\<And>a. Q a \<Longrightarrow> arrives K P J (f a)) \<Longrightarrow> arrives I P J (pbind m f)"
  unfolding arrives_def by (metis pbind_Inr)

lemma arrives_attempt: "arrives I Q K m \<Longrightarrow> (\<And>a. Q a \<Longrightarrow> arrives K P J (k a)) \<Longrightarrow> arrives I P J (attempt_prog m h k)"
  unfolding arrives_def by (metis attempt_Inr)

lemma arrives_fresh: "(\<And>s. arrives I P J (f s)) \<Longrightarrow> arrives I P J (with_fresh E f)"
  by (simp add: arrives_def with_fresh_def)

lemma arrives_transact:
  assumes "\<And>w. I w \<Longrightarrow> K (tick E w)"
    and "\<And>w. K w \<Longrightarrow> \<exists>a db'. f (tx_at E w) (w_files w) (w_db w) = Inr (a, db') \<and> P a \<and> J (w\<lparr>w_db := db'\<rparr>)"
  shows "arrives I P J (transact E f)"
  unfolding arrives_def transact_def Let_def
proof (intro allI impI)
  fix w :: world
  assume "I w"
  from assms(2) [OF assms(1) [OF this]] obtain a db' where
    "f (tx_at E (tick E w)) (w_files (tick E w)) (w_db (tick E w)) = Inr (a, db')" "P a" "J ((tick E w)\<lparr>w_db := db'\<rparr>)"
    by blast
  then show "\<exists>a w'. (case f (tx_at E (tick E w)) (w_files (tick E w)) (w_db (tick E w)) of
      Inl e \<Rightarrow> (Inl e, tick E w) | Inr (a, db') \<Rightarrow> (Inr a, (tick E w)\<lparr>w_db := db'\<rparr>)) = (Inr a, w') \<and> P a \<and> J w'"
    by simp
qed

lemma arrives_commit:
  assumes "\<And>w. I w \<Longrightarrow> K (tick E w)"
    and "\<And>w. K w \<Longrightarrow> \<exists>db'. f (tx_at E w) (w_files w) (w_db w) = Inr db' \<and> J (w\<lparr>w_db := db'\<rparr>)"
  shows "arrives I (\<lambda>_. True) J (commit E f)"
  unfolding commit_def by (rule arrives_transact [of I K]) (use assms in \<open>fastforce simp: rbind_eq_Inr\<close>)+

section \<open>Programs within a relation\<close>

definition stays :: "(world \<Rightarrow> world \<Rightarrow> bool) \<Rightarrow> 'a prog \<Rightarrow> bool" where
  "stays R m \<longleftrightarrow> (\<forall>w. R w (snd (m w)))"

text \<open>The same for the runs whose result satisfies \<open>P\<close>.\<close>

definition moves :: "(world \<Rightarrow> world \<Rightarrow> bool) \<Rightarrow> ('a \<Rightarrow> bool) \<Rightarrow> 'a prog \<Rightarrow> bool" where
  "moves R P m \<longleftrightarrow> (\<forall>w a w'. m w = (Inr a, w') \<longrightarrow> P a \<longrightarrow> R w w')"

lemma movesD: "moves R P m \<Longrightarrow> m w = (Inr a, w') \<Longrightarrow> P a \<Longrightarrow> R w w'"
  by (auto simp: moves_def)

lemma moves_never: "gives (\<lambda>a. \<not> P a) m \<Longrightarrow> moves R P m"
  by (auto simp: moves_def gives_def)

lemma moves_fresh: "(\<And>s. moves R P (f s)) \<Longrightarrow> moves R P (with_fresh E f)"
  by (simp add: moves_def with_fresh_def)

text \<open>
  The contract of a program logic: a reflexive, transitive relation between worlds. The
  combinators stay within it when their parts do.
\<close>

locale world_relation =
  fixes R :: "world \<Rightarrow> world \<Rightarrow> bool"
  assumes R_refl: "R w w" and R_trans: "R w1 w2 \<Longrightarrow> R w2 w3 \<Longrightarrow> R w1 w3"
begin

lemma stays_run: "stays R m \<Longrightarrow> m w = (r, w') \<Longrightarrow> R w w'"
  unfolding stays_def by (metis snd_conv)

lemma stays_snd: "stays R m \<Longrightarrow> R w (snd (m w))"
  by (simp add: stays_def)

lemma stays_ret [simp]: "stays R (ret a)"
  by (simp add: stays_def ret_def R_refl)

lemma stays_throw [simp]: "stays R (throw e)"
  by (simp add: stays_def throw_def R_refl)

lemma stays_pbind:
  assumes "stays R m" "\<And>a. stays R (f a)"
  shows "stays R (pbind m f)"
  unfolding stays_def pbind_def
proof
  fix w
  obtain r w1 where m: "m w = (r, w1)" by (cases "m w")
  then have "R w w1" using assms(1) by (rule stays_run [rotated])
  moreover have "R w1 (snd (f a w1))" for a using assms(2) by (simp add: stays_def)
  ultimately show "R w (snd (case m w of (Inl e, w') \<Rightarrow> (Inl e, w') | (Inr a, w') \<Rightarrow> f a w'))"
    using m by (cases r) (auto intro: R_trans)
qed

lemma stays_attempt:
  assumes "stays R m" "\<And>e. stays R (h e)" "\<And>a. stays R (k a)"
  shows "stays R (attempt_prog m h k)"
  unfolding stays_def attempt_prog_def
proof
  fix w
  obtain r w1 where m: "m w = (r, w1)" by (cases "m w")
  then have "R w w1" using assms(1) by (rule stays_run [rotated])
  moreover have "R w1 (snd (k a w1))" "R w1 (snd (h e w1))" for a e using assms(2,3) by (simp_all add: stays_def)
  ultimately show "R w (snd (case m w of (Inl e, w') \<Rightarrow> h e w' | (Inr a, w') \<Rightarrow> k a w'))"
    using m by (cases r) (auto intro: R_trans)
qed

lemma moves_stays: "stays R m \<Longrightarrow> moves R P m"
  unfolding moves_def using stays_run by blast

lemma moves_pbind:
  assumes "stays R m" "\<And>a. moves R P (f a)"
  shows "moves R P (pbind m f)"
  unfolding moves_def
proof (intro allI impI)
  fix w :: world and b w'
  assume "pbind m f w = (Inr b, w')" "P b"
  then obtain a w1 where "m w = (Inr a, w1)" "f a w1 = (Inr b, w')" by (elim pbindE)
  with assms \<open>P b\<close> show "R w w'" using stays_run movesD R_trans by metis
qed

lemma moves_attempt:
  assumes "stays R m" "\<And>e. moves R P (h e)" "\<And>a. moves R P (k a)"
  shows "moves R P (attempt_prog m h k)"
  unfolding moves_def
proof (intro allI impI)
  fix w :: world and b w'
  assume a: "attempt_prog m h k w = (Inr b, w')" "P b"
  from a(1) show "R w w'"
    by (cases rule: attemptE) (use assms a(2) stays_run movesD R_trans in metis)+
qed

lemma stays_query: "(\<And>w. R w (tick E w)) \<Longrightarrow> stays R (query E f)"
  by (simp add: stays_def query_world)

lemma stays_fresh: "(\<And>s. stays R (f s)) \<Longrightarrow> stays R (with_fresh E f)"
  by (simp add: stays_def with_fresh_def)

lemma stays_if: "(b \<Longrightarrow> stays R m) \<Longrightarrow> (\<not> b \<Longrightarrow> stays R n) \<Longrightarrow> stays R (if b then m else n)"
  by simp

lemma stays_option: "stays R m \<Longrightarrow> (\<And>a. stays R (f a)) \<Longrightarrow> stays R (case x of None \<Rightarrow> m | Some a \<Rightarrow> f a)"
  by (cases x) auto

end

section \<open>Ledger programs\<close>

definition quiet :: "environment \<Rightarrow> bool" where
  "quiet E \<longleftrightarrow> (\<forall>n db. (ledger_step (e_lib E))\<^sup>*\<^sup>* db (e_other E n db))"

text \<open>The world moves by ledger steps.\<close>

definition ledger_run :: "pylib \<Rightarrow> world \<Rightarrow> world \<Rightarrow> bool" where
  "ledger_run L w w' \<longleftrightarrow> (ledger_step L)\<^sup>*\<^sup>* (w_db w) (w_db w')"

interpretation ledger: world_relation "ledger_run L"
  by unfold_locales (auto simp: ledger_run_def)

text \<open>And makes no handler call.\<close>

definition no_call :: "world \<Rightarrow> world \<Rightarrow> bool" where
  "no_call w w' \<longleftrightarrow> w_runs w' = w_runs w"

interpretation silent: world_relation no_call
  by unfold_locales (auto simp: no_call_def)

lemma transact_silent [simp]: "stays no_call (transact E f)"
  by (auto simp: stays_def no_call_def transact_def tick_def Let_def split: sum.splits)

lemma commit_silent [simp]: "stays no_call (commit E f)"
  by (simp add: commit_def)

lemma query_silent [simp]: "stays no_call (query E f)"
  by (simp add: query_def)

text \<open>A transaction of a ledger operation is a ledger run.\<close>

definition steps_of_op :: "pylib \<Rightarrow> (tx \<Rightarrow> fsys \<Rightarrow> db \<Rightarrow> ('a \<times> db) result) \<Rightarrow> bool" where
  "steps_of_op L f \<longleftrightarrow> (\<forall>x F db a db'. f x F db = Inr (a, db') \<longrightarrow> (ledger_step L)\<^sup>*\<^sup>* db db')"

lemma transact_ledger:
  assumes "quiet E" "e_lib E = L" "steps_of_op L f"
  shows "stays (ledger_run L) (transact E f)"
  unfolding stays_def
proof
  fix w
  have q: "(ledger_step L)\<^sup>*\<^sup>* (w_db w) (w_db (tick E w))"
    using assms(1,2) by (auto simp: quiet_def tick_def)
  show "ledger_run L w (snd (transact E f w))"
  proof (cases "f (tx_at E (tick E w)) (w_files (tick E w)) (w_db (tick E w))")
    case (Inr r)
    obtain a db' where r: "r = (a, db')" by (cases r)
    with assms(3) Inr have "(ledger_step L)\<^sup>*\<^sup>* (w_db (tick E w)) db'" by (auto simp: steps_of_op_def)
    with q have "(ledger_step L)\<^sup>*\<^sup>* (w_db w) db'" by (rule rtranclp_trans)
    with Inr r show ?thesis by (simp add: ledger_run_def transact_def Let_def)
  qed (use q in \<open>simp add: ledger_run_def transact_def Let_def\<close>)
qed

lemma commit_ledger:
  assumes "quiet E" "e_lib E = L" "\<And>x F db db'. f x F db = Inr db' \<Longrightarrow> ledger_step L db db'"
  shows "stays (ledger_run L) (commit E f)"
  unfolding commit_def using assms by (intro transact_ledger) (auto simp: steps_of_op_def rbind_eq_Inr)

lemma query_ledger: "quiet E \<Longrightarrow> e_lib E = L \<Longrightarrow> stays (ledger_run L) (query E f)"
  unfolding query_def by (intro transact_ledger) (auto simp: steps_of_op_def rbind_eq_Inr)

text \<open>
  The contract of a relation between worlds that holds whenever only ledger steps were taken and no
  handler ran. A program made of transactions, whoever else takes steps meanwhile, then stays in it.
\<close>

locale ledger_relation = world_relation R for R :: "world \<Rightarrow> world \<Rightarrow> bool" +
  fixes L :: pylib
  assumes R_ledger: "ledger_run L w w' \<Longrightarrow> no_call w w' \<Longrightarrow> R w w'"
begin

lemma stays_transact: "quiet E \<Longrightarrow> e_lib E = L \<Longrightarrow> steps_of_op L f \<Longrightarrow> stays R (transact E f)"
  using transact_ledger [of E L f] transact_silent [of E f] by (simp add: stays_def R_ledger)

lemma stays_commit:
  "quiet E \<Longrightarrow> e_lib E = L \<Longrightarrow> (\<And>x F db db'. f x F db = Inr db' \<Longrightarrow> ledger_step L db db') \<Longrightarrow> stays R (commit E f)"
  unfolding commit_def by (intro stays_transact) (auto simp: steps_of_op_def rbind_eq_Inr)

lemma R_tick: "quiet E \<Longrightarrow> e_lib E = L \<Longrightarrow> R w (tick E w)"
  by (rule R_ledger) (auto simp: quiet_def ledger_run_def no_call_def tick_def)

lemma stays_read: "quiet E \<Longrightarrow> e_lib E = L \<Longrightarrow> stays R (query E f)"
  by (intro stays_query R_tick)

end

interpretation running: ledger_relation "ledger_run L" L
  by unfold_locales

lemma transact_Inr:
  assumes "transact E f w = (Inr a, w')"
  obtains db' where "f (tx_at E (tick E w)) (w_files (tick E w)) (w_db (tick E w)) = Inr (a, db')"
    "w' = (tick E w)\<lparr>w_db := db'\<rparr>"
  using assms by (auto simp: transact_def Let_def split: sum.splits)

lemma query_Inr:
  assumes "query E f w = (Inr a, w')"
  shows "f (tx_at E (tick E w)) (w_files (tick E w)) (w_db (tick E w)) = Inr a" "w' = tick E w"
proof -
  from assms obtain db' where "rbind (f (tx_at E (tick E w)) (w_files (tick E w)) (w_db (tick E w)))
      (\<lambda>a. Inr (a, w_db (tick E w))) = Inr (a, db')" and w: "w' = (tick E w)\<lparr>w_db := db'\<rparr>"
    unfolding query_def by (rule transact_Inr)
  then show "f (tx_at E (tick E w)) (w_files (tick E w)) (w_db (tick E w)) = Inr a" "w' = tick E w"
    by (auto simp: rbind_eq_Inr)
qed

lemma commit_Inr:
  assumes "commit E f w = (Inr u, w')"
  obtains db' where "f (tx_at E (tick E w)) (w_files (tick E w)) (w_db (tick E w)) = Inr db'"
    "w' = (tick E w)\<lparr>w_db := db'\<rparr>"
proof -
  from assms obtain db' where "rbind (f (tx_at E (tick E w)) (w_files (tick E w)) (w_db (tick E w)))
      (\<lambda>db'. Inr (u, db')) = Inr (u, db')" "w' = (tick E w)\<lparr>w_db := db'\<rparr>"
    unfolding commit_def by (elim transact_Inr) (auto simp: rbind_eq_Inr)
  then show thesis by (intro that) (auto simp: rbind_eq_Inr)
qed

section \<open>Example\<close>

text \<open>An environment in which nothing else happens and the clock stands, and a world on a state of the ledger.\<close>

definition ex_env :: environment where
  "ex_env = \<lparr>e_lib = ex_lib, e_clock = (\<lambda>_. 0), e_stamp = (\<lambda>_. ''2026-01-01''), e_fresh = (\<lambda>_. ''s''),
             e_owner = None, e_other = (\<lambda>_ db. db), e_others_files = (\<lambda>_ F. F)\<rparr>"

definition ex_world :: "db \<Rightarrow> world" where
  "ex_world db = \<lparr>w_db = db, w_files = ex_fs, w_tick = 0, w_runs = []\<rparr>"

lemma quiet_ex_env: "quiet ex_env"
  by (simp add: quiet_def ex_env_def)

end
