(* ===== verification/Tool_Schema.thy ===== *)
theory Tool_Schema imports Py_Values begin

text \<open>
  dante/contracts/tools.py: the outcome of a tool call, and the bounded JSON-schema dialect the
  tools' arguments are declared in. \<open>check_schema\<close> accepts a schema of the dialect,
  \<open>validate_schema\<close> a value of a schema; both raise, so both return a unit result.
\<close>

section \<open>Outcomes\<close>

record tool_result =
  res_status :: tool_status
  res_data :: "pydict option"
  effect_uncertain :: bool
  error_type :: "string option"
  res_step_id :: "string option"

definition tool_outcome :: "tool_status \<Rightarrow> tool_result" where
  "tool_outcome s = \<lparr>res_status = s, res_data = None, effect_uncertain = False, error_type = None, res_step_id = None\<rparr>"

fun tool_status_value :: "tool_status \<Rightarrow> string" where
  "tool_status_value SUCCESS = ''success''"
| "tool_status_value VALIDATION_DENIED = ''validation_denied''"
| "tool_status_value POLICY_DENIED = ''policy_denied''"
| "tool_status_value APPROVAL_REQUIRED = ''approval_required''"
| "tool_status_value APPROVAL_INVALID = ''approval_invalid''"
| "tool_status_value TIMEOUT = ''timeout''"
| "tool_status_value EXECUTION_FAILURE = ''execution_failure''"
| "tool_status_value OUTPUT_LIMIT = ''output_limit_violation''"
| "tool_status_value UNCERTAIN = ''reconciliation_required''"

section \<open>Values the schema code looks at\<close>

text \<open>Membership in a Python set or dict needs a hashable value; otherwise it is a \<open>TypeError\<close>.\<close>

fun hashable :: "pyval \<Rightarrow> bool"
  and hashable_list :: "pyval list \<Rightarrow> bool" where
  "hashable (PList _) = False"
| "hashable (PDict _) = False"
| "hashable (PTuple xs) = hashable_list xs"
| "hashable PNone = True"
| "hashable (PBool _) = True"
| "hashable (PInt _) = True"
| "hashable (PFloat _) = True"
| "hashable (PStr _) = True"
| "hashable_list [] = True"
| "hashable_list (x # xs) = (hashable x \<and> hashable_list xs)"

definition kind_in :: "pyval \<Rightarrow> string list \<Rightarrow> bool result" where
  "kind_in k names =
     (if \<not> hashable k then Inl TypeError
      else Inr (case k of PStr s \<Rightarrow> s \<in> set names | _ \<Rightarrow> False))"

fun substring :: "string \<Rightarrow> string \<Rightarrow> bool" where
  "substring u [] = (u = [])"
| "substring u (c # s) = (startswith (c # s) u \<or> substring u s)"

text \<open>\<open>value in container\<close> for whatever the schema stores under \<open>enum\<close>.\<close>

definition key_of :: "pyval \<Rightarrow> pykey option" where
  "key_of v = (case v of PStr s \<Rightarrow> Some (KStr s) | PInt i \<Rightarrow> Some (KInt i) | PBool b \<Rightarrow> Some (KInt (if b then 1 else 0)) | _ \<Rightarrow> None)"

definition py_contains :: "pyval \<Rightarrow> pyval \<Rightarrow> bool result" where
  "py_contains v container =
     (case container of
        PList xs \<Rightarrow> Inr (py_in v xs)
      | PTuple xs \<Rightarrow> Inr (py_in v xs)
      | PDict d \<Rightarrow> if hashable v then Inr (case key_of v of None \<Rightarrow> False | Some k \<Rightarrow> k \<in> set (map fst d)) else Inl TypeError
      | PStr s \<Rightarrow> (case v of PStr u \<Rightarrow> Inr (substring u s) | _ \<Rightarrow> Inl TypeError)
      | _ \<Rightarrow> Inl TypeError)"

definition str_values :: "pyval list \<Rightarrow> bool" where
  "str_values xs = list_all (\<lambda>v. case v of PStr _ \<Rightarrow> True | _ \<Rightarrow> False) xs"

definition str_keys :: "pydict \<Rightarrow> bool" where
  "str_keys d = list_all (\<lambda>kv. is_KStr (fst kv)) d"

definition keys_within :: "pydict \<Rightarrow> string list \<Rightarrow> bool" where
  "keys_within d names = list_all (\<lambda>kv. fst kv \<in> set (map KStr names)) d"

definition has_key :: "pydict \<Rightarrow> string \<Rightarrow> bool" where
  "has_key d k = (dget d k \<noteq> None)"

text \<open>\<open>schema.get(k, default)\<close>\<close>

definition dget_or :: "pydict \<Rightarrow> string \<Rightarrow> pyval \<Rightarrow> pyval" where
  "dget_or d k v = (case dget d k of None \<Rightarrow> v | Some w \<Rightarrow> w)"

definition names_of :: "pyval list \<Rightarrow> pykey list" where
  "names_of xs = map (\<lambda>v. case v of PStr s \<Rightarrow> KStr s | _ \<Rightarrow> KStr []) xs"

section \<open>Checking a schema\<close>

definition object_schema_ok :: "pydict \<Rightarrow> bool" where
  "object_schema_ok d =
     (case (dget_or d ''properties'' (PDict []), dget_or d ''required'' (PList [])) of
        (PDict props, PList required) \<Rightarrow>
          str_values required \<and> str_keys props
          \<and> list_all (\<lambda>k. k \<in> set (map fst props)) (names_of required)
          \<and> (case dget_or d ''additionalProperties'' (PBool False) of PBool _ \<Rightarrow> True | _ \<Rightarrow> False)
      | _ \<Rightarrow> False)"

definition children :: "pydict \<Rightarrow> pydict" where
  "children d = (case dget_or d ''properties'' (PDict []) of PDict props \<Rightarrow> props | _ \<Rightarrow> [])"

definition keywords_ok :: "pydict \<Rightarrow> string list \<Rightarrow> bool" where
  "keywords_ok d allowed =
     (keys_within d allowed
      \<and> (case dget d ''enum'' of None \<Rightarrow> True | Some (PList _) \<Rightarrow> True | Some _ \<Rightarrow> False))"

fun weight :: "pyval \<Rightarrow> nat"
  and weight_list :: "pyval list \<Rightarrow> nat"
  and weight_items :: "pydict \<Rightarrow> nat" where
  "weight (PList xs) = Suc (weight_list xs)"
| "weight (PTuple xs) = Suc (weight_list xs)"
| "weight (PDict d) = Suc (weight_items d)"
| "weight _ = 1"
| "weight_list [] = 0"
| "weight_list (x # xs) = weight x + weight_list xs"
| "weight_items [] = 0"
| "weight_items ((k, v) # d) = Suc (weight v + weight_items d)"

lemma weight_pos [simp]: "0 < weight v"
  by (cases v) auto

lemma weight_dget: "dget d k = Some v \<Longrightarrow> weight v < Suc (weight_items d)"
proof (induction d)
  case (Cons kv d)
  obtain k' v' where kv: "kv = (k', v')" by (cases kv)
  with Cons show ?case
    by (cases "k' = KStr k") (auto simp: dget_def)
qed (simp add: dget_def)

lemma weight_children: "weight_items (children d) \<le> weight_items d"
  using weight_dget [of d "''properties''"]
  by (auto simp: children_def dget_or_def split: option.splits pyval.splits)

function check_schema :: "pyval \<Rightarrow> unit result"
  and check_children :: "pydict \<Rightarrow> unit result" where
  "check_schema s =
     (case s of
        PDict d \<Rightarrow>
          (let ty = dget_or d ''type'' PNone in
           if ty = PStr ''object'' then
             if \<not> object_schema_ok d then Inl ValueError
             else rbind (check_children (children d)) (\<lambda>_.
               guard (keywords_ok d [''type'', ''enum'', ''properties'', ''required'', ''additionalProperties'']) ValueError)
           else if ty = PStr ''array'' then
             (case dget d ''items'' of
                None \<Rightarrow> Inl ValueError
              | Some child \<Rightarrow> rbind (check_schema child) (\<lambda>_.
                  guard (keywords_ok d [''type'', ''enum'', ''items'']) ValueError))
           else
             rbind (kind_in ty [''string'', ''integer'', ''number'', ''boolean'', ''null'']) (\<lambda>b.
             rbind (guard b ValueError) (\<lambda>_.
               guard (keywords_ok d [''type'', ''enum'']) ValueError)))
      | _ \<Rightarrow> Inl ValueError)"
| "check_children [] = Inr ()"
| "check_children ((k, v) # ps) = rbind (check_schema v) (\<lambda>_. check_children ps)"
  by pat_completeness auto
termination
proof (relation "measure (\<lambda>x. case x of Inl s \<Rightarrow> 2 * weight s | Inr d \<Rightarrow> Suc (2 * weight_items d))", goal_cases)
  case (2 s d ty)
  then show ?case using weight_children [of d] by simp
next
  case (3 s d ty child)
  then show ?case using weight_dget [of d "''items''" child] by simp
qed auto

declare check_schema.simps [simp del]

section \<open>Validating a value\<close>

definition schema_types :: "string list" where
  "schema_types = [''object'', ''array'', ''string'', ''integer'', ''number'', ''boolean'', ''null'']"

text \<open>\<open>isinstance(value, types[ty])\<close>; a boolean is an \<open>int\<close> to Python.\<close>

definition instance_of :: "string \<Rightarrow> pyval \<Rightarrow> bool" where
  "instance_of ty v =
     (case v of
        PDict _ \<Rightarrow> ty = ''object''
      | PList _ \<Rightarrow> ty = ''array''
      | PStr _ \<Rightarrow> ty = ''string''
      | PInt _ \<Rightarrow> ty \<in> {''integer'', ''number''}
      | PBool _ \<Rightarrow> ty \<in> {''integer'', ''number'', ''boolean''}
      | PFloat _ \<Rightarrow> ty = ''number''
      | PNone \<Rightarrow> ty = ''null''
      | PTuple _ \<Rightarrow> False)"

text \<open>The checks made on every value; the result is the schema's dictionary with its type.\<close>

definition schema_head :: "pyval \<Rightarrow> pyval \<Rightarrow> (pydict \<times> string) result" where
  "schema_head s v =
     (case s of
        PDict d \<Rightarrow>
          rbind (guard (keys_within d [''type'', ''properties'', ''required'', ''additionalProperties'', ''items'', ''enum'']) ValueError) (\<lambda>_.
          let k = dget_or d ''type'' PNone in
          rbind (kind_in k schema_types) (\<lambda>known.
          rbind (guard known ValueError) (\<lambda>_.
          let ty = (case k of PStr n \<Rightarrow> n | _ \<Rightarrow> []) in
          rbind (guard (instance_of ty v) ValueError) (\<lambda>_.
          rbind (guard (\<not> (ty \<in> {''number'', ''integer''} \<and> (case v of PBool _ \<Rightarrow> True | _ \<Rightarrow> False))) ValueError) (\<lambda>_.
          rbind (case dget d ''enum'' of None \<Rightarrow> Inr True | Some e \<Rightarrow> py_contains v e) (\<lambda>member.
          rbind (guard member ValueError) (\<lambda>_. Inr (d, ty))))))))
      | _ \<Rightarrow> Inl ValueError)"

text \<open>The checks on an object's keys; the result is its declared properties.\<close>

definition object_head :: "pydict \<Rightarrow> pydict \<Rightarrow> pydict result" where
  "object_head d v =
     (case (dget_or d ''properties'' (PDict []), dget_or d ''required'' (PList []),
            dget_or d ''additionalProperties'' (PBool False)) of
        (PDict props, PList required, PBool additional) \<Rightarrow>
          if \<not> str_keys v then Inl ValueError
          else if \<not> list_all hashable required then Inl TypeError
          else if \<not> list_all (\<lambda>r. case key_of r of None \<Rightarrow> False | Some k \<Rightarrow> k \<in> set (map fst v)) required
          then Inl ValueError
          else if \<not> additional \<and> \<not> list_all (\<lambda>kv. fst kv \<in> set (map fst props)) v then Inl ValueError
          else Inr props
      | _ \<Rightarrow> Inl ValueError)"

fun validate_schema :: "pyval \<Rightarrow> pyval \<Rightarrow> unit result"
  and validate_items :: "pydict \<Rightarrow> pydict \<Rightarrow> unit result"
  and validate_elems :: "pyval \<Rightarrow> pyval list \<Rightarrow> unit result" where
  "validate_schema s (PDict v) =
     rbind (schema_head s (PDict v)) (\<lambda>(d, ty).
     rbind (object_head d v) (\<lambda>props. validate_items props v))"
| "validate_schema s (PList xs) =
     rbind (schema_head s (PList xs)) (\<lambda>(d, ty).
       case dget d ''items'' of None \<Rightarrow> Inl ValueError | Some item \<Rightarrow> validate_elems item xs)"
| "validate_schema s v = rbind (schema_head s v) (\<lambda>_. Inr ())"
| "validate_items props [] = Inr ()"
| "validate_items props ((k, x) # v) =
     rbind (case map_of props k of None \<Rightarrow> Inr () | Some s \<Rightarrow> validate_schema s x) (\<lambda>_. validate_items props v)"
| "validate_elems s [] = Inr ()"
| "validate_elems s (x # xs) = rbind (validate_schema s x) (\<lambda>_. validate_elems s xs)"

section \<open>Facts\<close>

lemma check_children_Inr: "check_children ps = Inr () \<longleftrightarrow> (\<forall>kv \<in> set ps. check_schema (snd kv) = Inr ())"
  by (induction ps) (auto simp: rbind_eq_Inr)

text \<open>What a checked schema looks like.\<close>

lemma check_schema_shape:
  assumes "check_schema s = Inr ()"
  obtains d where "s = PDict d" "dget_or d ''type'' PNone = PStr ''object''" "object_schema_ok d"
    "\<And>kv. kv \<in> set (children d) \<Longrightarrow> check_schema (snd kv) = Inr ()"
    "keywords_ok d [''type'', ''enum'', ''properties'', ''required'', ''additionalProperties'']"
  | d child where "s = PDict d" "dget_or d ''type'' PNone = PStr ''array''" "dget d ''items'' = Some child"
    "check_schema child = Inr ()" "keywords_ok d [''type'', ''enum'', ''items'']"
  | d name where "s = PDict d" "dget_or d ''type'' PNone = PStr name"
    "name \<in> {''string'', ''integer'', ''number'', ''boolean'', ''null''}" "keywords_ok d [''type'', ''enum'']"
proof -
  from assms obtain d where s: "s = PDict d" by (cases s) (auto simp: check_schema.simps)
  let ?k = "dget_or d ''type'' PNone"
  consider "?k = PStr ''object''" | "?k = PStr ''array''" | "?k \<noteq> PStr ''object''" "?k \<noteq> PStr ''array''" by blast
  then show thesis
  proof cases
    case 1
    with assms s show thesis
      by (intro that(1)) (auto simp: check_schema.simps Let_def rbind_eq_Inr check_children_Inr split: if_splits)
  next
    case 2
    with assms s show thesis
      by (auto simp: check_schema.simps Let_def rbind_eq_Inr split: if_splits option.splits intro: that(2))
  next
    case 3
    with assms s have "kind_in ?k [''string'', ''integer'', ''number'', ''boolean'', ''null''] = Inr True"
      "keywords_ok d [''type'', ''enum'']"
      by (auto simp: check_schema.simps Let_def rbind_eq_Inr split: if_splits)
    with s show thesis
      by (auto simp: kind_in_def split: if_splits pyval.splits intro: that(3))
  qed
qed

lemma check_object:
  assumes "check_schema (PDict d) = Inr ()" "dget_or d ''type'' PNone = PStr ''object''"
  shows "object_schema_ok d" "\<And>kv. kv \<in> set (children d) \<Longrightarrow> check_schema (snd kv) = Inr ()"
  using assms by (auto simp: check_schema.simps [of "PDict d"] Let_def rbind_eq_Inr check_children_Inr split: if_splits)

lemma check_array:
  assumes "check_schema (PDict d) = Inr ()" "dget_or d ''type'' PNone = PStr ''array''"
  obtains child where "dget d ''items'' = Some child" "check_schema child = Inr ()"
  using assms by (auto simp: check_schema.simps [of "PDict d"] Let_def rbind_eq_Inr split: if_splits option.splits)

lemma keywords_ok_enum: "keywords_ok d ks \<Longrightarrow> dget d ''enum'' = None \<or> (\<exists>xs. dget d ''enum'' = Some (PList xs))"
  by (auto simp: keywords_ok_def split: option.splits pyval.splits)

lemma keys_within_mono: "keys_within d a \<Longrightarrow> set a \<subseteq> set b \<Longrightarrow> keys_within d b"
  by (fastforce simp: keys_within_def list_all_iff)

lemma str_value_hashable: "(case v of PStr _ \<Rightarrow> True | _ \<Rightarrow> False) \<Longrightarrow> hashable v"
  by (cases v) auto

lemma schema_head_error:
  assumes "check_schema s = Inr ()" "schema_head s v = Inl e"
  shows "e = ValueError"
proof -
  have "\<exists>d name ks. s = PDict d \<and> dget_or d ''type'' PNone = PStr name \<and> name \<in> set schema_types \<and> keywords_ok d ks"
    using assms(1) by (rule check_schema_shape) (auto simp: schema_types_def)
  then obtain d name ks where d: "s = PDict d" "dget_or d ''type'' PNone = PStr name" "name \<in> set schema_types"
    "keywords_ok d ks" by blast
  with keywords_ok_enum [OF d(4)] assms(2) show ?thesis
    by (auto simp: schema_head_def Let_def rbind_eq_Inl guard_eq_Inl kind_in_def py_contains_def split: if_splits)
qed

lemma schema_head_Inr:
  assumes "schema_head s v = Inr (d, ty)"
  shows "s = PDict d" "dget_or d ''type'' PNone = PStr ty" "ty \<in> set schema_types" "instance_of ty v"
    "ty \<in> {''number'', ''integer''} \<Longrightarrow> v \<noteq> PBool b"
    "keys_within d [''type'', ''properties'', ''required'', ''additionalProperties'', ''items'', ''enum'']"
    "dget d ''enum'' = Some (PList xs) \<Longrightarrow> py_in v xs"
  using assms
  by (auto simp: schema_head_def Let_def rbind_eq_Inr kind_in_def py_contains_def
      split: pyval.splits if_splits option.splits)

lemma object_head_error:
  assumes "object_schema_ok d" "object_head d v = Inl e"
  shows "e = ValueError"
proof -
  from assms(1) obtain props req b where o: "dget_or d ''properties'' (PDict []) = PDict props"
    "dget_or d ''required'' (PList []) = PList req" "dget_or d ''additionalProperties'' (PBool False) = PBool b"
    "str_values req"
    by (auto simp: object_schema_ok_def split: pyval.splits)
  from o(4) have "list_all hashable req"
    using str_value_hashable unfolding str_values_def list_all_iff by blast
  with assms(2) o show ?thesis by (auto simp: object_head_def split: if_splits)
qed

lemma object_head_Inr:
  assumes "object_head d v = Inr props"
  shows "dget_or d ''properties'' (PDict []) = PDict props" "children d = props" "str_keys v"
    "dget_or d ''additionalProperties'' (PBool False) = PBool False \<Longrightarrow> kv \<in> set v \<Longrightarrow> fst kv \<in> set (map fst props)"
    "dget_or d ''required'' (PList []) = PList req \<Longrightarrow> PStr r \<in> set req \<Longrightarrow> KStr r \<in> set (map fst v)"
  using assms
  by (auto simp: object_head_def children_def list_all_iff key_of_def split: pyval.splits if_splits)

lemma validate_items_Inr:
  "validate_items props v = Inr () \<longleftrightarrow>
     (\<forall>kv \<in> set v. case map_of props (fst kv) of None \<Rightarrow> True | Some s \<Rightarrow> validate_schema s (snd kv) = Inr ())"
  by (induction v) (auto simp: rbind_eq_Inr split: option.splits)

lemma validate_elems_Inr: "validate_elems s xs = Inr () \<longleftrightarrow> (\<forall>x \<in> set xs. validate_schema s x = Inr ())"
  by (induction xs) (auto simp: rbind_eq_Inr)

lemma validate_head: "validate_schema s v = Inr () \<Longrightarrow> \<exists>d ty. schema_head s v = Inr (d, ty)"
  by (cases v) (auto simp: rbind_eq_Inr)

text \<open>A checked schema never makes the validation fail with anything but \<open>ValueError\<close>.\<close>

lemma validate_schema_error:
  "check_schema s = Inr () \<Longrightarrow> validate_schema s v = Inl e \<Longrightarrow> e = ValueError"
  "(\<forall>kv \<in> set props. check_schema (snd kv) = Inr ()) \<Longrightarrow> validate_items props items = Inl e \<Longrightarrow> e = ValueError"
  "check_schema s' = Inr () \<Longrightarrow> validate_elems s' xs = Inl e \<Longrightarrow> e = ValueError"
proof (induction s v and props items and s' xs rule: validate_schema_validate_items_validate_elems.induct)
  case (1 s v)
  show ?case
  proof (cases "schema_head s (PDict v)")
    case (Inl e')
    with 1 schema_head_error show ?thesis by auto
  next
    case (Inr dt)
    obtain d ty where dt: "dt = (d, ty)" by (cases dt)
    note h = schema_head_Inr [OF Inr [unfolded dt]]
    from h(2,4) have obj: "s = PDict d" "dget_or d ''type'' PNone = PStr ''object''"
      using h(1) by (auto simp: instance_of_def)
    note ok = check_object [OF "1.prems"(1) [unfolded obj(1)] obj(2)]
    show ?thesis
    proof (cases "object_head d v")
      case (Inl e')
      with 1 object_head_error [OF ok(1)] Inr dt show ?thesis by auto
    next
      case p: (Inr props)
      have "\<forall>kv \<in> set props. check_schema (snd kv) = Inr ()" using ok(2) object_head_Inr(2) [OF p] by auto
      with "1.IH" [of props] "1.prems" Inr dt p show ?thesis by auto
    qed
  qed
next
  case (2 s xs)
  show ?case
  proof (cases "schema_head s (PList xs)")
    case (Inl e')
    with 2 schema_head_error show ?thesis by auto
  next
    case (Inr dt)
    obtain d ty where dt: "dt = (d, ty)" by (cases dt)
    note h = schema_head_Inr [OF Inr [unfolded dt]]
    from h(2,4) have arr: "s = PDict d" "dget_or d ''type'' PNone = PStr ''array''"
      using h(1) by (auto simp: instance_of_def)
    obtain child where "dget d ''items'' = Some child" "check_schema child = Inr ()"
      using check_array [OF "2.prems"(1) [unfolded arr(1)] arr(2)] .
    with "2.IH" "2.prems" Inr dt show ?thesis by auto
  qed
next
  case (5 props k x v)
  have "check_schema s = Inr ()" if "map_of props k = Some s" for s
    using "5.prems"(1) map_of_SomeD [OF that] by fastforce
  with 5 show ?case by (auto simp: rbind_eq_Inl split: option.splits)
qed (auto simp: rbind_eq_Inl dest: schema_head_error)

text \<open>
  What an accepted argument object is: its keys are strings, all required ones are there, without
  \<open>additionalProperties\<close> all are declared, and every declared one satisfies its own schema.
\<close>

lemma validate_object:
  assumes "validate_schema s (PDict v) = Inr ()"
  obtains d props where "s = PDict d" "dget_or d ''type'' PNone = PStr ''object''"
    "dget_or d ''properties'' (PDict []) = PDict props" "str_keys v"
    "\<And>kv. dget_or d ''additionalProperties'' (PBool False) = PBool False \<Longrightarrow> kv \<in> set v \<Longrightarrow> fst kv \<in> set (map fst props)"
    "\<And>req r. dget_or d ''required'' (PList []) = PList req \<Longrightarrow> PStr r \<in> set req \<Longrightarrow> KStr r \<in> set (map fst v)"
    "\<And>k x c. (k, x) \<in> set v \<Longrightarrow> map_of props k = Some c \<Longrightarrow> validate_schema c x = Inr ()"
proof -
  from assms obtain d ty props where h: "schema_head s (PDict v) = Inr (d, ty)" "object_head d v = Inr props"
    "validate_items props v = Inr ()"
    by (auto simp: rbind_eq_Inr)
  have "ty = ''object''" using schema_head_Inr(4) [OF h(1)] by (auto simp: instance_of_def)
  with schema_head_Inr(1,2) [OF h(1)] object_head_Inr [OF h(2)] h(3) show thesis
    by (intro that [of d props]) (fastforce simp: validate_items_Inr split: option.splits)+
qed

text \<open>A value of a scalar type has that type, and a boolean is no number.\<close>

lemma validate_type:
  assumes "validate_schema s v = Inr ()"
  obtains d ty where "s = PDict d" "dget_or d ''type'' PNone = PStr ty" "instance_of ty v"
    "ty \<in> {''number'', ''integer''} \<longrightarrow> (\<forall>b. v \<noteq> PBool b)"
    "\<forall>xs. dget d ''enum'' = Some (PList xs) \<longrightarrow> py_in v xs"
proof -
  from validate_head [OF assms] obtain d ty where h: "schema_head s v = Inr (d, ty)" by blast
  show thesis using schema_head_Inr [OF h] by (intro that [of d ty]) blast+
qed

end
