(* ===== verification/Tool_Policy.thy ===== *)
theory Tool_Policy imports Tool_Schema Contracts Recovery Approvals begin

text \<open>
  dante/tool_broker.py, everything before a tool runs: the registry of tools, the containment of
  paths, the preflight that admits a call, and the hash an approval is bound to. Paths are those of
  a POSIX host; a handler is the Python callable, given by what it returns and leaves in the file
  system.
\<close>

section \<open>Tools\<close>

text \<open>What calling a handler comes to: a value, an exception of a class, or no answer in time.\<close>

datatype handler_outcome = Returned pyval | Failed string | Silent

type_synonym handler = "fsys \<Rightarrow> pydict \<Rightarrow> handler_outcome \<times> fsys"

record workspace_method =
  wm_root :: string
  wm_permission :: string
  wm_schema :: pyval
  wm_paths :: "(string \<times> string) list"

text \<open>\<open>te_method\<close> is set when the registered handler is a \<open>WorkspaceMethod\<close>.\<close>

record tool_entry =
  te_manifest :: tool_manifest
  te_handler :: handler
  te_method :: "workspace_method option"
  te_required :: "string fset option"

type_synonym tool_registry = "(string \<times> tool_entry) list"

definition register ::
  "tool_manifest \<Rightarrow> handler \<Rightarrow> workspace_method option \<Rightarrow> string fset option \<Rightarrow> tool_registry \<Rightarrow> tool_registry" where
  "register m h method required reg =
     (let m' = (case method of
                  None \<Rightarrow> m
                | Some wm \<Rightarrow> if arguments_schema m = None
                             then m\<lparr>arguments_schema := Some (wm_schema wm), path_permissions := wm_paths wm\<rparr> else m);
          req = (case method of None \<Rightarrow> required | Some wm \<Rightarrow> Some {|wm_permission wm|})
      in dict_set (tool_id m') \<lparr>te_manifest = m', te_handler = h, te_method = method, te_required = req\<rparr> reg)"

definition manifest_of :: "tool_registry \<Rightarrow> string \<Rightarrow> tool_manifest result" where
  "manifest_of reg tid =
     (case map_of reg tid of None \<Rightarrow> Inl (ToolDenied POLICY_DENIED) | Some e \<Rightarrow> Inr (te_manifest e))"

section \<open>Paths\<close>

text \<open>\<open>ntpath.splitroot\<close>: the drive of a Windows path and what follows its root.\<close>

definition win_sep :: "char \<Rightarrow> bool" where
  "win_sep c = (c = CHR ''/'' \<or> c = CHR 0x5C)"

text \<open>The position of the first separator at or after \<open>i\<close>, if any.\<close>

definition find_sep :: "string \<Rightarrow> nat \<Rightarrow> nat option" where
  "find_sep p i = (let k = i + length (takeWhile (\<lambda>c. \<not> win_sep c) (drop i p)) in if k < length p then Some k else None)"

definition win_split :: "string \<Rightarrow> string \<times> string" where
  "win_split p =
     (if p \<noteq> [] \<and> win_sep (hd p) then
        if 1 < length p \<and> win_sep (p ! 1) then
          let norm = map (\<lambda>c. if c = CHR ''/'' then CHR 0x5C else c) p;
              start = (if upper (take 8 norm) = [CHR 0x5C, CHR 0x5C, CHR ''?'', CHR 0x5C, CHR ''U'', CHR ''N'', CHR ''C'', CHR 0x5C]
                       then 8 else 2)
          in (case find_sep p start of
                None \<Rightarrow> (p, [])
              | Some i \<Rightarrow> (case find_sep p (Suc i) of None \<Rightarrow> (p, []) | Some j \<Rightarrow> (take j p, drop (Suc j) p)))
        else ([], drop 1 p)
      else if 1 < length p \<and> p ! 1 = CHR '':'' then
        (take 2 p, if 2 < length p \<and> win_sep (p ! 2) then drop 3 p else drop 2 p)
      else ([], p))"

definition win_drive :: "string \<Rightarrow> string" where
  "win_drive p = fst (win_split p)"

definition win_components :: "string \<Rightarrow> string list" where
  "win_components p = concat (map (split_on (CHR 0x5C)) (split_on (CHR ''/'') (snd (win_split p))))"

definition absolute :: "string \<Rightarrow> bool" where
  "absolute p = startswith p ''/''"

definition posix_text :: "string list \<Rightarrow> string" where
  "posix_text cs = CHR ''/'' # join ''/'' cs"

text \<open>\<open>(candidate, *candidate.parents)\<close> of an absolute path.\<close>

definition self_and_parents :: "string list \<Rightarrow> string list list" where
  "self_and_parents cs = rev (map (\<lambda>n. take n cs) [0..<Suc (length cs)])"

definition contained_path :: "fsys \<Rightarrow> string \<Rightarrow> string \<Rightarrow> string result" where
  "contained_path F rt value =
     (if ''..'' \<in> set (win_components value) \<or> ''..'' \<in> set (path_parts value) then Inl ValueError
      else if win_drive value \<noteq> [] \<and> \<not> absolute value then Inl ValueError
      else
        let cs = (if absolute value then path_parts value else path_parts rt @ path_parts value)
        in if list_ex (\<lambda>p. is_link F (posix_text p)) (self_and_parents cs) then Inl ValueError
           else rbind (resolve F (posix_text cs)) (\<lambda>resolved.
                rbind (resolve F (posix_text (path_parts rt))) (\<lambda>base.
                  if relative_to resolved base then Inr resolved else Inl ValueError)))"

section \<open>Admission\<close>

definition supported_permissions :: "string fset" where
  "supported_permissions = {|''read_workspace'', ''write_workspace''|}"

definition policy_rejects :: "tool_entry \<Rightarrow> bool" where
  "policy_rejects e =
     (let m = te_manifest e in
      case te_required e of
        None \<Rightarrow> True
      | Some req \<Rightarrow>
          req \<noteq> permissions m \<or> \<not> req |\<subseteq>| supported_permissions
          \<or> risk m \<notin> {''R0'', ''R1''} \<or> secret_access m \<noteq> ''none'' \<or> network_scope m \<noteq> ''none''
          \<or> approval_policy m \<notin> {''never'', ''always''}
          \<or> (risk m = ''R0'' \<and> ''write_workspace'' |\<in>| req)
          \<or> arguments_schema m = None \<or> strip (tm_version m) = [] \<or> strip (tool_id m) = [])"

definition validates :: "pylib \<Rightarrow> tool_entry \<Rightarrow> pyval \<Rightarrow> pydict \<Rightarrow> unit result" where
  "validates L e schema args =
     rbind (digest L (PDict args)) (\<lambda>_.
     rbind (guard (case schema of PDict d \<Rightarrow> dget d ''type'' = Some (PStr ''object'') | _ \<Rightarrow> False) ValueError) (\<lambda>_.
     rbind (validate_schema schema (PDict args)) (\<lambda>_.
       case te_method e of None \<Rightarrow> Inr () | Some wm \<Rightarrow> validate_schema (wm_schema wm) (PDict args))))"

fun check_paths ::
  "fsys \<Rightarrow> string fset \<Rightarrow> string \<Rightarrow> pydict \<Rightarrow> (string \<times> string) list \<Rightarrow> unit result" where
  "check_paths F req rt args [] = Inr ()"
| "check_paths F req rt args ((name, permission) # ps) =
     (if permission |\<notin>| req then Inl ValueError
      else rbind (case dget args name of
                    None \<Rightarrow> Inr ()
                  | Some (PStr v) \<Rightarrow> rbind (contained_path F rt v) (\<lambda>_. Inr ())
                  | Some _ \<Rightarrow> Inl ValueError) (\<lambda>_.
           check_paths F req rt args ps))"

text \<open>Equal as mappings.\<close>

definition same_paths :: "(string \<times> string) list \<Rightarrow> (string \<times> string) list \<Rightarrow> bool" where
  "same_paths a b = (set a = set b)"

definition check_scope :: "fsys \<Rightarrow> task \<Rightarrow> tool_entry \<Rightarrow> string fset \<Rightarrow> pydict \<Rightarrow> unit result" where
  "check_scope F tk e req args =
     (let m = te_manifest e; scope = filesystem_scope m in
      if req \<noteq> {||} then
        rbind (guard (absolute scope \<and> absolute (workspace tk)) ValueError) (\<lambda>_.
        rbind (contained_path F (workspace tk) (posix_text (path_parts scope))) (\<lambda>_.
        rbind (case te_method e of
                 None \<Rightarrow> Inr ()
               | Some wm \<Rightarrow> rbind (resolve F (posix_text (path_parts scope))) (\<lambda>base.
                   guard (path_parts (wm_root wm) = path_parts base
                          \<and> same_paths (path_permissions m) (wm_paths wm)) ValueError)) (\<lambda>_.
          check_paths F req scope args (path_permissions m))))
      else guard (scope = ''none'' \<and> path_permissions m = []) ValueError)"

text \<open>
  \<open>None\<close> admits the call. The three \<open>try\<close> blocks turn the exceptions they name into a denial;
  any other exception escapes.
\<close>

definition preflight ::
  "pylib \<Rightarrow> fsys \<Rightarrow> tool_registry \<Rightarrow> task \<Rightarrow> string \<Rightarrow> pydict \<Rightarrow> tool_result option result" where
  "preflight L F reg tk tid args =
     (case map_of reg tid of
        None \<Rightarrow> Inr (Some (tool_outcome POLICY_DENIED))
      | Some e \<Rightarrow>
          if policy_rejects e then Inr (Some (tool_outcome POLICY_DENIED))
          else (case (arguments_schema (te_manifest e), te_required e) of
            (Some schema, Some req) \<Rightarrow>
              (case check_schema schema of
                 Inl ex \<Rightarrow> if ex \<in> {ValueError, TypeError} then Inr (Some (tool_outcome POLICY_DENIED)) else Inl ex
               | Inr _ \<Rightarrow>
                   (case validates L e schema args of
                      Inl ex \<Rightarrow> if ex \<in> {ValueError, TypeError, KeyError}
                                then Inr (Some (tool_outcome VALIDATION_DENIED)) else Inl ex
                    | Inr _ \<Rightarrow>
                        (case check_scope F tk e req args of
                           Inl ex \<Rightarrow> if ex \<in> {ValueError, OSError, RuntimeError}
                                     then Inr (Some (tool_outcome POLICY_DENIED)) else Inl ex
                         | Inr _ \<Rightarrow> Inr None)))
          | _ \<Rightarrow> Inr (Some (tool_outcome POLICY_DENIED))))"

section \<open>What an approval binds\<close>

definition dump_manifest :: "tool_manifest \<Rightarrow> pyval" where
  "dump_manifest m = PDict
     [(KStr ''tool_id'', PStr (tool_id m)), (KStr ''version'', PStr (tm_version m)),
      (KStr ''permissions'', PList (map PStr (sorted_list_of_fset (permissions m)))),
      (KStr ''risk'', PStr (risk m)), (KStr ''filesystem_scope'', PStr (filesystem_scope m)),
      (KStr ''network_scope'', PStr (network_scope m)), (KStr ''secret_access'', PStr (secret_access m)),
      (KStr ''approval_policy'', PStr (approval_policy m)), (KStr ''timeout_s'', PInt (int (timeout_s m))),
      (KStr ''output_limit_bytes'', PInt (int (output_limit_bytes m))),
      (KStr ''arguments_schema'', case arguments_schema m of None \<Rightarrow> PNone | Some v \<Rightarrow> v),
      (KStr ''path_permissions'', PDict (map (\<lambda>kv. (KStr (fst kv), PStr (snd kv))) (path_permissions m)))]"

definition action_value :: "task \<Rightarrow> tool_manifest \<Rightarrow> pydict \<Rightarrow> string \<Rightarrow> pyval" where
  "action_value tk m args ph = PDict
     [(KStr ''task'', PStr (task_id tk)), (KStr ''workspace'', PStr (workspace tk)),
      (KStr ''manifest'', dump_manifest m), (KStr ''arguments'', PDict args), (KStr ''plan'', PStr ph)]"

definition action_hash :: "pylib \<Rightarrow> tool_registry \<Rightarrow> task \<Rightarrow> string \<Rightarrow> pydict \<Rightarrow> string \<Rightarrow> string result" where
  "action_hash L reg tk tid args ph =
     rbind (manifest_of reg tid) (\<lambda>m. digest L (action_value tk m args ph))"

text \<open>\<open>ApprovalManager.request_tool\<close>; the identifier and the token are drawn.\<close>

definition request_tool ::
  "pylib \<Rightarrow> fsys \<Rightarrow> tool_registry \<Rightarrow> string \<Rightarrow> string \<Rightarrow> task \<Rightarrow> string \<Rightarrow> pydict \<Rightarrow> string \<Rightarrow> db
   \<Rightarrow> ((approval \<times> string) \<times> db) result" where
  "request_tool L F reg apid token tk tid args ph db =
     rbind (preflight L F reg tk tid args) (\<lambda>denied.
     rbind (guard (denied = None) PermissionError) (\<lambda>_.
     rbind (action_hash L reg tk tid args ph) (\<lambda>binding.
       request L apid token (task_id tk) ''tool.execute'' binding binding db)))"

definition authorize ::
  "pylib \<Rightarrow> tool_registry \<Rightarrow> task \<Rightarrow> string \<Rightarrow> pydict \<Rightarrow> string option \<Rightarrow> string \<Rightarrow> db
   \<Rightarrow> (tool_result option \<times> db) result" where
  "authorize L reg tk tid args apid ph db =
     rbind (manifest_of reg tid) (\<lambda>m.
       if approval_policy m = ''never'' then Inr (None, db)
       else (case apid of
               None \<Rightarrow> Inr (Some (tool_outcome APPROVAL_REQUIRED), db)
             | Some a \<Rightarrow>
                 rbind (action_hash L reg tk tid args ph) (\<lambda>h.
                   case consume_action a (task_id tk) h db of
                     Inl ex \<Rightarrow> if ex = PermissionError then Inr (Some (tool_outcome APPROVAL_INVALID), db) else Inl ex
                   | Inr db' \<Rightarrow> Inr (None, db'))))"

section \<open>The workspace methods\<close>

definition workspace_permission :: "string \<Rightarrow> string option" where
  "workspace_permission method = map_of
     [(''ensure_workspace'', ''write_workspace''), (''create_directory'', ''write_workspace''),
      (''write_text_file'', ''write_workspace''), (''file_exists'', ''read_workspace''),
      (''list_directory'', ''read_workspace'')] method"

definition string_schema :: pyval where
  "string_schema = PDict [(KStr ''type'', PStr ''string'')]"

definition workspace_method_for :: "string \<Rightarrow> string \<Rightarrow> workspace_method result" where
  "workspace_method_for rt method =
     (case workspace_permission method of
        None \<Rightarrow> Inl (ToolDenied POLICY_DENIED)
      | Some permission \<Rightarrow>
          let props = (if method = ''ensure_workspace'' then [] else [(KStr ''relative_path'', string_schema)])
                      @ (if method = ''write_text_file'' then [(KStr ''content'', string_schema)] else []);
              req = (if method \<in> {''ensure_workspace'', ''list_directory''} then [] else [PStr ''relative_path''])
                    @ (if method = ''write_text_file'' then [PStr ''content''] else []);
              schema = PDict [(KStr ''type'', PStr ''object''), (KStr ''properties'', PDict props),
                              (KStr ''required'', PList req), (KStr ''additionalProperties'', PBool False)]
          in Inr \<lparr>wm_root = rt, wm_permission = permission, wm_schema = schema,
                  wm_paths = (if props = [] then [] else [(''relative_path'', permission)])\<rparr>)"

section \<open>Containment\<close>

lemma contained_path_Inr:
  assumes "contained_path F rt value = Inr p"
  obtains base cs where "cs = (if absolute value then path_parts value else path_parts rt @ path_parts value)"
    "''..'' \<notin> set (path_parts value)" "''..'' \<notin> set (win_components value)"
    "\<And>n. \<not> is_link F (posix_text (take n cs))"
    "resolve F (posix_text cs) = Inr p" "resolve F (posix_text (path_parts rt)) = Inr base" "relative_to p base"
proof -
  let ?cs = "if absolute value then path_parts value else path_parts rt @ path_parts value"
  have "\<not> is_link F (posix_text (take n ?cs))" if "\<not> list_ex (\<lambda>p. is_link F (posix_text p)) (self_and_parents ?cs)" for n
  proof -
    have "take n ?cs = take (min n (length ?cs)) ?cs" by (simp add: min_def)
    then have "take n ?cs \<in> set (self_and_parents ?cs)"
      by (auto simp: self_and_parents_def image_iff intro!: bexI [of _ "min n (length ?cs)"])
    with that show ?thesis by (auto simp: list_ex_iff)
  qed
  moreover from assms obtain base where "''..'' \<notin> set (path_parts value)" "''..'' \<notin> set (win_components value)"
    "\<not> list_ex (\<lambda>p. is_link F (posix_text p)) (self_and_parents ?cs)"
    "resolve F (posix_text ?cs) = Inr p" "resolve F (posix_text (path_parts rt)) = Inr base" "relative_to p base"
    unfolding contained_path_def Let_def by (auto simp: rbind_eq_Inr split: if_split_asm)
  ultimately show thesis by (intro that [OF refl]) auto
qed

lemma check_paths_Inr:
  assumes "check_paths F req rt args ps = Inr ()" "(name, permission) \<in> set ps"
  shows "permission |\<in>| req \<and> (dget args name = None \<or> (\<exists>v p. dget args name = Some (PStr v) \<and> contained_path F rt v = Inr p))"
  using assms
  by (induction F req rt args ps rule: check_paths.induct)
     (auto simp: rbind_eq_Inr split: if_splits option.splits pyval.splits)

section \<open>What the preflight admits\<close>

lemma preflight_admits:
  assumes "preflight L F reg tk tid args = Inr None"
  obtains e m req schema where "map_of reg tid = Some e" "m = te_manifest e" "te_required e = Some req"
    "permissions m = req" "req |\<subseteq>| supported_permissions" "risk m \<in> {''R0'', ''R1''}"
    "risk m = ''R0'' \<longrightarrow> ''write_workspace'' |\<notin>| req"
    "secret_access m = ''none''" "network_scope m = ''none''" "approval_policy m \<in> {''never'', ''always''}"
    "arguments_schema m = Some schema" "check_schema schema = Inr ()" "validates L e schema args = Inr ()"
    "check_scope F tk e req args = Inr ()"
proof -
  from assms obtain e where e: "map_of reg tid = Some e" "\<not> policy_rejects e"
    by (auto simp: preflight_def split: option.splits if_splits)
  then obtain req schema where r: "te_required e = Some req" "arguments_schema (te_manifest e) = Some schema"
    by (auto simp: policy_rejects_def Let_def split: option.splits)
  with assms e have "check_schema schema = Inr ()" "validates L e schema args = Inr ()" "check_scope F tk e req args = Inr ()"
    by (auto simp: preflight_def split: sum.splits if_splits)
  with e r show thesis
    by (intro that [of e "te_manifest e" req schema]) (auto simp: policy_rejects_def Let_def)
qed

lemma validates_Inr:
  assumes "validates L e schema args = Inr ()"
  shows "\<exists>h. digest L (PDict args) = Inr h" "validate_schema schema (PDict args) = Inr ()"
    "te_method e = Some wm \<Longrightarrow> validate_schema (wm_schema wm) (PDict args) = Inr ()"
  using assms by (auto simp: validates_def rbind_eq_Inr)

lemma check_scope_paths:
  assumes "check_scope F tk e req args = Inr ()" "(name, permission) \<in> set (path_permissions (te_manifest e))"
    "dget args name = Some v"
  shows "permission |\<in>| req \<and> (\<exists>s p p'. v = PStr s
     \<and> contained_path F (filesystem_scope (te_manifest e)) s = Inr p
     \<and> contained_path F (workspace tk) (posix_text (path_parts (filesystem_scope (te_manifest e)))) = Inr p')"
proof -
  from assms(1,2) have "req \<noteq> {||}"
    by (auto simp: check_scope_def Let_def split: if_splits)
  with assms(1) obtain p' where
    "contained_path F (workspace tk) (posix_text (path_parts (filesystem_scope (te_manifest e)))) = Inr p'"
    "check_paths F req (filesystem_scope (te_manifest e)) args (path_permissions (te_manifest e)) = Inr ()"
    by (auto simp: check_scope_def Let_def rbind_eq_Inr)
  with check_paths_Inr [OF this(2) assms(2)] assms(3) show ?thesis by auto
qed

section \<open>What the hash binds\<close>

lemma dget_sort:
  assumes "distinct (map fst d)"
  shows "map_of (sort_key f d) k = map_of d k"
proof -
  have "distinct (map fst (sort_key f d))"
    using assms by (simp add: distinct_map inj_on_def)
  then have "map_of (sort_key f d) k = Some v \<longleftrightarrow> map_of d k = Some v" for v
    using assms by (simp add: map_of_eq_Some_iff)
  then show ?thesis by (metis not_None_eq)
qed

lemma norm_dget:
  assumes "distinct (map fst d)" "norm (PDict d) = PDict e"
  shows "dget e k = map_option norm (dget d k)"
proof -
  have e: "e = sort_key (\<lambda>kv. key_text (fst kv)) (norm_items d)" using assms(2) by simp
  have d: "map fst (norm_items d) = map fst d" by (simp add: norm_items_map comp_def)
  have "dget e k = map_of (norm_items d) (KStr k)"
    using assms(1) unfolding e dget_def by (intro dget_sort) (simp add: d)
  also have "\<dots> = map_option norm (map_of d (KStr k))"
    by (induction d) (auto simp: norm_items_map)
  finally show ?thesis by (simp add: dget_def)
qed

lemma norm_dict_eq:
  assumes "norm (PDict d) = norm (PDict d')" "distinct (map fst d)" "distinct (map fst d')"
  shows "map_option norm (dget d k) = map_option norm (dget d' k)"
  using assms norm_dget [OF assms(2)] norm_dget [OF assms(3)] by (metis norm.simps(3))

lemma norm_PStr_inj: "norm (PStr s) = norm (PStr t) \<Longrightarrow> s = t"
  by simp

text \<open>The fields of a manifest its dump determines.\<close>

definition same_manifest :: "tool_manifest \<Rightarrow> tool_manifest \<Rightarrow> bool" where
  "same_manifest m m' \<longleftrightarrow>
     tool_id m' = tool_id m \<and> tm_version m' = tm_version m \<and> permissions m' = permissions m \<and> risk m' = risk m
     \<and> filesystem_scope m' = filesystem_scope m \<and> network_scope m' = network_scope m
     \<and> secret_access m' = secret_access m \<and> approval_policy m' = approval_policy m
     \<and> timeout_s m' = timeout_s m \<and> output_limit_bytes m' = output_limit_bytes m"

lemma norm_strings: "norm_list (map PStr xs) = map PStr xs"
  by (induction xs) auto

lemma dump_manifest_same:
  assumes "norm (dump_manifest m) = norm (dump_manifest m')"
  shows "same_manifest m m'"
proof -
  have key: "map_option norm (dget (case dump_manifest m of PDict d \<Rightarrow> d | _ \<Rightarrow> []) k) =
      map_option norm (dget (case dump_manifest m' of PDict d \<Rightarrow> d | _ \<Rightarrow> []) k)" for k
    by (rule norm_dict_eq) (use assms in \<open>auto simp: dump_manifest_def\<close>)
  note field = key [simplified dump_manifest_def dget_def, simplified]
  have "sorted_list_of_fset (permissions m') = sorted_list_of_fset (permissions m)"
    using field [of "''permissions''"] by (simp add: norm_strings inj_map_eq_map inj_def)
  then have "permissions m' = permissions m"
    by (metis sorted_list_of_fset_simps(1) fset_inject)
  then show ?thesis
    using field [of "''tool_id''"] field [of "''version''"] field [of "''risk''"] field [of "''filesystem_scope''"]
      field [of "''network_scope''"] field [of "''secret_access''"] field [of "''approval_policy''"]
      field [of "''timeout_s''"] field [of "''output_limit_bytes''"]
    by (simp add: same_manifest_def)
qed

lemma action_value_same:
  assumes "norm (action_value tk m args ph) = norm (action_value tk' m' args' ph')"
  shows "task_id tk' = task_id tk \<and> workspace tk' = workspace tk \<and> same_manifest m m'
     \<and> norm (PDict args') = norm (PDict args) \<and> ph' = ph"
proof -
  have key: "map_option norm (dget (case action_value tk m args ph of PDict d \<Rightarrow> d | _ \<Rightarrow> []) k) =
      map_option norm (dget (case action_value tk' m' args' ph' of PDict d \<Rightarrow> d | _ \<Rightarrow> []) k)" for k
    by (rule norm_dict_eq) (use assms in \<open>auto simp: action_value_def\<close>)
  note field = key [simplified action_value_def dget_def, simplified]
  have "same_manifest m m'" using field [of "''manifest''"] by (intro dump_manifest_same) simp
  then show ?thesis
    using field [of "''task''"] field [of "''workspace''"] field [of "''arguments''"] field [of "''plan''"]
    by simp
qed

end
