(* ===== verification/Tool_Broker.thy ===== *)
theory Tool_Broker imports Programs Tool_Policy begin

text \<open>
  dante/tool_broker.py, the calls: running a handler with its limits, and \<open>invoke\<close>, which admits,
  authorizes, journals, runs and records one tool action. \<open>invoke\<close> is a program of transactions;
  the handler runs outside every transaction. A timed-out handler is abandoned, not stopped; what
  it still does to the files is left to the environment.
\<close>

section \<open>Output\<close>

text \<open>\<open>len(s.encode('utf-8'))\<close> for code points below 256.\<close>

definition utf8_len :: "string \<Rightarrow> nat" where
  "utf8_len s = sum_list (map (\<lambda>c. if (of_char c :: nat) < 128 then 1 else 2) s)"

text \<open>\<open>json.loads(json.dumps(v))\<close>: tuples become lists, integer keys strings; the last of equal keys stays.\<close>

definition copy_key :: "pykey \<Rightarrow> pykey" where
  "copy_key k = (case k of KStr s \<Rightarrow> KStr s | KInt i \<Rightarrow> KStr (dec_int i))"

fun json_copy :: "pyval \<Rightarrow> pyval"
  and json_copy_list :: "pyval list \<Rightarrow> pyval list"
  and json_copy_items :: "pydict \<Rightarrow> pydict" where
  "json_copy (PList xs) = PList (json_copy_list xs)"
| "json_copy (PTuple xs) = PList (json_copy_list xs)"
| "json_copy (PDict d) = PDict (dict_merge [] (json_copy_items d))"
| "json_copy PNone = PNone"
| "json_copy (PBool b) = PBool b"
| "json_copy (PInt i) = PInt i"
| "json_copy (PFloat f) = PFloat f"
| "json_copy (PStr s) = PStr s"
| "json_copy_list [] = []"
| "json_copy_list (x # xs) = json_copy x # json_copy_list xs"
| "json_copy_items [] = []"
| "json_copy_items ((k, v) # d) = (copy_key k, json_copy v) # json_copy_items d"

text \<open>
  The chunks of \<open>JSONEncoder(ensure_ascii=False, allow_nan=False).iterencode\<close>, in order; \<open>None\<close>
  is the \<open>ValueError\<close> of a float that is not finite. A scalar in a list comes in one chunk with
  the bracket or comma before it.
\<close>

fun scalar_chunk :: "(rat \<Rightarrow> string) \<Rightarrow> pyval \<Rightarrow> string option" where
  "scalar_chunk fr (PFloat f) = (case f of Fin q \<Rightarrow> Some (fr q) | _ \<Rightarrow> None)"
| "scalar_chunk fr v = Some (json_text fr v)"

definition is_scalar :: "pyval \<Rightarrow> bool" where
  "is_scalar v = (case v of PList _ \<Rightarrow> False | PTuple _ \<Rightarrow> False | PDict _ \<Rightarrow> False | _ \<Rightarrow> True)"

fun chunks :: "(rat \<Rightarrow> string) \<Rightarrow> pyval \<Rightarrow> string option list"
  and chunk_elems :: "(rat \<Rightarrow> string) \<Rightarrow> string \<Rightarrow> pyval list \<Rightarrow> string option list"
  and chunk_items :: "(rat \<Rightarrow> string) \<Rightarrow> bool \<Rightarrow> pydict \<Rightarrow> string option list" where
  "chunks fr (PList xs) = (if xs = [] then [Some ''[]''] else chunk_elems fr ''['' xs)"
| "chunks fr (PTuple xs) = (if xs = [] then [Some ''[]''] else chunk_elems fr ''['' xs)"
| "chunks fr (PDict d) = (if d = [] then [Some [CHR 0x7B, CHR 0x7D]] else Some [CHR 0x7B] # chunk_items fr True d)"
| "chunks fr v = [scalar_chunk fr v]"
| "chunk_elems fr buf [] = [Some '']'']"
| "chunk_elems fr buf (x # xs) =
     (if is_scalar x then [map_option (\<lambda>t. buf @ t) (scalar_chunk fr x)] else Some buf # chunks fr x)
     @ chunk_elems fr '', '' xs"
| "chunk_items fr first [] = [Some [CHR 0x7D]]"
| "chunk_items fr first ((k, v) # d) =
     (if first then [] else [Some '', '']) @ [Some (json_str (key_text (copy_key k))), Some '': ''] @ chunks fr v
     @ chunk_items fr False d"

datatype scan_result = Fits | Exceeds | Unencodable

fun scan_chunks :: "nat \<Rightarrow> nat \<Rightarrow> string option list \<Rightarrow> scan_result" where
  "scan_chunks limit n [] = Fits"
| "scan_chunks limit n (None # cs) = Unencodable"
| "scan_chunks limit n (Some t # cs) =
     (if limit < n + utf8_len t then Exceeds else scan_chunks limit (n + utf8_len t) cs)"

section \<open>Running a handler\<close>

definition failure :: "string \<Rightarrow> tool_result" where
  "failure name = (tool_outcome EXECUTION_FAILURE)\<lparr>effect_uncertain := True, error_type := Some (take 80 name)\<rparr>"

definition uncertain_outcome :: "tool_status \<Rightarrow> tool_result" where
  "uncertain_outcome s = (tool_outcome s)\<lparr>effect_uncertain := True\<rparr>"

definition measured :: "pylib \<Rightarrow> nat \<Rightarrow> pyval \<Rightarrow> tool_result" where
  "measured L limit raw =
     (case scan_chunks limit 0 (chunks (float_repr L) raw) of
        Exceeds \<Rightarrow> uncertain_outcome OUTPUT_LIMIT
      | Unencodable \<Rightarrow> failure ''ValueError''
      | Fits \<Rightarrow>
          (case raw of
             PDict d \<Rightarrow>
               if is_True (dget d ''ok'')
               then (case json_copy raw of
                       PDict d' \<Rightarrow> (tool_outcome SUCCESS)\<lparr>res_data := Some d'\<rparr>
                     | _ \<Rightarrow> failure ''RuntimeError'')
               else failure ''RuntimeError''
           | _ \<Rightarrow> failure ''RuntimeError''))"

definition judge :: "pylib \<Rightarrow> nat \<Rightarrow> handler_outcome \<Rightarrow> tool_result" where
  "judge L limit out =
     (case out of
        Silent \<Rightarrow> uncertain_outcome TIMEOUT
      | Failed name \<Rightarrow> failure name
      | Returned (PStr s) \<Rightarrow>
          if limit < utf8_len s then uncertain_outcome OUTPUT_LIMIT
          else (case json_loads L s of None \<Rightarrow> failure ''JSONDecodeError'' | Some v \<Rightarrow> measured L limit v)
      | Returned v \<Rightarrow> measured L limit v)"

text \<open>The call itself: it may change files, and \<open>w_runs\<close> notes it.\<close>

definition run_tool :: "environment \<Rightarrow> tool_registry \<Rightarrow> string \<Rightarrow> pydict \<Rightarrow> tool_result prog" where
  "run_tool E reg tid args w =
     (case map_of reg tid of
        None \<Rightarrow> (Inl KeyError, w)
      | Some e \<Rightarrow>
          (case te_handler e (w_files w) args of
             (out, F') \<Rightarrow> (Inr (judge (e_lib E) (output_limit_bytes (te_manifest e)) out),
                          w\<lparr>w_files := F', w_runs := w_runs w @ [(tid, args)]\<rparr>)))"

section \<open>One invocation\<close>

definition record_outcome :: "environment \<Rightarrow> task \<Rightarrow> string \<Rightarrow> tool_result \<Rightarrow> string option \<Rightarrow> unit prog" where
  "record_outcome E tk tid r sid =
     commit E (\<lambda>x F db.
       rbind (digest (e_lib E) (PStr tid)) (\<lambda>h.
         record_tool_outcome x (task_id tk) h (tool_status_value (res_status r)) sid db))"

text \<open>
  The two \<open>except\<close> clauses around the journalled part; \<open>step\<close> is what the local variable holds when
  the exception arrives.
\<close>

definition escape ::
  "environment \<Rightarrow> task \<Rightarrow> step_record option \<Rightarrow> exn \<Rightarrow> (tool_result \<times> step_record option) prog" where
  "escape E tk step e =
     (if e = ReconciliationRequired then ret (uncertain_outcome UNCERTAIN, step)
      else (case step of
              None \<Rightarrow> throw e
            | Some s \<Rightarrow> pbind (commit E (\<lambda>x F db. mark_uncertain x (task_id tk) (step_id s) ''execution_failure'' db))
                              (\<lambda>_. throw e)))"

text \<open>After the claim: run, then finish or mark uncertain.\<close>

definition perform :: "environment \<Rightarrow> tool_registry \<Rightarrow> task \<Rightarrow> string \<Rightarrow> pydict \<Rightarrow> step_record \<Rightarrow> tool_result prog" where
  "perform E reg tk tid args s =
     pbind (commit E (\<lambda>x F db. claim_step (e_lib E) F x (task_id tk) (step_id s) db)) (\<lambda>_.
     pbind (run_tool E reg tid args) (\<lambda>r.
     pbind (if res_status r = SUCCESS
            then (case res_data r of
                    None \<Rightarrow> throw AttributeError
                  | Some d \<Rightarrow> pbind (transact E (\<lambda>x F db. finish_step (e_lib E) F x (task_id tk) (step_id s) d db)) (\<lambda>_. ret ()))
            else commit E (\<lambda>x F db. mark_uncertain x (task_id tk) (step_id s)
                   (case error_type r of
                      Some n \<Rightarrow> if n = [] then tool_status_value (res_status r) else n
                    | None \<Rightarrow> tool_status_value (res_status r)) db))
       (\<lambda>_. ret r)))"

definition journalled ::
  "environment \<Rightarrow> tool_registry \<Rightarrow> task \<Rightarrow> tool_manifest \<Rightarrow> string \<Rightarrow> pydict \<Rightarrow> string option \<Rightarrow> string \<Rightarrow> string option
   \<Rightarrow> step_record option \<Rightarrow> (tool_result \<times> step_record option) prog" where
  "journalled E reg tk m tid args apid ph key step =
     (let L = e_lib E; fresh_step =
        attempt_prog (transact E (\<lambda>x F db. authorize L reg tk tid args apid ph db)) (escape E tk step) (\<lambda>denied.
          case denied of
            Some r \<Rightarrow> ret (r, step)
          | None \<Rightarrow>
              attempt_prog (with_fresh E (\<lambda>sid. transact E (\<lambda>x F db.
                  prepare_step L x sid (task_id tk) tid (tm_version m) args key db))) (escape E tk step) (\<lambda>s.
              attempt_prog (perform E reg tk tid args s) (escape E tk (Some s)) (\<lambda>r. ret (r, Some s))))
      in case step of
           None \<Rightarrow> fresh_step
         | Some s \<Rightarrow>
             (case sr_state s of
                StSucceeded \<Rightarrow>
                  attempt_prog (query E (\<lambda>x F db. verified_step_result L F db (task_id tk) (step_id s))) (escape E tk step)
                    (\<lambda>d. ret ((tool_outcome SUCCESS)\<lparr>res_data := Some d\<rparr>, step))
              | StStarted \<Rightarrow> ret (uncertain_outcome UNCERTAIN, step)
              | StUncertain \<Rightarrow> ret (uncertain_outcome UNCERTAIN, step)
              | StIntent \<Rightarrow> fresh_step))"

definition finish_invoke :: "environment \<Rightarrow> task \<Rightarrow> string \<Rightarrow> tool_result \<Rightarrow> step_record option \<Rightarrow> tool_result prog" where
  "finish_invoke E tk tid r step =
     (let sid = map_option step_id step; r' = r\<lparr>res_step_id := sid\<rparr>
      in pbind (record_outcome E tk tid r' sid) (\<lambda>_. ret r'))"

text \<open>
  \<open>invoke\<close> with a ledger; without one every admitted call is denied. The arguments a caller may still
  change are copied first.
\<close>

definition invoke ::
  "environment \<Rightarrow> tool_registry \<Rightarrow> string \<Rightarrow> string \<Rightarrow> pydict \<Rightarrow> string option \<Rightarrow> string \<Rightarrow> string option
   \<Rightarrow> tool_result prog" where
  "invoke E reg task_identifier tid args0 apid ph key =
     (let L = e_lib E in
      pbind (query E (\<lambda>x F db. get_task db task_identifier)) (\<lambda>tk.
        case (digest L (PDict args0), json_copy (PDict args0)) of
          (Inr _, PDict args) \<Rightarrow>
            pbind (query E (\<lambda>x F db. preflight L F reg tk tid args)) (\<lambda>denied.
              case denied of
                Some r \<Rightarrow> finish_invoke E tk tid r None
              | None \<Rightarrow>
                  (case manifest_of reg tid of
                     Inl e \<Rightarrow> throw e
                   | Inr m \<Rightarrow>
                       attempt_prog (query E (\<lambda>x F db. lookup_step L (task_id tk) tid (tm_version m) args key db))
                         (\<lambda>e. if e = ValueError
                              then pbind (record_outcome E tk tid (tool_outcome VALIDATION_DENIED) None)
                                     (\<lambda>_. ret (tool_outcome VALIDATION_DENIED))
                              else throw e)
                         (\<lambda>step. pbind (journalled E reg tk m tid args apid ph key step)
                            (\<lambda>rs. finish_invoke E tk tid (fst rs) (snd rs)))))
        | _ \<Rightarrow> pbind (record_outcome E tk tid (tool_outcome VALIDATION_DENIED) None)
                 (\<lambda>_. ret (tool_outcome VALIDATION_DENIED))))"

text \<open>\<open>execute\<close>: only a success returns; the legacy flag \<open>approved\<close> grants nothing.\<close>

definition execute ::
  "environment \<Rightarrow> tool_registry \<Rightarrow> string \<Rightarrow> string \<Rightarrow> pydict \<Rightarrow> bool \<Rightarrow> string option \<Rightarrow> string \<Rightarrow> string option
   \<Rightarrow> pydict option prog" where
  "execute E reg task_identifier tid args approved apid ph key =
     pbind (invoke E reg task_identifier tid args apid ph key) (\<lambda>r.
       if res_status r \<noteq> SUCCESS then throw (ToolDenied (res_status r)) else ret (res_data r))"

section \<open>An invocation is a run of the ledger\<close>

lemma authorize_cases:
  assumes "authorize L reg tk tid args apid ph db = Inr (r, db')"
  obtains "r = None" "db' = db" "\<exists>m. manifest_of reg tid = Inr m \<and> approval_policy m = ''never''"
  | st where "r = Some (tool_outcome st)" "st \<noteq> SUCCESS" "db' = db"
  | a h where "r = None" "apid = Some a" "action_hash L reg tk tid args ph = Inr h"
      "consume_action a (task_id tk) h db = Inr db'"
proof -
  from assms obtain m where m: "manifest_of reg tid = Inr m" by (auto simp: authorize_def elim: rbindE)
  show thesis
  proof (cases "approval_policy m = ''never''")
    case True
    with assms m show thesis by (intro that(1)) (auto simp: authorize_def)
  next
    case False
    show thesis
    proof (cases apid)
      case None
      with assms m False show thesis by (intro that(2) [of APPROVAL_REQUIRED]) (auto simp: authorize_def)
    next
      case (Some a)
      with assms m False obtain h where h: "action_hash L reg tk tid args ph = Inr h"
        by (auto simp: authorize_def elim: rbindE)
      with assms m False Some show thesis
        by (cases "consume_action a (task_id tk) h db")
           (auto simp: authorize_def split: if_splits intro: that(2) [of APPROVAL_INVALID] that(3))
    qed
  qed
qed

lemma authorize_steps: "steps_of_op L (\<lambda>x F db. authorize L reg tk tid args apid ph db)"
  unfolding steps_of_op_def
proof (intro allI impI)
  fix x F db a db'
  assume "authorize L reg tk tid args apid ph db = Inr (a, db')"
  then show "(ledger_step L)\<^sup>*\<^sup>* db db'"
    by (cases rule: authorize_cases) (auto intro: Consume)
qed

lemma run_tool_ledger: "stays (ledger_run L) (run_tool E reg tid args)"
  by (auto simp: stays_def ledger_run_def run_tool_def split: option.splits prod.splits)

lemma record_outcome_ledger: "quiet E \<Longrightarrow> stays (ledger_run (e_lib E)) (record_outcome E tk tid r sid)"
  unfolding record_outcome_def
  by (intro commit_ledger) (auto simp: rbind_eq_Inr intro: Tool_Outcome)

lemma escape_ledger: "quiet E \<Longrightarrow> stays (ledger_run (e_lib E)) (escape E tk step e)"
  unfolding escape_def
  by (intro ledger.stays_if ledger.stays_option ledger.stays_pbind commit_ledger ledger.stays_ret ledger.stays_throw)
     (auto intro: Uncertain)

lemma perform_ledger: "quiet E \<Longrightarrow> stays (ledger_run (e_lib E)) (perform E reg tk tid args s)"
  unfolding perform_def
  by (intro ledger.stays_if ledger.stays_option ledger.stays_pbind commit_ledger transact_ledger run_tool_ledger
        ledger.stays_ret ledger.stays_throw)
     (auto intro: Uncertain Claim_Step Finish simp: steps_of_op_def)

lemma journalled_ledger: "quiet E \<Longrightarrow> stays (ledger_run (e_lib E)) (journalled E reg tk m tid args apid ph key step)"
proof -
  assume q: "quiet E"
  have f: "stays (ledger_run (e_lib E)) (attempt_prog (transact E (\<lambda>x F db. authorize (e_lib E) reg tk tid args apid ph db)) (escape E tk step) (\<lambda>denied.
          case denied of
            Some r \<Rightarrow> ret (r, step)
          | None \<Rightarrow>
              attempt_prog (with_fresh E (\<lambda>sid. transact E (\<lambda>x F db.
                  prepare_step (e_lib E) x sid (task_id tk) tid (tm_version m) args key db))) (escape E tk step) (\<lambda>s.
              attempt_prog (perform E reg tk tid args s) (escape E tk (Some s)) (\<lambda>r. ret (r, Some s)))))"
    by (intro ledger.stays_attempt ledger.stays_option ledger.stays_fresh transact_ledger authorize_steps
          perform_ledger escape_ledger ledger.stays_ret q refl)
       (auto simp: steps_of_op_def intro: Prepare)
  show ?thesis
    unfolding journalled_def Let_def
    using f by (auto split: option.splits step_state.splits intro!: ledger.stays_attempt query_ledger escape_ledger q)
qed

lemma finish_invoke_ledger: "quiet E \<Longrightarrow> stays (ledger_run (e_lib E)) (finish_invoke E tk tid r step)"
  unfolding finish_invoke_def Let_def by (intro ledger.stays_pbind record_outcome_ledger ledger.stays_ret)

lemma invoke_ledger: "quiet E \<Longrightarrow> stays (ledger_run (e_lib E)) (invoke E reg ti tid args0 apid ph key)"
  unfolding invoke_def Let_def
  by (auto intro!: ledger.stays_pbind ledger.stays_attempt ledger.stays_if query_ledger record_outcome_ledger
        finish_invoke_ledger journalled_ledger split: option.splits sum.splits pyval.splits)

end
