(* ===== verification/Broker_Effects.thy ===== *)
theory Broker_Effects imports Tool_Broker begin

text \<open>
  How often \<open>invoke\<close> runs a handler. A step of the journal is spent once it has left the state
  intent; only a reconciliation brings it back. An invocation calls the handler at most once, only
  when the step of its key is not yet spent, and leaves that step spent.
\<close>

section \<open>Spent keys\<close>

definition spent :: "db \<Rightarrow> string \<Rightarrow> string \<Rightarrow> bool" where
  "spent db t k =
     list_ex (\<lambda>s. sr_task_id s = t \<and> idempotency_key s = k \<and> sr_state s \<noteq> StIntent) (t_rows (execution_steps db))"

definition sound :: "pylib \<Rightarrow> db \<Rightarrow> bool" where
  "sound L db \<longleftrightarrow> tasks_keyed db \<and> journal_ok L db"

definition has_step :: "db \<Rightarrow> string \<Rightarrow> string \<Rightarrow> string \<Rightarrow> bool" where
  "has_step db sid t k \<longleftrightarrow>
     (\<exists>s. t_get (execution_steps db) sid = Some s \<and> sr_task_id s = t \<and> idempotency_key s = k)"

text \<open>The key under which an invocation is journalled.\<close>

definition invocation_key :: "pylib \<Rightarrow> tool_registry \<Rightarrow> string \<Rightarrow> pydict \<Rightarrow> string option \<Rightarrow> string result" where
  "invocation_key L reg tid args0 key =
     (case json_copy (PDict args0) of
        PDict args \<Rightarrow>
          rbind (manifest_of reg tid) (\<lambda>m.
          rbind (digest L (PDict args)) (\<lambda>d. step_key L tid (tm_version m) d key))
      | _ \<Rightarrow> Inl TypeError)"

lemma spent_iff:
  assumes "journal_ok L db"
  shows "spent db t k \<longleftrightarrow> (\<exists>sid s. t_get (execution_steps db) sid = Some s \<and> sr_task_id s = t
           \<and> idempotency_key s = k \<and> sr_state s \<noteq> StIntent)"
proof -
  have "t_wf (execution_steps db)" using assms by (simp add: journal_ok_def)
  have "s \<in> set (t_rows (execution_steps db)) \<longleftrightarrow> (\<exists>sid. t_get (execution_steps db) sid = Some s)" for s
  proof
    assume "s \<in> set (t_rows (execution_steps db))"
    then obtain i where "(i, s) \<in> set (execution_steps db)" by (auto simp: t_rows_def)
    with \<open>t_wf (execution_steps db)\<close> show "\<exists>sid. t_get (execution_steps db) sid = Some s" by (blast intro: t_wf_get)
  next
    assume "\<exists>sid. t_get (execution_steps db) sid = Some s"
    then show "s \<in> set (t_rows (execution_steps db))" by (force simp: t_rows_def dest: t_get_in_set)
  qed
  then show ?thesis unfolding spent_def list_ex_iff by blast
qed

lemma sound_run:
  assumes "sound L db" "(ledger_step L)\<^sup>*\<^sup>* db db'"
  shows "sound L db' \<and> journal_moves db db'"
  using assms statuses.run_inv [of L db db'] journal.run_inv [of L db db'] claims.run_rel [OF assms(2)]
  by (simp add: sound_def ledger_repair)

lemma has_step_moves: "journal_moves db db' \<Longrightarrow> has_step db sid t k \<Longrightarrow> has_step db' sid t k"
  unfolding has_step_def journal_moves_def step_moves_def same_step_def by metis

lemma budget_spent: "step_moves s s' \<Longrightarrow> sr_state s \<noteq> StIntent \<Longrightarrow> sr_state s' \<noteq> StIntent"
  by (auto simp: step_moves_def claim_budget_def split: if_splits)

lemma spent_moves:
  assumes "journal_ok L db" "journal_ok L db'" "journal_moves db db'" "spent db t k"
  shows "spent db' t k"
proof -
  from assms(1,4) obtain sid s where s: "t_get (execution_steps db) sid = Some s" "sr_task_id s = t"
      "idempotency_key s = k" "sr_state s \<noteq> StIntent"
    unfolding spent_iff [OF assms(1)] by blast
  with assms(3) obtain s' where s': "t_get (execution_steps db') sid = Some s'" "step_moves s s'"
    unfolding journal_moves_def by blast
  with s budget_spent show ?thesis
    unfolding spent_iff [OF assms(2)] step_moves_def same_step_def by metis
qed

section \<open>At most one call for a key\<close>

definition once :: "pylib \<Rightarrow> string \<Rightarrow> string \<Rightarrow> world \<Rightarrow> world \<Rightarrow> bool" where
  "once L t k w w' \<longleftrightarrow> (sound L (w_db w) \<longrightarrow>
     sound L (w_db w') \<and> journal_moves (w_db w) (w_db w')
     \<and> (no_call w w' \<or> \<not> spent (w_db w) t k \<and> spent (w_db w') t k \<and> (\<exists>c. w_runs w' = w_runs w @ [c])))"

lemma once_trans: 
  assumes "once L t k w1 w2" "once L t k w2 w3"
  shows "once L t k w1 w3"
  unfolding once_def
proof
  assume 1: "sound L (w_db w1)"
  with assms(1) have 2: "sound L (w_db w2)" "journal_moves (w_db w1) (w_db w2)" by (auto simp: once_def)
  with assms(2) have 3: "sound L (w_db w3)" "journal_moves (w_db w2) (w_db w3)" by (auto simp: once_def)
  have "spent (w_db w1) t k \<Longrightarrow> spent (w_db w2) t k" "spent (w_db w2) t k \<Longrightarrow> spent (w_db w3) t k"
    using 1 2 3 spent_moves unfolding sound_def by blast+
  with assms 1 2 3 show "sound L (w_db w3) \<and> journal_moves (w_db w1) (w_db w3)
     \<and> (no_call w1 w3 \<or> \<not> spent (w_db w1) t k \<and> spent (w_db w3) t k \<and> (\<exists>c. w_runs w3 = w_runs w1 @ [c]))"
    unfolding once_def no_call_def by (metis journal_moves_trans)
qed

lemma once_silent: "ledger_run L w w' \<Longrightarrow> no_call w w' \<Longrightarrow> once L t k w w'"
  unfolding once_def ledger_run_def using sound_run by blast

interpretation single: ledger_relation "once L t k" L
proof unfold_locales
  show "once L t k w w" for w by (simp add: once_def no_call_def)
qed (fact once_trans once_silent)+

lemma stays_once: "stays (ledger_run L) m \<Longrightarrow> stays no_call m \<Longrightarrow> stays (once L t k) m"
  unfolding stays_def using once_silent by blast

lemma once_sound: "once L t k w w' \<Longrightarrow> sound L (w_db w) \<Longrightarrow> sound L (w_db w') \<and> journal_moves (w_db w) (w_db w')"
  by (simp add: once_def)

lemma tick_once: "quiet E \<Longrightarrow> once (e_lib E) t k w (tick E w)"
  by (rule once_silent) (auto simp: quiet_def ledger_run_def no_call_def tick_def)

lemma record_outcome_once: "quiet E \<Longrightarrow> stays (once (e_lib E) t k) (record_outcome E tk tid r sid)"
  by (intro stays_once record_outcome_ledger) (simp_all add: record_outcome_def)

lemma escape_once: "quiet E \<Longrightarrow> stays (once (e_lib E) t k) (escape E tk step e)"
  by (intro stays_once escape_ledger)
     (auto simp: escape_def intro!: silent.stays_if silent.stays_option silent.stays_pbind)

lemma query_once: "quiet E \<Longrightarrow> stays (once (e_lib E) t k) (query E f)"
  by (intro stays_once query_ledger) simp_all

text \<open>What a claim proves: the step was an intent, so its key was not spent, and now it is.\<close>

lemma claim_spends:
  assumes "claim_step L F x tid sid db = Inr db'" "sound L db" "has_step db sid t k"
  shows "\<not> spent db t k" "spent db' t k"
proof -
  from assms(1) obtain s where s: "t_get (execution_steps db) sid = Some s" "sr_state s = StIntent"
      "execution_steps db' = t_upd sid (started x) (execution_steps db)"
    by (elim claim_step_shape)
  with assms(3) have id: "sr_task_id s = t" "idempotency_key s = k" by (auto simp: has_step_def)
  have ok: "journal_ok L db" "journal_ok L db'"
    using assms(1,2) claim_step_ok by (auto simp: sound_def)
  show "\<not> spent db t k"
    using ok(1) s id unfolding spent_iff [OF ok(1)] journal_ok_def keys_unique_def by (metis option.inject)
  have "t_get (execution_steps db') sid = Some (started x s)" using s by (simp add: t_get_upd)
  with id show "spent db' t k" unfolding spent_iff [OF ok(2)] by (force simp: started_def)
qed

lemma run_tool_calls:
  "w_db (snd (run_tool E reg tid args w)) = w_db w"
  "no_call w (snd (run_tool E reg tid args w)) \<or> w_runs (snd (run_tool E reg tid args w)) = w_runs w @ [(tid, args)]"
  by (auto simp: run_tool_def no_call_def split: option.splits prod.splits)

text \<open>The handler runs after a claim: from a spent key on, one call may be owed.\<close>

lemma owed_call:
  assumes "\<not> spent db t k" "spent (w_db w2) t k" "sound L db" "once L t k w w1" "w_db w1 = db" 
    "sound L (w_db w2)" "journal_moves db (w_db w2)" "w_runs w2 = w_runs w1"
    "w_db w3 = w_db w2" "no_call w2 w3 \<or> (\<exists>c. w_runs w3 = w_runs w2 @ [c])"
  shows "once L t k w w3"
proof -
  have "once L t k w1 w3"
    unfolding once_def using assms by (auto simp: no_call_def)
  with assms(4) show ?thesis by (rule once_trans)
qed

lemma perform_once:
  assumes q: "quiet E" and h: "has_step (w_db w) (step_id s) t k"
  shows "once (e_lib E) t k w (snd (perform E reg tk tid args s w))"
proof (cases "sound (e_lib E) (w_db w)")
  case sd: True
  let ?L = "e_lib E"
  let ?claim = "commit E (\<lambda>x F db. claim_step ?L F x (task_id tk) (step_id s) db)"
  obtain r1 w1 where c: "?claim w = (r1, w1)" by (cases "?claim w")
  have tail: "stays (once ?L t k) (pbind (if res_status r = SUCCESS
            then (case res_data r of
                    None \<Rightarrow> throw AttributeError
                  | Some d \<Rightarrow> pbind (transact E (\<lambda>x F db. finish_step ?L F x (task_id tk) (step_id s) d db)) (\<lambda>_. ret ()))
            else commit E (\<lambda>x F db. mark_uncertain x (task_id tk) (step_id s)
                   (case error_type r of
                      Some n \<Rightarrow> if n = [] then tool_status_value (res_status r) else n
                    | None \<Rightarrow> tool_status_value (res_status r)) db)) (\<lambda>_. ret r))" for r
    by (intro stays_once ledger.stays_if ledger.stays_option ledger.stays_pbind commit_ledger transact_ledger q refl
          ledger.stays_ret ledger.stays_throw silent.stays_if silent.stays_option silent.stays_pbind commit_silent
          transact_silent silent.stays_ret silent.stays_throw)
       (auto intro: Uncertain Finish simp: steps_of_op_def)
  show ?thesis
  proof (cases r1)
    case (Inl e)
    have "stays (once ?L t k) ?claim"
      by (intro stays_once commit_ledger q refl) (auto intro: Claim_Step)
    then have "once ?L t k w w1" using c by (rule single.stays_run)
    with c Inl show ?thesis by (simp add: perform_def pbind_def)
  next
    case (Inr u)
    from c obtain db' where cl: "claim_step ?L (w_files (tick E w)) (tx_at E (tick E w)) (task_id tk) (step_id s)
        (w_db (tick E w)) = Inr db'" and w1: "w1 = (tick E w)\<lparr>w_db := db'\<rparr>"
      unfolding Inr by (rule commit_Inr)
    have t: "once ?L t k w (tick E w)" by (rule tick_once [OF q])
    with sd have st: "sound ?L (w_db (tick E w))" "has_step (w_db (tick E w)) (step_id s) t k"
      using once_sound has_step_moves [OF _ h] by blast+
    have sp: "\<not> spent (w_db (tick E w)) t k" "spent db' t k" by (rule claim_spends [OF cl st])+
    have sd': "sound ?L db'" "journal_moves (w_db (tick E w)) db'"
      using sound_run [OF st(1), of db'] Claim_Step [OF cl] by auto
    obtain r2 w2 where rt: "run_tool E reg tid args w1 = (r2, w2)" by (cases "run_tool E reg tid args w1")
    have w2: "w_db w2 = w_db w1" "no_call w1 w2 \<or> (\<exists>c. w_runs w2 = w_runs w1 @ [c])"
      using run_tool_calls(1) [of E reg tid args w1] run_tool_calls(2) [of w1 E reg tid args] rt by auto
    have "once ?L t k w w2"
      by (rule owed_call [OF sp(1) _ st(1) t refl _ _ _ w2]) (use w1 sp sd' in auto)
    then show ?thesis
    proof (cases r2)
      case r2: (Inl e)
      with \<open>once ?L t k w w2\<close> rt show ?thesis
        by (simp add: perform_def pbind_Inr [where m = ?claim, OF c [unfolded Inr]]
            pbind_Inl [where m = "run_tool E reg tid args", OF rt [unfolded r2]])
    next
      case r2: (Inr r)
      show ?thesis
        unfolding perform_def pbind_Inr [where m = ?claim, OF c [unfolded Inr]] pbind_Inr [where m = "run_tool E reg tid args", OF rt [unfolded r2]]
        using \<open>once ?L t k w w2\<close> single.stays_snd [OF tail] by (rule once_trans)
    qed
  qed
qed (simp add: once_def)

text \<open>The step \<open>prepare_step\<close> returns is the one of the key.\<close>

lemma prepare_has_step:
  assumes "prepare_step L x sid tid tool ver args key db = Inr (s, db')" "sound L db"
    and "digest L (PDict args) = Inr d" "step_key L tool ver d key = Inr k"
  shows "has_step db' (step_id s) tid k" "ledger_step L db db'"
proof -
  from assms(1,3,4) have "find_step db tid k = Some s \<and> db' = db \<or>
     find_step db tid k = None \<and> s = new_step x sid tid tool ver d k
       \<and> t_get (execution_steps db) sid = None \<and> execution_steps db' = execution_steps db @ [(sid, s)]"
    by (elim prepare_step_shape) auto
  with assms(2) show "has_step db' (step_id s) tid k"
    by (auto simp: has_step_def sound_def t_get_snoc_new dest: find_step_Some)
  show "ledger_step L db db'" using assms(1) by (rule Prepare)
qed

lemma fresh_step_once:
  assumes q: "quiet E" and d: "digest (e_lib E) (PDict args) = Inr d" "step_key (e_lib E) tid ver d key = Inr k"
  shows "stays (once (e_lib E) (task_id tk) k)
    (attempt_prog (with_fresh E (\<lambda>sid. transact E (\<lambda>x F db. prepare_step (e_lib E) x sid (task_id tk) tid ver args key db)))
       (escape E tk step) (\<lambda>s. attempt_prog (perform E reg tk tid args s) (escape E tk (Some s)) (\<lambda>r. ret (r, Some s))))"
    (is "stays ?R (attempt_prog ?prep _ ?rest)")
  unfolding stays_def
proof
  fix w
  obtain r1 w1 where p: "?prep w = (r1, w1)" by (cases "?prep w")
  have "stays ?R ?prep"
    by (intro stays_once ledger.stays_fresh silent.stays_fresh transact_ledger transact_silent q refl)
       (auto intro: Prepare simp: steps_of_op_def)
  then have R1: "?R w w1" using p by (rule single.stays_run)
  have "?R w (snd (attempt_prog ?prep (escape E tk step) ?rest w))" if True: "sound (e_lib E) (w_db w)"
  proof (cases r1)
    case (Inl e)
    have "?R w1 (snd (escape E tk step e w1))" by (rule single.stays_snd [OF escape_once [OF q]])
    with R1 show ?thesis unfolding attempt_Inl [where m = ?prep, OF p [unfolded Inl]] by (rule once_trans)
  next
    case (Inr s)
    have "?R w1 (snd (?rest s w1))"
    proof -
      from p obtain db' where pr: "prepare_step (e_lib E) (tx_at E (tick E w)) (fresh_at E w) (task_id tk) tid ver args key
          (w_db (tick E w)) = Inr (s, db')" and w1: "w_db w1 = db'"
        unfolding Inr with_fresh_def by (elim transact_Inr) simp
      have "sound (e_lib E) (w_db (tick E w))" using once_sound [OF tick_once [OF q] True] by blast
      then have "has_step (w_db w1) (step_id s) (task_id tk) k" using prepare_has_step(1) [OF pr _ d] w1 by simp
      then have P: "?R w1 (snd (perform E reg tk tid args s w1))" by (rule perform_once [OF q])
      obtain r2 w2 where r2: "perform E reg tk tid args s w1 = (r2, w2)" by (cases "perform E reg tk tid args s w1")
      show ?thesis
      proof (cases r2)
        case (Inl e)
        have "?R w2 (snd (escape E tk (Some s) e w2))" by (rule single.stays_snd [OF escape_once [OF q]])
        moreover have "?R w1 w2" using P r2 by simp
        ultimately show ?thesis
          unfolding attempt_Inl [where m = "perform E reg tk tid args s", OF r2 [unfolded Inl]] by (blast intro: once_trans)
      next
        case (Inr r)
        then show ?thesis using P r2 by (simp add: attempt_Inr [where m = "perform E reg tk tid args s", OF r2 [unfolded Inr]] ret_def)
      qed
    qed
    with R1 show ?thesis unfolding attempt_Inr [where m = ?prep, OF p [unfolded Inr]] by (rule once_trans)
  qed
  then show "?R w (snd (attempt_prog ?prep (escape E tk step) ?rest w))"
    by (cases "sound (e_lib E) (w_db w)") (simp_all add: once_def)
qed

text \<open>Without a key nothing is prepared, so nothing runs.\<close>

lemma prepare_needs_key:
  assumes "prepare_step L x sid tid tool ver args key db = Inr (s, db')"
  shows "\<exists>d k. digest L (PDict args) = Inr d \<and> step_key L tool ver d key = Inr k"
  using assms by (elim prepare_step_shape) blast

lemma journalled_once:
  assumes q: "quiet E" and d: "digest (e_lib E) (PDict args) = Inr d" "step_key (e_lib E) tid (tm_version m) d key = Inr k"
  shows "stays (once (e_lib E) (task_id tk) k) (journalled E reg tk m tid args apid ph key step)"
proof -
  have a: "stays (once (e_lib E) (task_id tk) k) (transact E (\<lambda>x F db. authorize (e_lib E) reg tk tid args apid ph db))"
    by (intro stays_once transact_ledger authorize_steps transact_silent q refl)
  note fresh = single.stays_attempt [OF a escape_once [OF q] single.stays_option [OF fresh_step_once [OF q d] single.stays_ret]]
  show ?thesis
    unfolding journalled_def Let_def
    by (auto split: option.splits step_state.splits
          intro!: fresh single.stays_attempt [OF query_once escape_once] q)
qed

lemma finish_invoke_once: "quiet E \<Longrightarrow> stays (once (e_lib E) t k) (finish_invoke E tk tid r step)"
  unfolding finish_invoke_def Let_def by (intro single.stays_pbind record_outcome_once single.stays_ret)

text \<open>Within one invocation the task and the key are fixed.\<close>

lemma invoke_once:
  assumes q: "quiet E" and k: "invocation_key (e_lib E) reg tid args0 key = Inr k"
  shows "stays (once (e_lib E) ti k) (invoke E reg ti tid args0 apid ph key)"
  unfolding stays_def
proof
  fix w
  let ?L = "e_lib E" and ?get = "query E (\<lambda>x F db. get_task db ti)"
  obtain args m d where args: "json_copy (PDict args0) = PDict args" and m: "manifest_of reg tid = Inr m"
      and d: "digest ?L (PDict args) = Inr d" "step_key ?L tid (tm_version m) d key = Inr k"
    using k by (auto simp: invocation_key_def split: pyval.splits elim!: rbindE)
  have "once ?L ti k w (snd (invoke E reg ti tid args0 apid ph key w))" if sd: "sound ?L (w_db w)"
  proof (cases "?get w")
    case (Pair r1 w1)
    have R1: "once ?L ti k w w1" using Pair by (rule single.stays_run [OF query_once [OF q]])
    show ?thesis
    proof (cases r1)
      case (Inl e)
      with R1 Pair show ?thesis
        by (simp add: invoke_def Let_def pbind_Inl [where m = ?get, OF Pair [unfolded Inl]])
    next
      case (Inr tk)
      have "get_task (w_db (tick E w)) ti = Inr tk" using Pair unfolding Inr by (rule query_Inr)
      moreover have "sound ?L (w_db (tick E w))" using once_sound [OF tick_once [OF q] sd] by blast
      ultimately have ti: "task_id tk = ti" by (auto simp: get_task_Inr sound_def tasks_keyed_def)
      note rules = single.stays_pbind single.stays_attempt single.stays_if query_once record_outcome_once
        finish_invoke_once single.stays_ret single.stays_throw q journalled_once [OF q d, of tk, unfolded ti]
      have "once ?L ti k w1 (snd (invoke E reg ti tid args0 apid ph key w))"
        unfolding invoke_def Let_def pbind_Inr [where m = ?get, OF Pair [unfolded Inr]] args
        by (rule single.stays_snd) (auto intro!: rules simp: m split: option.splits sum.splits)
      with R1 show ?thesis by (rule once_trans)
    qed
  qed
  then show "once ?L ti k w (snd (invoke E reg ti tid args0 apid ph key w))"
    by (cases "sound ?L (w_db w)") (simp_all add: once_def)
qed

section \<open>Repeated invocations\<close>

text \<open>
  Attempts at one task one after the other, each with its own surroundings: other clocks, other
  broker processes, other arguments if the key allows it, other actors in between.
\<close>

record invocation =
  iv_env :: environment
  iv_tools :: tool_registry
  iv_tool :: string
  iv_args :: pydict
  iv_approval :: "string option"
  iv_plan :: string
  iv_key :: "string option"

definition invoke_once_more :: "string \<Rightarrow> invocation \<Rightarrow> tool_result prog" where
  "invoke_once_more ti c =
     invoke (iv_env c) (iv_tools c) ti (iv_tool c) (iv_args c) (iv_approval c) (iv_plan c) (iv_key c)"

primrec invocations :: "string \<Rightarrow> invocation list \<Rightarrow> world \<Rightarrow> world" where
  "invocations ti [] w = w"
| "invocations ti (c # cs) w = invocations ti cs (snd (invoke_once_more ti c w))"

definition keyed :: "pylib \<Rightarrow> string \<Rightarrow> invocation \<Rightarrow> bool" where
  "keyed L k c \<longleftrightarrow> quiet (iv_env c) \<and> e_lib (iv_env c) = L
     \<and> invocation_key L (iv_tools c) (iv_tool c) (iv_args c) (iv_key c) = Inr k"

lemma invocations_once: "\<forall>c\<in>set cs. keyed L k c \<Longrightarrow> once L ti k w (invocations ti cs w)"
proof (induction cs arbitrary: w)
  case Nil
  show ?case by (simp add: single.R_refl)
next
  case (Cons c cs)
  then have "quiet (iv_env c)" "e_lib (iv_env c) = L"
    "invocation_key (e_lib (iv_env c)) (iv_tools c) (iv_tool c) (iv_args c) (iv_key c) = Inr k"
    by (auto simp: keyed_def)
  from invoke_once [OF this(1,3), of ti] this(2) have "once L ti k w (snd (invoke_once_more ti c w))"
    by (auto simp: invoke_once_more_def stays_def)
  moreover have "once L ti k (snd (invoke_once_more ti c w)) (invocations ti (c # cs) w)" using Cons by simp
  ultimately show ?case by (rule once_trans)
qed

end
