(* ===== verification/Program_Examples.thy ===== *)
theory Program_Examples imports Broker_Effects begin

text \<open>
  Concrete tools for the programs: a registered tool that answers \<open>ok\<close>, two calls of it in a row,
  and a tool that reads one file of the workspace.
\<close>

definition ex_manifest :: tool_manifest where
  "ex_manifest =
     \<lparr>tool_id = ''tool'', tm_version = ''1'', permissions = {||}, risk = ''R0'', filesystem_scope = ''none'',
      network_scope = ''none'', secret_access = ''none'', approval_policy = ''never'', timeout_s = 5,
      output_limit_bytes = 100, arguments_schema = Some (PDict [(KStr ''type'', PStr ''object'')]), path_permissions = []\<rparr>"

definition ex_handler :: handler where
  "ex_handler F args = (Returned (PDict [(KStr ''ok'', PBool True)]), F)"

definition ex_tools :: tool_registry where
  "ex_tools = register ex_manifest ex_handler None (Some {||}) []"

definition ex_invocation :: invocation where
  "ex_invocation = \<lparr>iv_env = ex_env, iv_tools = ex_tools, iv_tool = ''tool'', iv_args = [], iv_approval = None,
                    iv_plan = [], iv_key = Some ''key''\<rparr>"

definition ex_invoked :: world where
  "ex_invoked = invocations ''a'' [ex_invocation, ex_invocation] (ex_world ex_running)"

lemma ex_invoked_runs: "w_runs ex_invoked = [(''tool'', [])]"
  by code_simp

lemma ex_invocation_key: "is_ok (invocation_key ex_lib ex_tools ''tool'' [] (Some ''key''))"
  by code_simp

text \<open>A tool that reads one file of the workspace \<open>/w\<close>.\<close>

definition ex_reader :: tool_manifest where
  "ex_reader = ex_manifest\<lparr>tool_id := ''read'', permissions := {|''read_workspace''|}, filesystem_scope := ''/w'',
     arguments_schema := Some (PDict [(KStr ''type'', PStr ''object''),
       (KStr ''properties'', PDict [(KStr ''p'', PDict [(KStr ''type'', PStr ''string'')])])]),
     path_permissions := [(''p'', ''read_workspace'')]\<rparr>"

definition ex_reader_tools :: tool_registry where
  "ex_reader_tools = register ex_reader ex_handler None (Some {|''read_workspace''|}) []"

definition ex_reader_args :: pydict where
  "ex_reader_args = [(KStr ''p'', PStr ''notes.txt'')]"

lemma ex_reader_admitted:
  "preflight ex_lib ex_fs ex_reader_tools (ex_task ''a'') ''read'' ex_reader_args = Inr None"
  by code_simp

end
