(* ===== verification/Messages.thy ===== *)
theory Messages imports Contracts "HOL-Library.Multiset" begin

text \<open>
  dante/contracts/inference.py: messages, requests and responses, with the validators that run when
  they are built. The discipline of tool calls in a conversation, \<open>continuation_ids\<close>, is also
  stated without its bookkeeping, and the two are proved equal.
\<close>

section \<open>Messages\<close>

record tool_call =
  call_id :: string
  call_name :: string
  call_arguments :: pydict

datatype message =
    TextMessage (msg_role: string) (msg_text: string)
  | AssistantMessage (msg_content: "string option") (msg_calls: "tool_call list")
  | ToolResultMessage (msg_call_id: string) (msg_result: string)

definition str_field :: "pyval \<Rightarrow> string result" where
  "str_field v = (case v of PStr s \<Rightarrow> Inr s | _ \<Rightarrow> Inl ValueError)"

definition make_tool_call :: "pyval \<Rightarrow> pyval \<Rightarrow> pydict \<Rightarrow> tool_call result" where
  "make_tool_call i n args =
     rbind (str_field i) (\<lambda>i'. rbind (str_field n) (\<lambda>n'.
     rbind (guard (i' \<noteq> [] \<and> n' \<noteq> [] \<and> check_keys (PDict args) \<and> finite_val (PDict args)) ValueError) (\<lambda>_.
       Inr \<lparr>call_id = i', call_name = n', call_arguments = args\<rparr>)))"

definition make_assistant :: "string option \<Rightarrow> tool_call list \<Rightarrow> message result" where
  "make_assistant content calls =
     (if distinct (map call_id calls) then Inr (AssistantMessage content calls) else Inl ValueError)"

definition valid_message :: "message \<Rightarrow> bool" where
  "valid_message m =
     (case m of
        TextMessage r t \<Rightarrow> r \<in> {''system'', ''user''}
      | AssistantMessage c calls \<Rightarrow> distinct (map call_id calls)
      | ToolResultMessage i t \<Rightarrow> i \<noteq> [])"

record tool_definition =
  td_name :: string
  td_description :: string
  td_parameters :: pydict

definition valid_tool_definition :: "tool_definition \<Rightarrow> bool" where
  "valid_tool_definition t =
     (td_name t \<noteq> [] \<and> check_keys (PDict (td_parameters t)) \<and> finite_val (PDict (td_parameters t))
      \<and> (case dget (td_parameters t) ''type'' of None \<Rightarrow> False | Some v \<Rightarrow> v = PStr ''object''))"

section \<open>Requests\<close>

record inference_request =
  rq_model :: model_ref
  rq_messages :: "message list"
  rq_tools :: "tool_definition list"
  rq_temperature :: rat
  rq_max_output :: "nat option"
  rq_task_id :: "string option"
  rq_trace_id :: "string option"

text \<open>One message of the loop of \<open>continuation_ids\<close>: the identifiers seen and those still unanswered.\<close>

fun add_calls :: "tool_call list \<Rightarrow> string set \<times> string set \<Rightarrow> (string set \<times> string set) result" where
  "add_calls [] sp = Inr sp"
| "add_calls (c # cs) (seen, pending) =
     (if call_id c \<in> seen then Inl ValueError
      else add_calls cs (insert (call_id c) seen, insert (call_id c) pending))"

definition pair_message :: "message \<Rightarrow> string set \<times> string set \<Rightarrow> (string set \<times> string set) result" where
  "pair_message m sp =
     (case sp of (seen, pending) \<Rightarrow>
        (case m of
           ToolResultMessage i _ \<Rightarrow> if i \<notin> pending then Inl ValueError else Inr (seen, pending - {i})
         | TextMessage _ _ \<Rightarrow> if pending \<noteq> {} then Inl ValueError else Inr (seen, pending)
         | AssistantMessage _ calls \<Rightarrow> if pending \<noteq> {} then Inl ValueError else add_calls calls (seen, pending)))"

fun pair_messages :: "message list \<Rightarrow> string set \<times> string set \<Rightarrow> (string set \<times> string set) result" where
  "pair_messages [] sp = Inr sp"
| "pair_messages (m # ms) sp = rbind (pair_message m sp) (pair_messages ms)"

definition continuation_ids :: "message list \<Rightarrow> tool_definition list \<Rightarrow> unit result" where
  "continuation_ids ms ts =
     rbind (pair_messages ms ({}, {})) (\<lambda>(seen, pending).
     rbind (guard (pending = {}) ValueError) (\<lambda>_.
       guard (distinct (map td_name ts)) ValueError))"

definition make_request ::
  "model_ref \<Rightarrow> message list \<Rightarrow> tool_definition list \<Rightarrow> rat \<Rightarrow> nat option \<Rightarrow> string option \<Rightarrow> string option
   \<Rightarrow> inference_request result" where
  "make_request m ms ts temp mx tid trc =
     rbind (guard (ms \<noteq> [] \<and> list_all valid_message ms \<and> list_all valid_tool_definition ts
                   \<and> 0 \<le> temp \<and> temp \<le> 2 \<and> mx \<noteq> Some 0) ValueError) (\<lambda>_.
     rbind (continuation_ids ms ts) (\<lambda>_.
       Inr \<lparr>rq_model = m, rq_messages = ms, rq_tools = ts, rq_temperature = temp, rq_max_output = mx,
            rq_task_id = tid, rq_trace_id = trc\<rparr>))"

section \<open>Responses\<close>

record usage =
  input_tokens :: "int option"
  output_tokens :: "int option"
  total_tokens :: "int option"

definition no_usage :: usage where
  "no_usage = \<lparr>input_tokens = None, output_tokens = None, total_tokens = None\<rparr>"

text \<open>A \<open>StrictInt | None\<close> that is not negative; a boolean is refused.\<close>

definition usage_field :: "pyval option \<Rightarrow> int option result" where
  "usage_field v =
     (case v of None \<Rightarrow> Inr None | Some PNone \<Rightarrow> Inr None
      | Some (PInt i) \<Rightarrow> if 0 \<le> i then Inr (Some i) else Inl ValueError
      | Some _ \<Rightarrow> Inl ValueError)"

record inference_response =
  ir_model :: model_ref
  ir_content :: "string option"
  ir_calls :: "tool_call list"
  ir_finish :: string
  ir_usage :: usage
  ir_cost :: "rat option"
  ir_fallback :: bool

text \<open>The properties of a response: its text without \<open>None\<close>, its model and provider.\<close>

definition response_text :: "inference_response \<Rightarrow> string" where
  "response_text r = (case ir_content r of None \<Rightarrow> [] | Some t \<Rightarrow> t)"

section \<open>The discipline of tool calls\<close>

text \<open>
  A conversation is in order after the identifiers \<open>seen\<close> when every assistant message with calls
  uses new, distinct identifiers and is followed at once by exactly one result for each of them, in
  any order.
\<close>

inductive in_order :: "string set \<Rightarrow> message list \<Rightarrow> bool" where
  Done: "in_order seen []"
| Text: "in_order seen ms \<Longrightarrow> in_order seen (TextMessage r t # ms)"
| Calls: "distinct (map call_id calls) \<Longrightarrow> set (map call_id calls) \<inter> seen = {} \<Longrightarrow>
    mset (map fst answers) = mset (map call_id calls) \<Longrightarrow>
    in_order (seen \<union> set (map call_id calls)) ms \<Longrightarrow>
    in_order seen (AssistantMessage c calls # map (\<lambda>(i, t). ToolResultMessage i t) answers @ ms)"

lemma add_calls_Inr:
  "add_calls calls (seen, pending) = Inr sp \<longleftrightarrow>
     distinct (map call_id calls) \<and> set (map call_id calls) \<inter> seen = {}
     \<and> sp = (seen \<union> set (map call_id calls), pending \<union> set (map call_id calls))"
proof (induction calls arbitrary: seen pending)
  case (Cons c cs)
  show ?case by (cases "call_id c \<in> seen") (auto simp: Cons.IH)
qed auto

text \<open>Results answer the pending calls one by one.\<close>

lemma pair_results:
  "distinct (map fst answers) \<Longrightarrow> set (map fst answers) \<subseteq> pending \<Longrightarrow>
   pair_messages (map (\<lambda>(i, t). ToolResultMessage i t) answers @ ms) (seen, pending)
     = pair_messages ms (seen, pending - set (map fst answers))"
proof (induction answers arbitrary: pending)
  case (Cons r rs)
  obtain i t where r: "r = (i, t)" by (cases r)
  have "pending - {i} - set (map fst rs) = pending - set (map fst (r # rs))" using r by auto
  moreover have "set (map fst rs) \<subseteq> pending - {i}" using Cons.prems r by auto
  ultimately show ?case using Cons r by (simp add: pair_message_def)
qed simp

lemma in_order_pairs: "in_order seen ms \<Longrightarrow> \<exists>seen'. pair_messages ms (seen, {}) = Inr (seen', {})"
proof (induction rule: in_order.induct)
  case (Calls calls seen answers ms c)
  let ?ids = "set (map call_id calls)"
  have s: "set (map fst answers) = ?ids" using Calls(3) by (metis set_mset_mset)
  have d: "distinct (map fst answers)" using Calls(1,3) by (metis mset_eq_imp_distinct_iff)
  have "add_calls calls (seen, {}) = Inr (seen \<union> ?ids, {} \<union> ?ids)" using Calls(1,2) by (simp add: add_calls_Inr)
  then have "pair_message (AssistantMessage c calls) (seen, {}) = Inr (seen \<union> ?ids, ?ids)"
    by (simp add: pair_message_def)
  moreover have "pair_messages (map (\<lambda>(i, t). ToolResultMessage i t) answers @ ms) (seen \<union> ?ids, ?ids)
      = pair_messages ms (seen \<union> ?ids, {})"
    using pair_results [OF d, of ?ids ms "seen \<union> ?ids"] s by simp
  ultimately show ?case using Calls(5) by simp
qed (auto simp: pair_message_def)

text \<open>And back: what follows while calls are pending is a list of their results.\<close>

lemma pending_results:
  assumes "pair_messages ms (seen, pending) = Inr (seen', {})" "finite pending"
  shows "\<exists>answers rest. ms = map (\<lambda>(i, t). ToolResultMessage i t) answers @ rest
    \<and> distinct (map fst answers) \<and> set (map fst answers) = pending \<and> pair_messages rest (seen, {}) = Inr (seen', {})"
  using assms
proof (induction ms arbitrary: pending)
  case Nil
  then show ?case by (intro exI [of _ "[]"]) auto
next
  case (Cons m ms)
  show ?case
  proof (cases "pending = {}")
    case True
    with Cons.prems show ?thesis by (intro exI [of _ "[]"] exI [of _ "m # ms"]) auto
  next
    case False
    with Cons.prems(1) obtain i t where m: "m = ToolResultMessage i t" "i \<in> pending"
      by (cases m) (auto simp: pair_message_def split: if_splits)
    with Cons.prems obtain answers rest where r: "ms = map (\<lambda>(i, t). ToolResultMessage i t) answers @ rest"
        "distinct (map fst answers)" "set (map fst answers) = pending - {i}" "pair_messages rest (seen, {}) = Inr (seen', {})"
      using Cons.IH [of "pending - {i}"] by (auto simp: pair_message_def)
    then show ?thesis using m by (intro exI [of _ "(i, t) # answers"] exI [of _ rest]) auto
  qed
qed

lemma pairs_in_order: "pair_messages ms (seen, {}) = Inr (seen', {}) \<Longrightarrow> in_order seen ms"
proof (induction "length ms" arbitrary: ms seen rule: less_induct)
  case less
  show ?case
  proof (cases ms)
    case Nil
    then show ?thesis by (simp add: Done)
  next
    case (Cons m ms')
    show ?thesis
    proof (cases m)
      case (TextMessage r t)
      with less Cons show ?thesis by (auto simp: pair_message_def intro: Text)
    next
      case (ToolResultMessage i t)
      with less.prems Cons show ?thesis by (simp add: pair_message_def)
    next
      case (AssistantMessage c calls)
      let ?ids = "set (map call_id calls)"
      from less.prems Cons AssistantMessage obtain sp where "add_calls calls (seen, {}) = Inr sp"
          "pair_messages ms' sp = Inr (seen', {})"
        by (auto simp: pair_message_def elim: rbindE)
      then have d: "distinct (map call_id calls)" "?ids \<inter> seen = {}"
        and p: "pair_messages ms' (seen \<union> ?ids, ?ids) = Inr (seen', {})"
        by (auto simp: add_calls_Inr)
      obtain answers rest where r: "ms' = map (\<lambda>(i, t). ToolResultMessage i t) answers @ rest"
          "distinct (map fst answers)" "set (map fst answers) = ?ids" "pair_messages rest (seen \<union> ?ids, {}) = Inr (seen', {})"
        using pending_results [OF p] by auto
      have "mset (map fst answers) = mset (map call_id calls)"
        using r(2,3) d(1) by (metis mset_set_set)
      moreover have "in_order (seen \<union> ?ids) rest"
        by (rule less.hyps [OF _ r(4)]) (simp add: Cons r(1))
      ultimately show ?thesis unfolding Cons AssistantMessage r(1) by (rule Calls [OF d])
    qed
  qed
qed

text \<open>
  C19 (tool calls are paired). A request is accepted by the identifier check exactly when its
  conversation is in order: every call identifier is used once, every assistant message with calls
  is followed immediately by exactly one result for each of its calls, no other result occurs, and
  no two tools offered have the same name.
\<close>

theorem continuation_ids_iff:
  "continuation_ids ms ts = Inr () \<longleftrightarrow> in_order {} ms \<and> distinct (map td_name ts)"
proof -
  have "(\<exists>seen. pair_messages ms ({}, {}) = Inr (seen, {})) \<longleftrightarrow> in_order {} ms"
    using in_order_pairs pairs_in_order by blast
  then show ?thesis by (auto simp: continuation_ids_def rbind_eq_Inr)
qed

end
