(* ===== verification/Registry.thy ===== *)
theory Registry imports Recovery begin

text \<open>
  dante/registry.py: the registered models, the gate a local model must pass for automatic use,
  the verification of its artifact, and its promotion along the qualification stages. Reading the
  models from YAML is left to the caller. The qualification gate is a function a registry holds;
  it raises \<open>ValueError\<close> to refuse.
\<close>

section \<open>The registry\<close>

record model_registry =
  rg_machine :: string
  rg_gate :: "(model_ref \<Rightarrow> bool \<Rightarrow> unit result) option"
  rg_models :: "(string \<times> model_ref) list"

definition registry_of :: "model_ref list \<Rightarrow> string \<Rightarrow> (model_ref \<Rightarrow> bool \<Rightarrow> unit result) option \<Rightarrow> model_registry" where
  "registry_of models machine gate =
     \<lparr>rg_machine = machine, rg_gate = gate, rg_models = fold (\<lambda>m d. dict_set (model_id m) m d) models []\<rparr>"

definition register_model :: "model_ref \<Rightarrow> model_registry \<Rightarrow> model_registry" where
  "register_model m R = R\<lparr>rg_models := dict_set (model_id m) m (rg_models R)\<rparr>"

definition registry_candidates :: "model_registry \<Rightarrow> model_ref list" where
  "registry_candidates R = map snd (rg_models R)"

definition get_model :: "model_registry \<Rightarrow> string \<Rightarrow> model_ref result" where
  "get_model R i = of_opt KeyError (map_of (rg_models R) i)"

section \<open>Automatic use\<close>

text \<open>Python truth of an optional string, and membership of its upper case in the two marks of absence.\<close>

definition filled :: "string option \<Rightarrow> bool" where
  "filled s = (case s of None \<Rightarrow> False | Some t \<Rightarrow> t \<noteq> [])"

definition known_fact :: "string option \<Rightarrow> bool" where
  "known_fact s = (case s of None \<Rightarrow> False | Some t \<Rightarrow> t \<noteq> [] \<and> upper t \<notin> {''UNKNOWN'', ''UNVERIFIED''})"

definition approved_stage :: "lifecycle_state \<Rightarrow> bool" where
  "approved_stage l = (l \<in> {APPROVED, PRODUCTION})"

definition verify_identity :: "pylib \<Rightarrow> fsys \<Rightarrow> model_ref \<Rightarrow> unit result" where
  "verify_identity L F m =
     (case local_metadata m of
        None \<Rightarrow> Inl ValueError
      | Some md \<Rightarrow>
          if \<not> filled (exact_identity md) \<or> \<not> filled (runtime_reference md) then Inl ValueError
          else (case local_path md of
                  Some p \<Rightarrow>
                    if \<not> filled (md_sha256 md) then Inl ValueError
                    else (case file_digest L F p of
                            Inl e \<Rightarrow> Inl (if e = OSError then ValueError else e)
                          | Inr d \<Rightarrow> guard (md_sha256 md = Some d) ValueError)
                | None \<Rightarrow> guard (identity_limitations md \<noteq> [] \<and> identity_verified md) ValueError))"

definition unqualified :: "string \<Rightarrow> model_ref \<Rightarrow> bool \<Rightarrow> bool" where
  "unqualified machine m uses_tools =
     (case local_metadata m of
        None \<Rightarrow> True
      | Some md \<Rightarrow>
          qualification md \<noteq> QQualified \<or> \<not> approved_stage (lifecycle m) \<or> \<not> available m \<or> \<not> identity_verified md
          \<or> \<not> known_fact (exact_identity md) \<or> \<not> filled (runtime_reference md) \<or> eval_refs md = []
          \<or> license_status md \<noteq> LicVerified \<or> \<not> known_fact (license_id md)
          \<or> md_context_tokens md = None \<or> machine |\<notin>| machine_profiles md
          \<or> (uses_tools \<and> (tool_use md \<noteq> Some True \<or> ''tool_calling'' |\<notin>| capabilities m)))"

definition require_automatic :: "pylib \<Rightarrow> fsys \<Rightarrow> model_registry \<Rightarrow> model_ref \<Rightarrow> bool \<Rightarrow> unit result" where
  "require_automatic L F R m uses_tools =
     (if \<not> is_local m then Inr ()
      else rbind (guard (\<not> unqualified (rg_machine R) m uses_tools) ValueError) (\<lambda>_.
           rbind (case rg_gate R of None \<Rightarrow> Inr () | Some gate \<Rightarrow> gate m uses_tools) (\<lambda>_.
             verify_identity L F m)))"

section \<open>Promotion\<close>

definition stages :: "lifecycle_state list" where
  "stages = [CANDIDATE, IMPORTED, VERIFIED, EVALUATED, APPROVED, PRODUCTION]"

fun index_of :: "'a list \<Rightarrow> 'a \<Rightarrow> nat option" where
  "index_of [] a = None"
| "index_of (x # xs) a = (if x = a then Some 0 else map_option Suc (index_of xs a))"

definition promote :: "pylib \<Rightarrow> fsys \<Rightarrow> string \<Rightarrow> lifecycle_state \<Rightarrow> model_registry \<Rightarrow> (model_ref \<times> model_registry) result" where
  "promote L F i tgt R =
     rbind (get_model R i) (\<lambda>m.
     if \<not> is_local m then Inl ValueError
     else (case (index_of stages (lifecycle m), index_of stages tgt) of
        (Some a, Some b) \<Rightarrow>
          if b \<noteq> Suc a then Inl ValueError
          else
            (let cand = m\<lparr>lifecycle := tgt\<rparr> in
             rbind (if 2 \<le> b then verify_identity L F cand else Inr ()) (\<lambda>_.
             rbind (if 3 \<le> b then
                      (case local_metadata cand of None \<Rightarrow> Inl AttributeError
                       | Some md \<Rightarrow> guard (eval_refs md \<noteq> []) ValueError)
                    else Inr ()) (\<lambda>_.
             rbind (if approved_stage tgt then require_automatic L F R cand False else Inr ()) (\<lambda>_.
               Inr (cand, register_model cand R)))))
      | _ \<Rightarrow> Inl ValueError))"

section \<open>Facts\<close>

lemma verify_identity_error: "verify_identity L F m = Inl e \<Longrightarrow> e = ValueError"
  by (auto simp: verify_identity_def guard_eq_Inl file_digest_def rbind_eq_Inl of_opt_eq_Inl split: option.splits if_splits sum.splits)

lemma verify_identity_Inr:
  assumes "verify_identity L F m = Inr ()"
  obtains md where "local_metadata m = Some md" "filled (exact_identity md)" "filled (runtime_reference md)"
    "\<And>p. local_path md = Some p \<Longrightarrow> \<exists>d. file_digest L F p = Inr d \<and> md_sha256 md = Some d"
    "local_path md = None \<Longrightarrow> identity_verified md \<and> identity_limitations md \<noteq> []"
  using assms
  by (cases "local_metadata m")
     (auto simp: verify_identity_def guard_def split: if_splits option.splits sum.splits)

lemma require_automatic_remote: "\<not> is_local m \<Longrightarrow> require_automatic L F R m t = Inr ()"
  by (simp add: require_automatic_def)

lemma require_automatic_local:
  assumes "require_automatic L F R m t = Inr ()" "is_local m"
  shows "\<not> unqualified (rg_machine R) m t" "verify_identity L F m = Inr ()"
    "rg_gate R = Some g \<Longrightarrow> g m t = Inr ()"
  using assms by (auto simp: require_automatic_def rbind_eq_Inr)

lemma require_automatic_error:
  assumes "require_automatic L F R m t = Inl e" "\<And>g e'. rg_gate R = Some g \<Longrightarrow> g m t = Inl e' \<Longrightarrow> e' = ValueError"
  shows "e = ValueError"
  using assms verify_identity_error
  by (auto simp: require_automatic_def rbind_eq_Inl guard_eq_Inl split: if_splits option.splits)

text \<open>A model that is not available is not qualified; the qualification does not depend on anything it does not read.\<close>

lemma qualified_facts:
  assumes "\<not> unqualified machine m t"
  obtains md where "local_metadata m = Some md" "qualification md = QQualified" "approved_stage (lifecycle m)" "available m"
    "identity_verified md" "license_status md = LicVerified" "machine |\<in>| machine_profiles md" "eval_refs md \<noteq> []"
    "md_context_tokens md \<noteq> None" "t \<longrightarrow> tool_use md = Some True \<and> ''tool_calling'' |\<in>| capabilities m"
  using assms by (auto simp: unqualified_def split: option.splits)

text \<open>Models are stored under their own identifier.\<close>

definition registry_ok :: "model_registry \<Rightarrow> bool" where
  "registry_ok R \<longleftrightarrow> distinct (map fst (rg_models R)) \<and> (\<forall>im \<in> set (rg_models R). model_id (snd im) = fst im)"

lemma set_dict_set: "set (dict_set k v d) \<subseteq> insert (k, v) (set d)"
  by (induction d) (auto split: if_splits)

lemma registry_of_ok: "registry_ok (registry_of ms machine gate)"
proof -
  have "distinct (map fst (fold (\<lambda>m d. dict_set (model_id m) m d) ms d))
      \<and> (\<forall>im \<in> set (fold (\<lambda>m d. dict_set (model_id m) m d) ms d). model_id (snd im) = fst im)"
    if "distinct (map fst d)" "\<forall>im \<in> set d. model_id (snd im) = fst im" for d
    using that
  proof (induction ms arbitrary: d)
    case (Cons m ms)
    have "distinct (map fst (dict_set (model_id m) m d))" using Cons.prems(1) by (rule distinct_dict_set)
    moreover have "\<forall>im \<in> set (dict_set (model_id m) m d). model_id (snd im) = fst im"
    proof
      fix im
      assume "im \<in> set (dict_set (model_id m) m d)"
      then have "im = (model_id m, m) \<or> im \<in> set d" using set_dict_set by fast
      then show "model_id (snd im) = fst im" using Cons.prems(2) by auto
    qed
    ultimately show ?case using Cons.IH [of "dict_set (model_id m) m d"] by simp
  qed simp
  from this [of "[]"] show ?thesis by (simp add: registry_of_def registry_ok_def)
qed

lemma registry_ok_get: "registry_ok R \<Longrightarrow> m \<in> set (registry_candidates R) \<Longrightarrow> get_model R (model_id m) = Inr m"
  by (auto simp: registry_ok_def registry_candidates_def get_model_def of_opt_eq_Inr)

lemma index_of_Some: "index_of xs a = Some n \<Longrightarrow> n < length xs \<and> xs ! n = a"
  by (induction xs a arbitrary: n rule: index_of.induct) (auto split: if_splits)

lemma promote_shape:
  assumes "promote L F i tgt R = Inr (m', R')"
  obtains m a where "get_model R i = Inr m" "is_local m" "index_of stages (lifecycle m) = Some a"
    "index_of stages tgt = Some (Suc a)" "m' = m\<lparr>lifecycle := tgt\<rparr>" "R' = register_model m' R"
    "1 \<le> a \<Longrightarrow> verify_identity L F m' = Inr ()"
    "2 \<le> a \<Longrightarrow> \<exists>md. local_metadata m' = Some md \<and> eval_refs md \<noteq> []"
    "approved_stage tgt \<Longrightarrow> require_automatic L F R m' False = Inr ()"
proof -
  from assms obtain m a where m: "get_model R i = Inr m" "is_local m" "index_of stages (lifecycle m) = Some a"
    "index_of stages tgt = Some (Suc a)" and
    rest: "rbind (if 2 \<le> Suc a then verify_identity L F (m\<lparr>lifecycle := tgt\<rparr>) else Inr ()) (\<lambda>_.
             rbind (if 3 \<le> Suc a then
                      (case local_metadata (m\<lparr>lifecycle := tgt\<rparr>) of None \<Rightarrow> Inl AttributeError
                       | Some md \<Rightarrow> guard (eval_refs md \<noteq> []) ValueError)
                    else Inr ()) (\<lambda>_.
             rbind (if approved_stage tgt then require_automatic L F R (m\<lparr>lifecycle := tgt\<rparr>) False else Inr ()) (\<lambda>_.
               Inr (m\<lparr>lifecycle := tgt\<rparr>, register_model (m\<lparr>lifecycle := tgt\<rparr>) R)))) = Inr (m', R')"
    by (auto simp: promote_def Let_def elim!: rbindE split: if_splits option.splits)
  from rest have "m' = m\<lparr>lifecycle := tgt\<rparr>" "R' = register_model m' R"
    and v: "(if 2 \<le> Suc a then verify_identity L F m' else Inr ()) = Inr ()"
    and ev: "(if 3 \<le> Suc a then
                      (case local_metadata m' of None \<Rightarrow> Inl AttributeError
                       | Some md \<Rightarrow> guard (eval_refs md \<noteq> []) ValueError)
                    else Inr ()) = Inr ()"
    and rq: "(if approved_stage tgt then require_automatic L F R m' False else Inr ()) = Inr ()"
    by (auto elim!: rbindE)
  moreover have "1 \<le> a \<Longrightarrow> verify_identity L F m' = Inr ()" using v by auto
  moreover have "2 \<le> a \<Longrightarrow> \<exists>md. local_metadata m' = Some md \<and> eval_refs md \<noteq> []"
    using ev by (auto split: option.splits if_splits)
  moreover have "approved_stage tgt \<Longrightarrow> require_automatic L F R m' False = Inr ()" using rq by simp
  ultimately show thesis by (intro that [OF m])
qed

text \<open>
  C17 (promotion). A promotion moves a registered local model exactly one stage forward and changes
  nothing else of it; from VERIFIED on its identity has just been verified, from EVALUATED on it has
  evaluation evidence, and it is made APPROVED or PRODUCTION only if it then passes the gate for
  automatic use. No other model changes.
\<close>

theorem promote_one_stage:
  assumes "promote L F i tgt R = Inr (m', R')" "map_of (rg_models R) i = Some m" "model_id m = i"
  shows "is_local m \<and> m' = m\<lparr>lifecycle := tgt\<rparr> \<and> map_of (rg_models R') = (map_of (rg_models R))(i \<mapsto> m')
    \<and> (\<exists>a. Suc a < length stages \<and> stages ! a = lifecycle m \<and> stages ! Suc a = tgt)
    \<and> (tgt \<in> {VERIFIED, EVALUATED, APPROVED, PRODUCTION} \<longrightarrow> verify_identity L F m' = Inr ())
    \<and> (tgt \<in> {EVALUATED, APPROVED, PRODUCTION} \<longrightarrow> (\<exists>md. local_metadata m = Some md \<and> eval_refs md \<noteq> []))
    \<and> (tgt \<in> {APPROVED, PRODUCTION} \<longrightarrow> require_automatic L F R m' False = Inr ())"
  using assms(1)
proof (rule promote_shape)
  fix m0 a
  assume p: "get_model R i = Inr m0" "is_local m0" "index_of stages (lifecycle m0) = Some a"
    "index_of stages tgt = Some (Suc a)" "m' = m0\<lparr>lifecycle := tgt\<rparr>" "R' = register_model m' R"
    "1 \<le> a \<Longrightarrow> verify_identity L F m' = Inr ()"
    "2 \<le> a \<Longrightarrow> \<exists>md. local_metadata m' = Some md \<and> eval_refs md \<noteq> []"
    "approved_stage tgt \<Longrightarrow> require_automatic L F R m' False = Inr ()"
  have m: "m0 = m" using p(1) assms(2) by (simp add: get_model_def of_opt_eq_Inr)
  note st = index_of_Some [OF p(3)] index_of_Some [OF p(4)]
  have "tgt \<in> {VERIFIED, EVALUATED, APPROVED, PRODUCTION} \<Longrightarrow> 1 \<le> a" "tgt \<in> {EVALUATED, APPROVED, PRODUCTION} \<Longrightarrow> 2 \<le> a"
    using p(4) by (auto simp: stages_def split: if_splits)
  with p(5-9) st show ?thesis
    using p(2) assms(3) unfolding m by (auto simp: register_model_def approved_stage_def)
qed

definition ex_registered :: model_registry where
  "ex_registered = registry_of
     [\<lparr>model_id = ''m'', provider_id = ''ollama'', logical_alias = ''m'', version = ''1'', capabilities = {||},
       cost_class = ZERO, privacy_eligibility = {||}, available = True, lifecycle = CANDIDATE, runtime = ''ollama'',
       is_local = True, local_metadata = None, context_tokens = None, cost_verification = CostUnverified\<rparr>] ''default'' None"

theorem promote_one_stage_witness:
  "\<exists>a. Suc a < length stages \<and> stages ! a = CANDIDATE \<and> stages ! Suc a = IMPORTED"
proof -
  let ?L = "\<lparr>sha256 = (\<lambda>s. s), float_repr = toy_repr, json_loads = (\<lambda>_. None)\<rparr>"
  let ?F = "\<lparr>file_bytes = (\<lambda>_. None), resolve = Inr, is_link = (\<lambda>_. False)\<rparr>"
  obtain m where m: "map_of (rg_models ex_registered) ''m'' = Some m" "model_id m = ''m''" "lifecycle m = CANDIDATE"
    "is_local m"
    by (simp add: ex_registered_def registry_of_def)
  have "\<exists>m' R'. promote ?L ?F ''m'' IMPORTED ex_registered = Inr (m', R')"
    using m by (simp add: promote_def get_model_def stages_def Let_def approved_stage_def)
  then show ?thesis using promote_one_stage m(1,2,3) by metis
qed

end
