(* ===== verification/Routing.thy ===== *)
theory Routing imports Registry Privacy Continuity_Store begin

text \<open>
  dante/routing.py: the choice of a model for a task. \<open>decide\<close> is the plain router, which never
  selects a paid model, a model the privacy decision forbids or an unqualified local one;
  \<open>continuity_candidates\<close> lists the models a continuation may try, with a reason for each of the
  others.
\<close>

section \<open>The rule-based router\<close>

definition automatic_cost_ok :: "model_ref \<Rightarrow> bool" where
  "automatic_cost_ok m =
     (cost_class m \<in> {ZERO, LOCAL_COMPUTE} \<and> \<not> (cost_class m = LOCAL_COMPUTE \<and> \<not> is_local m))"

definition statically_eligible :: "privacy_decision \<Rightarrow> string fset \<Rightarrow> model_ref \<Rightarrow> bool" where
  "statically_eligible pd caps m =
     (available m \<and> approved_stage (lifecycle m) \<and> automatic_cost_ok m \<and> caps |\<subseteq>| capabilities m
      \<and> classification pd |\<in>| privacy_eligibility m \<and> (cloud_allowed pd \<or> is_local m))"

text \<open>The loop over the candidates; only a \<open>ValueError\<close> of the gate is skipped over.\<close>

fun eligible_models ::
  "pylib \<Rightarrow> fsys \<Rightarrow> model_registry \<Rightarrow> privacy_decision \<Rightarrow> string fset \<Rightarrow> model_ref list \<Rightarrow> model_ref list result" where
  "eligible_models L F R pd caps [] = Inr []"
| "eligible_models L F R pd caps (m # ms) =
     (if \<not> statically_eligible pd caps m then eligible_models L F R pd caps ms
      else (case require_automatic L F R m (''tool_calling'' |\<in>| caps) of
              Inl e \<Rightarrow> if e = ValueError then eligible_models L F R pd caps ms else Inl e
            | Inr _ \<Rightarrow> rbind (eligible_models L F R pd caps ms) (\<lambda>es. Inr (m # es))))"

definition route_key :: "model_ref \<Rightarrow> bool \<times> string \<times> string" where
  "route_key m = (\<not> is_local m, logical_alias m, model_id m)"

definition decision_of :: "string \<Rightarrow> task \<Rightarrow> privacy_decision \<Rightarrow> string \<Rightarrow> model_ref list \<Rightarrow> model_ref \<Rightarrow> route_decision" where
  "decision_of rid tk pd pv es sel =
     \<lparr>route_id = rid, rd_task_id = task_id tk, rd_trace_id = trace_id tk, selected_model = sel,
      candidates = map model_id (filter (\<lambda>m. is_local m = is_local sel) es),
      reasons = pd_reasons pd @ [''automatic_cost_zero'', if is_local sel then ''local_selected'' else ''cloud_free_selected''],
      policy_version = pv, automatic_cost = 0\<rparr>"

definition decide_route ::
  "pylib \<Rightarrow> fsys \<Rightarrow> model_registry \<Rightarrow> string \<Rightarrow> string \<Rightarrow> task \<Rightarrow> privacy_decision \<Rightarrow> string fset \<Rightarrow> route_decision result" where
  "decide_route L F R pv rid tk pd caps =
     rbind (guard (model_allowed pd) RouteDenied) (\<lambda>_.
     rbind (eligible_models L F R pd caps (registry_candidates R)) (\<lambda>es.
       case sort_key route_key es of
         [] \<Rightarrow> Inl RouteDenied
       | sel # rest \<Rightarrow> Inr (decision_of rid tk pd pv (sel # rest) sel)))"

section \<open>Candidates of a continuation\<close>

definition privacy_refuses :: "privacy_decision \<Rightarrow> model_ref \<Rightarrow> bool" where
  "privacy_refuses pd m =
     (\<not> model_allowed pd \<or> classification pd |\<notin>| privacy_eligibility m \<or> (\<not> cloud_allowed pd \<and> \<not> is_local m))"

definition policy_refuses :: "continuity_policy \<Rightarrow> model_ref \<Rightarrow> bool" where
  "policy_refuses p m =
     ((mode p = LOCAL_ONLY \<and> \<not> is_local m) \<or> (mode p = CLOUD_ONLY \<and> is_local m)
      \<or> (allowed_backends p \<noteq> {||} \<and> provider_id m |\<notin>| allowed_backends p)
      \<or> (mode p = SPECIFIC_ALLOWED_BACKENDS \<and> allowed_backends p = {||}))"

definition cost_refuses :: "model_ref \<Rightarrow> bool" where
  "cost_refuses m =
     (cost_class m \<notin> {ZERO, LOCAL_COMPUTE}
      \<or> (\<not> is_local m \<and> (cost_class m \<noteq> ZERO \<or> cost_verification m \<noteq> VerifiedZero)))"

definition capacity_of :: "model_ref \<Rightarrow> nat option" where
  "capacity_of m = (case local_metadata m of Some md \<Rightarrow> md_context_tokens md | None \<Rightarrow> context_tokens m)"

definition lacks_context :: "nat option \<Rightarrow> model_ref \<Rightarrow> bool" where
  "lacks_context need m =
     (case need of None \<Rightarrow> False | Some n \<Rightarrow> (case capacity_of m of None \<Rightarrow> True | Some c \<Rightarrow> c < n))"

text \<open>The reason a model is refused for; \<open>None\<close> keeps it.\<close>

definition denial ::
  "pylib \<Rightarrow> fsys \<Rightarrow> model_registry \<Rightarrow> privacy_decision \<Rightarrow> string fset \<Rightarrow> continuity_policy \<Rightarrow> nat option \<Rightarrow> model_ref
   \<Rightarrow> string option result" where
  "denial L F R pd caps p need m =
     (if privacy_refuses pd m then Inr (Some ''privacy'')
      else if policy_refuses p m then Inr (Some ''user_policy'')
      else if cost_refuses m then Inr (Some ''cost_unverified_or_paid'')
      else if \<not> approved_stage (lifecycle m) then Inr (Some ''qualification'')
      else if \<not> caps |\<subseteq>| capabilities m then Inr (Some ''capability'')
      else if lacks_context need m then Inr (Some ''context_capacity'')
      else (case require_automatic L F R (m\<lparr>available := True\<rparr>) (''tool_calling'' |\<in>| caps) of
              Inl e \<Rightarrow> if e = ValueError then Inr (Some ''qualification_or_machine'') else Inl e
            | Inr _ \<Rightarrow> Inr None))"

fun partition_candidates ::
  "(model_ref \<Rightarrow> string option result) \<Rightarrow> model_ref list \<Rightarrow> (model_ref list \<times> (string \<times> string) list)
   \<Rightarrow> (model_ref list \<times> (string \<times> string) list) result" where
  "partition_candidates f [] acc = Inr acc"
| "partition_candidates f (m # ms) (es, denied) =
     rbind (f m) (\<lambda>r. case r of
         Some why \<Rightarrow> partition_candidates f ms (es, dict_set (model_id m) why denied)
       | None \<Rightarrow> partition_candidates f ms (es @ [m], denied))"

definition cloud_first :: "continuity_policy \<Rightarrow> bool" where
  "cloud_first p = (mode p \<in> {CLOUD_PREFERRED, CLOUD_FIRST_WITH_LOCAL_FALLBACK})"

definition continuity_key :: "continuity_policy \<Rightarrow> model_ref \<Rightarrow> bool \<times> string \<times> string" where
  "continuity_key p m = (if cloud_first p then is_local m else \<not> is_local m, logical_alias m, model_id m)"

definition continuity_candidates ::
  "pylib \<Rightarrow> fsys \<Rightarrow> model_registry \<Rightarrow> privacy_decision \<Rightarrow> string fset \<Rightarrow> continuity_policy \<Rightarrow> nat option
   \<Rightarrow> (model_ref list \<times> (string \<times> string) list) result" where
  "continuity_candidates L F R pd caps p need =
     rbind (partition_candidates (denial L F R pd caps p need) (registry_candidates R) ([], [])) (\<lambda>(es, denied).
       Inr (sort_key (continuity_key p) es, denied))"

section \<open>Facts\<close>

lemma eligible_models_Inr:
  "eligible_models L F R pd caps ms = Inr es \<Longrightarrow>
   m \<in> set es \<longleftrightarrow> m \<in> set ms \<and> statically_eligible pd caps m \<and> require_automatic L F R m (''tool_calling'' |\<in>| caps) = Inr ()"
proof (induction L F R pd caps ms arbitrary: es rule: eligible_models.induct)
  case (2 L F R pd caps m' ms)
  then show ?case
    by (cases "statically_eligible pd caps m'"; cases "require_automatic L F R m' (''tool_calling'' |\<in>| caps)")
       (auto simp: rbind_eq_Inr split: if_splits)
qed simp

lemma decide_route_shape:
  assumes "decide_route L F R pv rid tk pd caps = Inr d"
  obtains es sel rest where "model_allowed pd" "eligible_models L F R pd caps (registry_candidates R) = Inr es"
    "sort_key route_key es = sel # rest" "d = decision_of rid tk pd pv (sel # rest) sel"
proof -
  from assms obtain es where es: "model_allowed pd" "eligible_models L F R pd caps (registry_candidates R) = Inr es"
    "(case sort_key route_key es of [] \<Rightarrow> Inl RouteDenied
      | sel # rest \<Rightarrow> Inr (decision_of rid tk pd pv (sel # rest) sel)) = Inr d"
    by (auto simp: decide_route_def elim!: rbindE)
  from es(3) obtain sel rest where "sort_key route_key es = sel # rest" "d = decision_of rid tk pd pv (sel # rest) sel"
    by (cases "sort_key route_key es") auto
  with es show thesis by (intro that)
qed

lemma sort_key_hd:
  assumes "sort_key f xs = x # rest"
  shows "x \<in> set xs" "y \<in> set xs \<Longrightarrow> f x \<le> f y"
proof -
  have s: "set (sort_key f xs) = set xs" by simp
  with assms show "x \<in> set xs" by (metis list.set_intros(1))
  have "sorted (map f (x # rest))" using sorted_sort_key [of f xs] assms by simp
  moreover assume "y \<in> set xs"
  ultimately show "f x \<le> f y" using s assms by (auto simp flip: s)
qed

lemma partition_candidates_Inr:
  assumes "partition_candidates f ms (es, denied) = Inr (es', denied')"
  shows "set es' = set es \<union> {m \<in> set ms. f m = Inr None}
    \<and> (\<forall>m \<in> set ms. \<exists>r. f m = Inr r)
    \<and> fst ` set denied' = fst ` set denied \<union> model_id ` {m \<in> set ms. \<exists>why. f m = Inr (Some why)}"
  using assms
proof (induction ms arbitrary: es denied)
  case (Cons m ms)
  from Cons.prems obtain r where r: "f m = Inr r" "(case r of
         Some why \<Rightarrow> partition_candidates f ms (es, dict_set (model_id m) why denied)
       | None \<Rightarrow> partition_candidates f ms (es @ [m], denied)) = Inr (es', denied')"
    by (auto elim: rbindE)
  show ?case
  proof (cases r)
    case None
    with r Cons.IH [of "es @ [m]" denied] show ?thesis by auto
  next
    case (Some why)
    with r Cons.IH [of es "dict_set (model_id m) why denied"] show ?thesis by (auto simp: keys_dict_set)
  qed
qed simp

lemma continuity_candidates_Inr:
  assumes "continuity_candidates L F R pd caps p need = Inr (es, denied)"
  shows "m \<in> set es \<longleftrightarrow> m \<in> set (registry_candidates R) \<and> denial L F R pd caps p need m = Inr None"
    "fst ` set denied = model_id ` {m \<in> set (registry_candidates R). \<exists>why. denial L F R pd caps p need m = Inr (Some why)}"
    "m \<in> set (registry_candidates R) \<Longrightarrow> \<exists>r. denial L F R pd caps p need m = Inr r"
    "sorted (map (continuity_key p) es)"
proof -
  from assms obtain es0 where part: "partition_candidates (denial L F R pd caps p need) (registry_candidates R) ([], []) = Inr (es0, denied)"
    and es: "es = sort_key (continuity_key p) es0"
    by (auto simp: continuity_candidates_def elim!: rbindE)
  note P = partition_candidates_Inr [OF part]
  show "m \<in> set es \<longleftrightarrow> m \<in> set (registry_candidates R) \<and> denial L F R pd caps p need m = Inr None"
    using P by (auto simp: es)
  show "fst ` set denied = model_id ` {m \<in> set (registry_candidates R). \<exists>why. denial L F R pd caps p need m = Inr (Some why)}"
    using P by simp
  show "m \<in> set (registry_candidates R) \<Longrightarrow> \<exists>r. denial L F R pd caps p need m = Inr r"
    using P by blast
  show "sorted (map (continuity_key p) es)" by (simp add: es)
qed

text \<open>What a model that is not refused satisfies.\<close>

lemma denial_None:
  assumes "denial L F R pd caps p need m = Inr None"
  shows "model_allowed pd" "classification pd |\<in>| privacy_eligibility m" "cloud_allowed pd \<or> is_local m"
    "\<not> policy_refuses p m" "\<not> cost_refuses m" "approved_stage (lifecycle m)" "caps |\<subseteq>| capabilities m"
    "need = Some n \<Longrightarrow> \<exists>c. capacity_of m = Some c \<and> n \<le> c"
    "require_automatic L F R (m\<lparr>available := True\<rparr>) (''tool_calling'' |\<in>| caps) = Inr ()"
  using assms
  by (auto simp: denial_def privacy_refuses_def lacks_context_def split: if_splits sum.splits option.splits)




section \<open>Examples\<close>

definition ex_route_lib :: pylib where
  "ex_route_lib = \<lparr>sha256 = (\<lambda>s. s), float_repr = toy_repr, json_loads = (\<lambda>_. None)\<rparr>"

definition ex_files :: fsys where
  "ex_files = \<lparr>file_bytes = (\<lambda>_. None), resolve = Inr, is_link = (\<lambda>_. False)\<rparr>"

definition ex_metadata :: local_model_metadata where
  "ex_metadata = \<lparr>exact_identity = Some ''m'', runtime_reference = Some ''m'', local_path = None, md_sha256 = None,
     runtime_digest = None, md_format = None, quantization = None, md_context_tokens = Some 4096, tool_use = Some True,
     license_id = Some ''mit'', license_status = LicVerified, machine_profiles = {|''default''|},
     qualification = QQualified, identity_verified = True, identity_limitations = [''managed''],
     eval_refs = [''e''], benchmark_refs = []\<rparr>"

definition ex_model :: "string \<Rightarrow> bool \<Rightarrow> model_ref" where
  "ex_model i loc = \<lparr>model_id = i, provider_id = (if loc then ''ollama'' else ''cloud''), logical_alias = i, version = ''1'',
     capabilities = {|''chat''|}, cost_class = ZERO, privacy_eligibility = {|PUBLIC, INTERNAL|}, available = True,
     lifecycle = APPROVED, runtime = ''ollama'', is_local = loc, local_metadata = (if loc then Some ex_metadata else None),
     context_tokens = Some 4096, cost_verification = VerifiedZero\<rparr>"

definition ex_registry :: model_registry where
  "ex_registry = registry_of [ex_model ''a'' False, ex_model ''b'' True] ''default'' None"

definition ex_policy :: continuity_policy where
  "ex_policy = \<lparr>mode = LOCAL_PREFERRED, allowed_backends = {||}, base_backoff_s = 5, max_backoff_s = 300,
     observation_ttl_s = 300, window_s = 60, max_route_attempts = 4\<rparr>"

definition ex_routed_task :: task where
  "ex_routed_task =
     \<lparr>task_id = ''t'', created_at = [], updated_at = [], status = RUNNING, goal = ''g'',
      privacy_class = PUBLIC, selected_route = None, workspace = ''/w'', attempts = 0,
      current_step = None, errors = [], task_artifacts = [],
      approval_state = ''not_required'', trace_id = ''trc'', checkpoint = []\<rparr>"

definition ex_decision :: route_decision where
  "ex_decision = decision_of ''r'' ex_routed_task (decision_for True PUBLIC) ''v''
     [ex_model ''b'' True, ex_model ''a'' False] (ex_model ''b'' True)"

lemma ex_decide:
  "decide_route ex_route_lib ex_files ex_registry ''v'' ''r'' ex_routed_task (decision_for True PUBLIC) {|''chat''|} = Inr ex_decision"
  by code_simp



lemma ex_candidates:
  "continuity_candidates ex_route_lib ex_files ex_registry (decision_for True PUBLIC) {|''chat''|} ex_policy None
   = Inr ([ex_model ''b'' True, ex_model ''a'' False], [])"
  by code_simp


end
