(* ===== verification/Json_Parser.thy ===== *)
theory Json_Parser imports Text_Patterns Py_Values begin

text \<open>
  The strict JSON reader of dante/inference.py (\<open>_loads\<close>): \<open>json.loads\<close> with \<open>_object\<close>, which refuses
  a repeated key, and \<open>_invalid_constant\<close>, which refuses \<open>NaN\<close> and the infinities. The text is
  already decoded; a character the model has no code point for does not occur in it, and an escape
  that denotes one is refused. The fuel is the length of the text, which every call shortens.
\<close>

section \<open>Numbers\<close>

definition digit_value :: "char \<Rightarrow> nat" where
  "digit_value c = of_char c - 48"

definition digits_value :: "string \<Rightarrow> nat" where
  "digits_value ds = foldl (\<lambda>n c. 10 * n + digit_value c) 0 ds"

text \<open>Beyond the largest double a literal reads as an infinity.\<close>

definition float_limit :: rat where
  "float_limit = 2 ^ 1024 - 2 ^ 970"

definition read_float :: "bool \<Rightarrow> string \<Rightarrow> string \<Rightarrow> int \<Rightarrow> pyfloat" where
  "read_float neg ip fp ex =
     (let q = of_nat (digits_value (ip @ fp)) * (if 0 \<le> ex - int (length fp)
                then 10 ^ nat (ex - int (length fp)) else 1 / 10 ^ nat (int (length fp) - ex))
      in if float_limit \<le> q then (if neg then NegInf else PosInf) else Fin (if neg then - q else q))"

text \<open>The optional parts of the number pattern: \<open>(\.\d+)?\<close> and \<open>([eE][-+]?\d+)?\<close>.\<close>

definition take_frac :: "string \<Rightarrow> (string \<times> string) option" where
  "take_frac s =
     (case s of [] \<Rightarrow> None
      | c # r \<Rightarrow> if c = CHR ''.'' \<and> takeWhile is_digit r \<noteq> []
                then Some (takeWhile is_digit r, dropWhile is_digit r) else None)"

definition take_exp :: "string \<Rightarrow> (int \<times> string) option" where
  "take_exp s =
     (case s of [] \<Rightarrow> None
      | c # r \<Rightarrow>
          let r' = (case r of d # r2 \<Rightarrow> if d = CHR ''-'' \<or> d = CHR ''+'' then r2 else r | [] \<Rightarrow> []);
              neg = (case r of d # _ \<Rightarrow> d = CHR ''-'' | [] \<Rightarrow> False);
              ds = takeWhile is_digit r'
          in if (c = CHR ''e'' \<or> c = CHR ''E'') \<and> ds \<noteq> []
             then Some (if neg then - int (digits_value ds) else int (digits_value ds), dropWhile is_digit r') else None)"

text \<open>An integer literal of more than 4300 digits is a \<open>ValueError\<close> of the interpreter.\<close>

definition int_digits_limit :: nat where
  "int_digits_limit = 4300"

definition int_part :: "string \<Rightarrow> string" where
  "int_part s = (case s of [] \<Rightarrow> [] | c # _ \<Rightarrow> if c = CHR ''0'' then [c] else takeWhile is_digit s)"

definition number_tail :: "bool \<Rightarrow> string \<Rightarrow> string \<Rightarrow> (pyval \<times> string) option" where
  "number_tail neg ip s =
     (case (take_frac s, take_exp (case take_frac s of None \<Rightarrow> s | Some (_, r) \<Rightarrow> r)) of
        (None, None) \<Rightarrow>
          if int_digits_limit < length ip then None
          else Some (PInt (if neg then - int (digits_value ip) else int (digits_value ip)), s)
      | (Some (fp, s3), None) \<Rightarrow> Some (PFloat (read_float neg ip fp 0), s3)
      | (None, Some (ex, s4)) \<Rightarrow> Some (PFloat (read_float neg ip [] ex), s4)
      | (Some (fp, _), Some (ex, s4)) \<Rightarrow> Some (PFloat (read_float neg ip fp ex), s4))"

definition scan_number :: "string \<Rightarrow> (pyval \<times> string) option" where
  "scan_number s =
     (let neg = (case s of c # _ \<Rightarrow> c = CHR ''-'' | [] \<Rightarrow> False);
          s1 = (if neg then tl s else s);
          ip = int_part s1
      in if ip = [] then None else number_tail neg ip (drop (length ip) s1))"

section \<open>Strings\<close>

definition hex_digit_value :: "char \<Rightarrow> nat option" where
  "hex_digit_value c =
     (if is_digit c then Some (of_char c - 48)
      else if char_between (CHR ''a'') (CHR ''f'') c then Some (of_char c - 87)
      else if char_between (CHR ''A'') (CHR ''F'') c then Some (of_char c - 55) else None)"

definition hex4 :: "string \<Rightarrow> (nat \<times> string) option" where
  "hex4 s =
     (case s of
        a # b # c # d # r \<Rightarrow>
          (case (hex_digit_value a, hex_digit_value b, hex_digit_value c, hex_digit_value d) of
             (Some w, Some x, Some y, Some z) \<Rightarrow> Some (4096 * w + 256 * x + 16 * y + z, r)
           | _ \<Rightarrow> None)
      | _ \<Rightarrow> None)"

definition json_escapes :: "(char \<times> char) list" where
  "json_escapes = [(CHR 0x22, CHR 0x22), (CHR 0x5C, CHR 0x5C), (CHR ''/'', CHR ''/''), (CHR ''b'', CHR 0x08),
     (CHR ''f'', CHR 0x0C), (CHR ''n'', CHR 0x0A), (CHR ''r'', CHR 0x0D), (CHR ''t'', CHR 0x09)]"

text \<open>What follows a backslash.\<close>

definition unescape :: "string \<Rightarrow> (char \<times> string) option" where
  "unescape s =
     (case s of
        [] \<Rightarrow> None
      | c # r \<Rightarrow>
          if c = CHR ''u''
          then (case hex4 r of Some (n, r') \<Rightarrow> if n < 256 then Some (char_of n, r') else None | None \<Rightarrow> None)
          else map_option (\<lambda>e. (e, r)) (map_of json_escapes c))"

lemma unescape_length: "unescape s = Some (c, r) \<Longrightarrow> length r < length s"
  by (auto simp: unescape_def hex4_def split: list.splits if_splits option.splits)

function scan_string :: "string \<Rightarrow> (string \<times> string) option" where
  "scan_string s =
     (case s of
        [] \<Rightarrow> None
      | c # r \<Rightarrow>
          if c = CHR 0x22 then Some ([], r)
          else if c = CHR 0x5C
          then (case unescape r of None \<Rightarrow> None | Some (e, r') \<Rightarrow> map_option (\<lambda>(t, q). (e # t, q)) (scan_string r'))
          else if (of_char c :: nat) < 32 then None
          else map_option (\<lambda>(t, q). (c # t, q)) (scan_string r))"
  by pat_completeness auto
termination
  by (relation "measure length") (auto dest: unescape_length)

declare scan_string.simps [simp del]

section \<open>Values\<close>

definition json_space :: "char \<Rightarrow> bool" where
  "json_space c = (c \<in> {CHR '' '', CHR 0x09, CHR 0x0A, CHR 0x0D})"

definition skip_ws :: "string \<Rightarrow> string" where
  "skip_ws s = dropWhile json_space s"

definition object_of_pairs :: "(string \<times> pyval) list \<Rightarrow> pyval option" where
  "object_of_pairs ps =
     (if distinct (map fst ps) then Some (PDict (map (\<lambda>kv. (KStr (fst kv), snd kv)) ps)) else None)"

definition expect :: "char \<Rightarrow> string \<Rightarrow> string option" where
  "expect c s = (case s of [] \<Rightarrow> None | d # r \<Rightarrow> if d = c then Some r else None)"

definition literal :: "string \<Rightarrow> (pyval \<times> string) option" where
  "literal s =
     (if startswith s ''null'' then Some (PNone, drop 4 s)
      else if startswith s ''true'' then Some (PBool True, drop 4 s)
      else if startswith s ''false'' then Some (PBool False, drop 5 s)
      else scan_number s)"

fun parse_value :: "nat \<Rightarrow> string \<Rightarrow> (pyval \<times> string) option"
  and parse_elems :: "nat \<Rightarrow> string \<Rightarrow> (pyval list \<times> string) option"
  and parse_items :: "nat \<Rightarrow> string \<Rightarrow> ((string \<times> pyval) list \<times> string) option" where
  "parse_value 0 s = None"
| "parse_value (Suc n) s =
     (case s of
        [] \<Rightarrow> None
      | c # r \<Rightarrow>
          if c = CHR 0x22 then map_option (\<lambda>(t, q). (PStr t, q)) (scan_string r)
          else if c = CHR ''['' then
            (case expect (CHR '']'') (skip_ws r) of
               Some q \<Rightarrow> Some (PList [], q)
             | None \<Rightarrow> map_option (\<lambda>(xs, q). (PList xs, q)) (parse_elems n (skip_ws r)))
          else if c = CHR 0x7B then
            (case expect (CHR 0x7D) (skip_ws r) of
               Some q \<Rightarrow> Some (PDict [], q)
             | None \<Rightarrow>
                 (case parse_items n (skip_ws r) of
                    None \<Rightarrow> None
                  | Some (ps, q) \<Rightarrow> map_option (\<lambda>v. (v, q)) (object_of_pairs ps)))
          else literal s)"
| "parse_elems 0 s = None"
| "parse_elems (Suc n) s =
     (case parse_value n s of
        None \<Rightarrow> None
      | Some (v, r) \<Rightarrow>
          (case expect (CHR '']'') (skip_ws r) of
             Some q \<Rightarrow> Some ([v], q)
           | None \<Rightarrow>
               (case expect (CHR '','') (skip_ws r) of
                  None \<Rightarrow> None
                | Some q \<Rightarrow> map_option (\<lambda>(vs, q'). (v # vs, q')) (parse_elems n (skip_ws q)))))"
| "parse_items 0 s = None"
| "parse_items (Suc n) s =
     (case expect (CHR 0x22) s of
        None \<Rightarrow> None
      | Some r \<Rightarrow>
          (case scan_string r of
             None \<Rightarrow> None
           | Some (k, r1) \<Rightarrow>
               (case expect (CHR '':'') (skip_ws r1) of
                  None \<Rightarrow> None
                | Some r2 \<Rightarrow>
                    (case parse_value n (skip_ws r2) of
                       None \<Rightarrow> None
                     | Some (v, r3) \<Rightarrow>
                         (case expect (CHR 0x7D) (skip_ws r3) of
                            Some q \<Rightarrow> Some ([(k, v)], q)
                          | None \<Rightarrow>
                              (case expect (CHR '','') (skip_ws r3) of
                                 None \<Rightarrow> None
                               | Some q \<Rightarrow> map_option (\<lambda>(ps, q'). ((k, v) # ps, q')) (parse_items n (skip_ws q))))))))"

definition loads_strict :: "string \<Rightarrow> pyval option" where
  "loads_strict s =
     (case parse_value (Suc (length s)) (skip_ws s) of
        None \<Rightarrow> None
      | Some (v, r) \<Rightarrow> if skip_ws r = [] then Some v else None)"

section \<open>Reading the canonical text back\<close>

text \<open>The values whose text determines them exactly: no float, no tuple, no repeated key.\<close>

fun exact :: "pyval \<Rightarrow> bool"
  and exact_list :: "pyval list \<Rightarrow> bool"
  and exact_items :: "pydict \<Rightarrow> bool" where
  "exact (PFloat f) = False"
| "exact (PTuple xs) = False"
| "exact (PList xs) = exact_list xs"
| "exact (PDict d) = (exact_items d \<and> distinct (map fst d))"
| "exact (PInt i) = (length (dec_nat (nat \<bar>i\<bar>)) \<le> int_digits_limit)"
| "exact _ = True"
| "exact_list [] = True"
| "exact_list (x # xs) = (exact x \<and> exact_list xs)"
| "exact_items [] = True"
| "exact_items ((k, v) # d) = (is_KStr k \<and> exact v \<and> exact_items d)"

lemma hex_digit_read: "n < 16 \<Longrightarrow> hex_digit_value (hex_digit n) = Some n"
proof -
  have "\<forall>n\<in>set [0..<16]. hex_digit_value (hex_digit n) = Some n" by code_simp
  then show "n < 16 \<Longrightarrow> ?thesis" by simp
qed

lemma scan_string_esc: "scan_string (esc_char c @ s) = map_option (\<lambda>(t, q). (c # t, q)) (scan_string s)"
proof (cases "map_of escape_dct c")
  case (Some k)
  then have "unescape (k # s) = Some (c, s)"
    by (auto simp: escape_dct_def unescape_def json_escapes_def split: if_splits)
  with Some show ?thesis
    by (subst scan_string.simps) (simp add: esc_char_def)
next
  case None
  then have nq: "c \<noteq> CHR 0x22" "c \<noteq> CHR 0x5C" by (auto simp: escape_dct_def)
  show ?thesis
  proof (cases "(of_char c :: nat) < 32")
    case False
    with None nq show ?thesis by (subst scan_string.simps) (simp add: esc_char_def)
  next
    case True
    have z: "hex_digit_value (CHR ''0'') = Some 0" by code_simp
    have "16 * (of_char c div 16) + of_char c mod 16 = (of_char c :: nat)" by simp
    then have "unescape ([CHR ''u'', CHR ''0'', CHR ''0'', hex_digit (of_char c div 16), hex_digit (of_char c mod 16)] @ s)
        = Some (c, s)"
      using True by (simp add: unescape_def hex4_def hex_digit_read z)
    with None True show ?thesis
      by (subst scan_string.simps) (simp add: esc_char_def)
  qed
qed

lemma scan_string_text: "scan_string (concat (map esc_char s) @ CHR 0x22 # r) = Some (s, r)"
proof (induction s)
  case Nil
  show ?case by (simp add: scan_string.simps)
next
  case (Cons c s)
  then show ?case by (simp add: scan_string_esc)
qed

subsection \<open>Integers\<close>

lemma is_digit_char: "n < 10 \<Longrightarrow> is_digit (digit_char n)"
  using digit_char_range [of n] by (simp add: is_digit_def char_between_def)

lemma digit_value_char: "n < 10 \<Longrightarrow> digit_value (digit_char n) = n"
  by (simp add: digit_value_def digit_char.simps of_char_digit del: of_char_of)

lemma digits_value_snoc: "digits_value (ds @ [c]) = 10 * digits_value ds + digit_value c"
  by (simp add: digits_value_def)

lemma dec_nat_snoc: "10 \<le> n \<Longrightarrow> dec_nat n = dec_nat (n div 10) @ [digit_char (n mod 10)]"
  by (subst dec_nat.simps) simp

lemma digits_value_dec: "digits_value (dec_nat n) = n"
proof (induction n rule: dec_nat.induct)
  case (1 n)
  show ?case
  proof (cases "n < 10")
    case True
    then show ?thesis by (subst dec_nat.simps) (simp add: digits_value_def digit_value_char del: digit_char.simps)
  next
    case False
    with 1 show ?thesis by (simp add: dec_nat_snoc digits_value_snoc digit_value_char del: digit_char.simps dec_nat.simps)
  qed
qed

lemma dec_nat_all_digits: "list_all is_digit (dec_nat n)"
  using dec_nat_digits by (auto simp: list_all_iff is_digit_def char_between_def)

lemma dec_nat_zero: "dec_nat n = CHR ''0'' # r \<Longrightarrow> n = 0"
proof (induction n arbitrary: r rule: dec_nat.induct)
  case (1 n)
  show ?case
  proof (cases "n < 10")
    case True
    have "digit_char 0 = CHR ''0''" by code_simp
    with True 1(2) have "digit_char n = digit_char 0" by (simp add: dec_nat.simps [of n])
    with True show ?thesis by (metis digit_char_inj zero_less_numeral)
  next
    case False
    then obtain r' where "dec_nat (n div 10) = CHR ''0'' # r'"
      using 1(2) by (simp add: dec_nat_snoc del: dec_nat.simps) (cases "dec_nat (n div 10)", auto)
    with 1(1) False have "n div 10 = 0" by blast
    with False show ?thesis by simp
  qed
qed

lemma takeWhile_digits:
  "list_all is_digit ds \<Longrightarrow> (case r of [] \<Rightarrow> True | c # _ \<Rightarrow> \<not> is_digit c) \<Longrightarrow> takeWhile is_digit (ds @ r) = ds"
  by (cases r) (auto simp: takeWhile_append list_all_iff)

lemma stop_no_digit: "stop r \<Longrightarrow> (case r of [] \<Rightarrow> True | c # _ \<Rightarrow> \<not> is_digit c)"
  by (auto simp: stop_def is_digit_def less_eq_char_def split: list.splits)

lemma stop_no_parts: "stop r \<Longrightarrow> take_frac r = None \<and> take_exp r = None"
  by (auto simp: stop_def take_frac_def take_exp_def split: list.splits)

lemma dec_nat_hd: "dec_nat n = c # t \<Longrightarrow> is_digit c"
  using dec_nat_all_digits [of n] by simp

lemma scan_dec_int:
  assumes "stop r" "length (dec_nat (nat \<bar>i\<bar>)) \<le> int_digits_limit"
  shows "scan_number (dec_int i @ r) = Some (PInt i, r)"
proof -
  let ?d = "dec_nat (nat \<bar>i\<bar>)"
  obtain c t where ct: "?d = c # t" by (cases ?d) auto
  have nm: "c \<noteq> CHR ''-''" using dec_nat_hd [OF ct] by (auto simp: is_digit_def less_eq_char_def)
  have di: "dec_int i = (if i < 0 then CHR ''-'' # ?d else ?d)" by (simp add: dec_int_def)
  have ip: "int_part (?d @ r) = ?d"
  proof (cases "c = CHR ''0''")
    case True
    then have "nat \<bar>i\<bar> = 0" using dec_nat_zero ct by blast
    then have "?d = [CHR ''0'']" using ct True by (simp add: dec_nat.simps [of 0])
    then show ?thesis by (simp add: int_part_def)
  next
    case False
    with ct takeWhile_digits [OF dec_nat_all_digits stop_no_digit [OF assms(1)], of "nat \<bar>i\<bar>"] show ?thesis
      by (simp add: int_part_def)
  qed
  have v: "(if i < 0 then - int (digits_value ?d) else int (digits_value ?d)) = i"
    by (simp add: digits_value_dec)
  have tail: "number_tail (i < 0) ?d r = Some (PInt i, r)"
    using v assms(2) stop_no_parts [OF assms(1)] by (simp add: number_tail_def)
  have sign: "(case dec_int i @ r of c # _ \<Rightarrow> c = CHR ''-'' | [] \<Rightarrow> False) = (i < 0)"
    unfolding di ct using nm by simp
  have rest: "(if i < 0 then tl (dec_int i @ r) else dec_int i @ r) = ?d @ r" using di by simp
  show ?thesis unfolding scan_number_def Let_def sign rest ip using tail by simp
qed

subsection \<open>Round trip\<close>

lemma skip_ws_stop [simp]: "\<not> json_space c \<Longrightarrow> skip_ws (c # r) = c # r"
  by (simp add: skip_ws_def)

lemma not_json_space [simp]: "\<not> json_space (CHR '','')" "\<not> json_space (CHR '']'')" "\<not> json_space (CHR 0x7D)"
  "\<not> json_space (CHR '':'')" "\<not> json_space (CHR 0x22)" "\<not> json_space (CHR ''['')" "\<not> json_space (CHR 0x7B)"
  by (simp_all add: json_space_def)

text \<open>The text of a value starts with no white space and is not mistaken for a closing bracket.\<close>

lemma json_text_starts:
  assumes "exact v"
  shows "\<exists>c t. json_text fr v = c # t \<and> \<not> json_space c \<and> c \<noteq> CHR '']'' \<and> c \<noteq> CHR 0x7D"
proof -
  have "\<exists>c t. dec_int i = c # t \<and> \<not> json_space c \<and> c \<noteq> CHR '']'' \<and> c \<noteq> CHR 0x7D" for i
  proof -
    obtain c t where c: "dec_int i = c # t" by (cases "dec_int i") auto
    with dec_int_chars [of c i] have "c = CHR ''-'' \<or> CHR ''0'' \<le> c \<and> c \<le> CHR ''9''" by simp
    with c show ?thesis by (auto simp: json_space_def less_eq_char_def)
  qed
  then show ?thesis using assms by (cases v) (auto simp: json_str_def json_space_def)
qed

lemma expect_Cons [simp]: "expect d (c # r) = (if c = d then Some r else None)"
  by (simp add: expect_def)

lemma literal_text:
  "literal (''null'' @ r) = Some (PNone, r)" "literal (''true'' @ r) = Some (PBool True, r)"
  "literal (''false'' @ r) = Some (PBool False, r)"
  by (simp_all add: literal_def)

lemma literal_dec_int:
  assumes "stop r" "length (dec_nat (nat \<bar>i\<bar>)) \<le> int_digits_limit"
  shows "literal (dec_int i @ r) = Some (PInt i, r)"
proof -
  obtain c t where c: "dec_int i = c # t" by (cases "dec_int i") auto
  with dec_int_chars [of c i] have "c = CHR ''-'' \<or> CHR ''0'' \<le> c \<and> c \<le> CHR ''9''" by simp
  then have "c \<noteq> CHR ''n''" "c \<noteq> CHR ''t''" "c \<noteq> CHR ''f''" by (auto simp: less_eq_char_def)
  with c scan_dec_int [OF assms] show ?thesis by (simp add: literal_def)
qed

lemma key_text_str: "is_KStr k \<Longrightarrow> KStr (key_text k) = k"
  by (cases k) auto

lemma object_of_items:
  "exact_items d \<Longrightarrow> distinct (map fst d) \<Longrightarrow> object_of_pairs (map (\<lambda>kv. (key_text (fst kv), snd kv)) d) = Some (PDict d)"
proof -
  assume a: "exact_items d" "distinct (map fst d)"
  have k: "\<forall>kv \<in> set d. KStr (key_text (fst kv)) = fst kv"
    using a(1) by (induction d) (fastforce simp: key_text_str)+
  then have "inj_on key_text (set (map fst d))"
    by (intro inj_onI) (metis imageE set_map)
  with a(2) have "distinct (map (key_text \<circ> fst) d)" by (metis distinct_map map_map)
  moreover have "map ((\<lambda>kv. (KStr (fst kv), snd kv)) \<circ> (\<lambda>kv. (key_text (fst kv), snd kv))) d = d"
    using k by (intro map_idI) auto
  ultimately show ?thesis by (simp add: object_of_pairs_def comp_def)
qed

lemma parse_text_all:
  "exact v \<Longrightarrow> stop r \<Longrightarrow> length (json_text fr v) \<le> n \<Longrightarrow> parse_value n (json_text fr v @ r) = Some (v, r)"
  "exact_list xs \<Longrightarrow> xs \<noteq> [] \<Longrightarrow> length (json_elems fr xs) \<le> n \<Longrightarrow> parse_elems n (json_elems fr xs @ r) = Some (xs, r)"
  "exact_items d \<Longrightarrow> d \<noteq> [] \<Longrightarrow> length (json_items fr d) \<le> n \<Longrightarrow>
     parse_items n (json_items fr d @ r) = Some (map (\<lambda>kv. (key_text (fst kv), snd kv)) d, r)"
proof (induction v and xs and d arbitrary: r n and r n and r n rule: norm_norm_list_norm_items.induct)
  case (1 xs)
  then obtain m where n: "n = Suc m" by (cases n) auto
  show ?case
  proof (cases xs)
    case Nil
    with n show ?thesis by simp
  next
    case (Cons x xs')
    obtain c t where "json_text fr x = c # t" "\<not> json_space c" "c \<noteq> CHR '']''"
      using json_text_starts [of x fr] 1(2) Cons by auto
    then have "json_elems fr xs @ r = c # tl (json_elems fr xs @ r)" "\<not> json_space c" "c \<noteq> CHR '']''"
      using Cons by auto
    then have "expect (CHR '']'') (skip_ws (json_elems fr xs @ r)) = None" "skip_ws (json_elems fr xs @ r) = json_elems fr xs @ r"
      by (metis skip_ws_stop expect_Cons, metis skip_ws_stop)
    with 1 n Cons show ?thesis by simp
  qed
next
  case (3 d)
  then obtain m where n: "n = Suc m" by (cases n) auto
  show ?case
  proof (cases d)
    case Nil
    with n show ?thesis by simp
  next
    case (Cons kv d')
    then obtain t where t: "json_items fr d @ r = CHR 0x22 # t"
      by (cases kv) (simp add: json_str_def)
    then have "expect (CHR 0x7D) (skip_ws (json_items fr d @ r)) = None" "skip_ws (json_items fr d @ r) = json_items fr d @ r"
      unfolding t by simp_all
    with 3 n Cons object_of_items [of d] show ?thesis by simp
  qed
next
  case (4)
  then obtain m where n: "n = Suc m" by (cases n) auto
  with literal_text(1) [of r] show ?case by simp
next
  case (5 b)
  then obtain m where n: "n = Suc m" by (cases n; cases b) auto
  with literal_text(2,3) [of r] show ?case by (cases b) simp_all
next
  case (6 i)
  obtain c t where c: "dec_int i = c # t" by (cases "dec_int i") auto
  with dec_int_chars [of c i] have "c = CHR ''-'' \<or> CHR ''0'' \<le> c \<and> c \<le> CHR ''9''" by simp
  then have "c \<noteq> CHR 0x22" "c \<noteq> CHR ''[''" "c \<noteq> CHR 0x7B" by (auto simp: less_eq_char_def)
  moreover from 6 c obtain m where n: "n = Suc m" by (cases n) auto
  ultimately show ?case using literal_dec_int [of r i] 6 c by simp
next
  case (8 s)
  then obtain m where n: "n = Suc m" by (cases n) (auto simp: json_str_def)
  with scan_string_text [of s r] show ?case by (simp add: json_str_def)
next
  case (10 x xs)
  then obtain m where n: "n = Suc m" by (cases n) (auto split: if_splits)
  show ?case
  proof (cases "xs = []")
    case True
    with 10(1) [of "CHR '']'' # r" m] 10(3-) n show ?thesis by simp
  next
    case False
    then obtain y ys where xs: "xs = y # ys" by (cases xs) auto
    obtain c t where "json_text fr y = c # t" "\<not> json_space c"
      using json_text_starts [of y fr] 10(3) xs by auto
    then have sk: "skip_ws (json_elems fr xs @ r) = json_elems fr xs @ r" using xs by simp
    have "parse_value m (json_text fr x @ CHR '','' # json_elems fr xs @ r) = Some (x, CHR '','' # json_elems fr xs @ r)"
      using 10(1) [of "CHR '','' # json_elems fr xs @ r" m] 10(3-) n False by simp
    moreover have "parse_elems m (json_elems fr xs @ r) = Some (xs, r)"
      using 10(2) [of m r] 10(3-) n False by simp
    ultimately show ?thesis using n False sk by simp
  qed
next
  case (12 k x d)
  obtain s where k: "k = KStr s" using 12(3) by (cases k) auto
  from 12 obtain m where n: "n = Suc m" by (cases n) (auto simp: json_str_def split: if_splits)
  obtain c t where "json_text fr x = c # t" "\<not> json_space c"
    using json_text_starts [of x fr] 12(3) by auto
  then have skx: "skip_ws (json_text fr x @ q) = json_text fr x @ q" for q by simp
  show ?case
  proof (cases "d = []")
    case True
    have "parse_value m (json_text fr x @ CHR 0x7D # r) = Some (x, CHR 0x7D # r)"
      using 12(1) [of "CHR 0x7D # r" m] 12(3-) n k True by (simp add: json_str_def)
    with n k True skx show ?thesis
      by (simp add: json_str_def scan_string_text)
  next
    case False
    then obtain kv d' where d: "d = kv # d'" by (cases d) auto
    then have sk: "skip_ws (json_items fr d @ r) = json_items fr d @ r" by (cases kv) (simp add: json_str_def)
    have "parse_value m (json_text fr x @ CHR '','' # json_items fr d @ r) = Some (x, CHR '','' # json_items fr d @ r)"
      using 12(1) [of "CHR '','' # json_items fr d @ r" m] 12(3-) n k False by (simp add: json_str_def)
    moreover have "parse_items m (json_items fr d @ r) = Some (map (\<lambda>kv. (key_text (fst kv), snd kv)) d, r)"
      using 12(2) [of m r] 12(3-) n k False by (simp add: json_str_def)
    ultimately show ?thesis using n k False sk skx
      by (simp add: json_str_def scan_string_text)
  qed
qed simp_all



text \<open>What the reader can return: string keys, none repeated at any depth, and no tuple.\<close>

fun clean :: "pyval \<Rightarrow> bool"
  and clean_list :: "pyval list \<Rightarrow> bool"
  and clean_items :: "pydict \<Rightarrow> bool" where
  "clean (PTuple xs) = False"
| "clean (PList xs) = clean_list xs"
| "clean (PDict d) = (clean_items d \<and> distinct (map fst d))"
| "clean _ = True"
| "clean_list [] = True"
| "clean_list (x # xs) = (clean x \<and> clean_list xs)"
| "clean_items [] = True"
| "clean_items ((k, v) # d) = (is_KStr k \<and> clean v \<and> clean_items d)"

lemma scan_number_clean: "scan_number s = Some (v, r) \<Longrightarrow> clean v"
  by (auto simp: scan_number_def number_tail_def Let_def split: if_splits option.splits prod.splits)

lemma literal_clean: "literal s = Some (v, r) \<Longrightarrow> clean v"
  by (auto simp: literal_def split: if_splits dest: scan_number_clean)

lemma object_of_pairs_clean:
  assumes "object_of_pairs ps = Some v" "\<forall>kv \<in> set ps. clean (snd kv)"
  shows "clean v"
proof -
  let ?d = "map (\<lambda>kv. (KStr (fst kv), snd kv)) ps"
  from assms(1) have v: "v = PDict ?d" and "distinct (map fst ps)"
    by (auto simp: object_of_pairs_def split: if_splits)
  then have "distinct (map KStr (map fst ps))" by (simp add: distinct_map inj_on_def)
  then have "distinct (map fst ?d)" by (simp add: comp_def)
  moreover have "clean_items ?d" using assms(2) by (induction ps) auto
  ultimately show ?thesis by (simp add: v)
qed

lemma parse_clean:
  "parse_value n s = Some (v, r) \<Longrightarrow> clean v"
  "parse_elems n s = Some (xs, r) \<Longrightarrow> clean_list xs"
  "parse_items n s = Some (ps, r) \<Longrightarrow> \<forall>kv \<in> set ps. clean (snd kv)"
proof (induction n s and n s and n s arbitrary: v r and xs r and ps r rule: parse_value_parse_elems_parse_items.induct)
  case (2 n s)
  from "2.prems" obtain c q where s: "s = c # q" by (cases s) auto
  consider (quote) "c = CHR 0x22" | (array) "c = CHR ''[''" | (object) "c = CHR 0x7B"
    | (other) "c \<noteq> CHR 0x22" "c \<noteq> CHR ''[''" "c \<noteq> CHR 0x7B" by blast
  then show ?case
  proof cases
    case quote
    with "2.prems" s show ?thesis by (cases "scan_string q") auto
  next
    case array
    show ?thesis
    proof (cases "expect (CHR '']'') (skip_ws q)")
      case None
      with array "2.prems" s obtain xs where "parse_elems n (skip_ws q) = Some (xs, r)" "v = PList xs" by auto
      with "2.IH"(1) [OF s _ _ None] array show ?thesis by auto
    qed (use array "2.prems" s in auto)
  next
    case object
    show ?thesis
    proof (cases "expect (CHR 0x7D) (skip_ws q)")
      case None
      with object "2.prems" s obtain ps where ps: "parse_items n (skip_ws q) = Some (ps, r)" "object_of_pairs ps = Some v"
        by (auto split: option.splits)
      with "2.IH"(2) [OF s _ _ _ None] object have "\<forall>kv \<in> set ps. clean (snd kv)" by auto
      with ps(2) show ?thesis by (rule object_of_pairs_clean)
    qed (use object "2.prems" s in auto)
  next
    case other
    with "2.prems" s show ?thesis by (auto dest: literal_clean)
  qed
next
  case (4 n s)
  from "4.prems" obtain v q where v: "parse_value n s = Some (v, q)" by (auto split: option.splits)
  show ?case
  proof (cases "expect (CHR '']'') (skip_ws q)")
    case None
    with "4.prems" v obtain q' where "expect (CHR '','') (skip_ws q) = Some q'" by (auto split: option.splits)
    with None "4.prems" "4.IH" v show ?thesis by auto
  qed (use "4.prems" "4.IH" v in auto)
next
  case (6 n s)
  from "6.prems" obtain q k q1 q2 v q3 where a: "expect (CHR 0x22) s = Some q" "scan_string q = Some (k, q1)"
      "expect (CHR '':'') (skip_ws q1) = Some q2" "parse_value n (skip_ws q2) = Some (v, q3)"
    by (auto split: option.splits)
  show ?case
  proof (cases "expect (CHR 0x7D) (skip_ws q3)")
    case None
    with "6.prems" a obtain q' ps' where q': "expect (CHR '','') (skip_ws q3) = Some q'"
        "parse_items n (skip_ws q') = Some (ps', r)" "ps = (k, v) # ps'"
      by (auto split: option.splits)
    have "\<forall>kv \<in> set ps'. clean (snd kv)"
      by (rule "6.IH"(2) [OF a(1,2) refl a(3,4) refl None q'(1,2)])
    moreover have "clean v" by (rule "6.IH"(1) [OF a(1,2) refl a(3,4)])
    ultimately show ?thesis using q'(3) by simp
  qed (use "6.prems" "6.IH" a in auto)
qed auto


end
