(* ===== verification/Inference.thy ===== *)
theory Inference imports Messages Routing Json_Parser begin

text \<open>
  dante/inference.py: the typed failures of a provider, the LiteLLM adapter with its response
  parsing, and the gateway that runs a route. The HTTP exchange is an argument: it maps a request
  to what came back. \<open>parse_date\<close> is \<open>email.utils.parsedate_to_datetime(v).timestamp()\<close>.
\<close>

section \<open>Failures\<close>

definition parent_error :: "inference_error \<Rightarrow> inference_error option" where
  "parent_error c =
     (case c of
        InferenceError \<Rightarrow> None
      | AdapterUnavailable \<Rightarrow> Some InferenceError
      | InferenceTimeout \<Rightarrow> Some AdapterUnavailable
      | RateQuotaUnavailable \<Rightarrow> Some AdapterUnavailable
      | RateLimitUnavailable \<Rightarrow> Some RateQuotaUnavailable
      | QuotaExhausted \<Rightarrow> Some RateQuotaUnavailable
      | InvalidResponse \<Rightarrow> Some InferenceError
      | InvalidRequest \<Rightarrow> Some InvalidResponse
      | ContextExceeded \<Rightarrow> Some InferenceError
      | PolicyDenied \<Rightarrow> Some InferenceError
      | QualificationDenied \<Rightarrow> Some PolicyDenied
      | ConfigurationDenied \<Rightarrow> Some PolicyDenied)"

text \<open>\<open>isinstance\<close>: the class itself or one of its (at most three) ancestors.\<close>

definition is_a :: "inference_error \<Rightarrow> inference_error \<Rightarrow> bool" where
  "is_a c k =
     (let up = (\<lambda>x. case x of None \<Rightarrow> None | Some y \<Rightarrow> parent_error y)
      in Some k \<in> {Some c, up (Some c), up (up (Some c)), up (up (up (Some c)))})"

text \<open>The constructor keeps a finite, non-negative \<open>retry_after\<close> and \<open>retry_at\<close> only.\<close>

definition kept :: "rat option \<Rightarrow> rat option" where
  "kept v = (case v of None \<Rightarrow> None | Some q \<Rightarrow> if 0 \<le> q then Some q else None)"

definition failed :: "inference_error \<Rightarrow> rat option \<Rightarrow> rat option \<Rightarrow> exn" where
  "failed c ra rt = InferenceFailed c (kept ra) (kept rt)"

definition fault :: "inference_error \<Rightarrow> exn" where
  "fault c = failed c None None"

section \<open>Provider headers\<close>

text \<open>\<open>float(text)\<close>: digits may be grouped by single underscores, the constants are case-insensitive.\<close>

definition grouped :: "string \<Rightarrow> bool" where
  "grouped s = (s = [] \<or> (list_all (\<lambda>p. p \<noteq> [] \<and> list_all is_digit p) (split_on (CHR ''_'') s)))"

definition ungroup :: "string \<Rightarrow> string" where
  "ungroup s = filter (\<lambda>c. c \<noteq> CHR ''_'') s"

definition span_digits :: "string \<Rightarrow> string \<times> string" where
  "span_digits s = (takeWhile (\<lambda>c. is_digit c \<or> c = CHR ''_'') s, dropWhile (\<lambda>c. is_digit c \<or> c = CHR ''_'') s)"

definition sign_of :: "string \<Rightarrow> bool \<times> string" where
  "sign_of s = (case s of [] \<Rightarrow> (False, []) | c # r \<Rightarrow> if c = CHR ''-'' then (True, r) else if c = CHR ''+'' then (False, r) else (False, s))"

definition float_exponent :: "string \<Rightarrow> int option" where
  "float_exponent s =
     (case s of [] \<Rightarrow> Some 0
      | c # r \<Rightarrow>
          if c \<noteq> CHR ''e'' \<and> c \<noteq> CHR ''E'' then None
          else (case sign_of r of (neg, ds) \<Rightarrow>
                  if ds \<noteq> [] \<and> grouped ds
                  then Some (if neg then - int (digits_value (ungroup ds)) else int (digits_value (ungroup ds))) else None))"

definition py_float :: "string \<Rightarrow> pyfloat option" where
  "py_float v =
     (case sign_of (strip v) of (neg, s) \<Rightarrow>
        if lower s \<in> {''inf'', ''infinity''} then Some (if neg then NegInf else PosInf)
        else if lower s = ''nan'' then Some NaN
        else (case span_digits s of (ip, r) \<Rightarrow>
          (case (case r of c # r2 \<Rightarrow> if c = CHR ''.'' then span_digits r2 else ([], r) | [] \<Rightarrow> ([], [])) of (fp, r3) \<Rightarrow>
             if ip @ fp = [] \<or> \<not> grouped ip \<or> \<not> grouped fp then None
             else map_option (read_float neg (ungroup ip) (ungroup fp)) (float_exponent r3))))"

definition retry_after_seconds :: "(string \<Rightarrow> rat option) \<Rightarrow> rat \<Rightarrow> string option \<Rightarrow> rat option" where
  "retry_after_seconds parse_date now v =
     (case v of None \<Rightarrow> None
      | Some s \<Rightarrow>
          (case py_float s of
             Some f \<Rightarrow> (case f of Fin q \<Rightarrow> Some (max 0 q) | _ \<Rightarrow> None)
           | None \<Rightarrow> map_option (\<lambda>t. max 0 (t - now)) (parse_date s)))"

definition reset_at_seconds :: "string option \<Rightarrow> rat option" where
  "reset_at_seconds v =
     (case v of None \<Rightarrow> None
      | Some s \<Rightarrow> (case py_float s of Some (Fin q) \<Rightarrow> if 0 \<le> q then Some q else None | _ \<Rightarrow> None))"

text \<open>Header names are compared without case.\<close>

definition header :: "(string \<times> string) list \<Rightarrow> string \<Rightarrow> string option" where
  "header hs name = map_option snd (find (\<lambda>h. lower (fst h) = lower name) hs)"

section \<open>Python access to a decoded document\<close>

definition py_index :: "pyval \<Rightarrow> string \<Rightarrow> pyval result" where
  "py_index v k = (case v of PDict d \<Rightarrow> of_opt KeyError (dget d k) | _ \<Rightarrow> Inl TypeError)"

definition py_get :: "pyval \<Rightarrow> string \<Rightarrow> pyval \<Rightarrow> pyval result" where
  "py_get v k dflt =
     (case v of PDict d \<Rightarrow> Inr (case dget d k of None \<Rightarrow> dflt | Some w \<Rightarrow> w) | _ \<Rightarrow> Inl AttributeError)"

definition py_iter :: "pyval \<Rightarrow> pyval list result" where
  "py_iter v =
     (case v of
        PList xs \<Rightarrow> Inr xs
      | PTuple xs \<Rightarrow> Inr xs
      | PDict d \<Rightarrow> Inr (map (\<lambda>kv. PStr (key_text (fst kv))) d)
      | PStr s \<Rightarrow> Inr (map (\<lambda>c. PStr [c]) s)
      | _ \<Rightarrow> Inl TypeError)"

definition loads_value :: "pyval \<Rightarrow> pyval result" where
  "loads_value v = (case v of PStr s \<Rightarrow> of_opt ValueError (loads_strict s) | _ \<Rightarrow> Inl TypeError)"

text \<open>A value of a set of strings: an unhashable one is a \<open>TypeError\<close>.\<close>

fun py_hashable :: "pyval \<Rightarrow> bool"
  and py_hashable_list :: "pyval list \<Rightarrow> bool" where
  "py_hashable (PList _) = False"
| "py_hashable (PDict _) = False"
| "py_hashable (PTuple xs) = py_hashable_list xs"
| "py_hashable _ = True"
| "py_hashable_list [] = True"
| "py_hashable_list (x # xs) = (py_hashable x \<and> py_hashable_list xs)"

definition in_names :: "pyval \<Rightarrow> string list \<Rightarrow> bool result" where
  "in_names v names =
     (if \<not> py_hashable v then Inl TypeError
      else Inr (case v of PStr s \<Rightarrow> s \<in> set names | _ \<Rightarrow> False))"

section \<open>HTTP errors\<close>

text \<open>\<open>he_body\<close> is \<open>None\<close> when reading the body raises \<open>OSError\<close>.\<close>

record http_error =
  he_code :: int
  he_body :: "string option"
  he_headers :: "(string \<times> string) list"

text \<open>\<open>_loads(exc.read(65536)).get('error', {}).get('code')\<close>\<close>

definition error_code :: "http_error \<Rightarrow> pyval result" where
  "error_code e =
     rbind (of_opt OSError (he_body e)) (\<lambda>b.
     rbind (loads_value (PStr (take 65536 b))) (\<lambda>doc.
     rbind (py_get doc ''error'' (PDict [])) (\<lambda>err. py_get err ''code'' PNone)))"

definition code_among :: "http_error \<Rightarrow> string list \<Rightarrow> bool" where
  "code_among e names =
     (case rbind (error_code e) (\<lambda>c. in_names c names) of Inl _ \<Rightarrow> False | Inr b \<Rightarrow> b)"

definition reset_header :: "http_error \<Rightarrow> string option" where
  "reset_header e =
     (case header (he_headers e) ''RateLimit-Reset'' of
        Some v \<Rightarrow> if v \<noteq> [] then Some v else header (he_headers e) ''X-RateLimit-Reset''
      | None \<Rightarrow> header (he_headers e) ''X-RateLimit-Reset'')"

definition http_failure :: "(string \<Rightarrow> rat option) \<Rightarrow> rat \<Rightarrow> http_error \<Rightarrow> exn" where
  "http_failure parse_date now e =
     (let ra = retry_after_seconds parse_date now (header (he_headers e) ''Retry-After'') in
      if he_code e = 429 then
        failed (if code_among e [''insufficient_quota'', ''quota_exhausted''] then QuotaExhausted else RateLimitUnavailable)
          ra (reset_at_seconds (reset_header e))
      else if he_code e \<in> {408, 504} then failed InferenceTimeout ra None
      else if he_code e \<in> {401, 403} then fault PolicyDenied
      else if he_code e = 400 \<and> code_among e [''context_length_exceeded'', ''context_window_exceeded''] then fault ContextExceeded
      else if 500 \<le> he_code e then failed AdapterUnavailable ra None
      else fault InvalidRequest)"

section \<open>The wire format\<close>

text \<open>\<open>json.dumps\<close> with its default separators and \<open>ensure_ascii\<close>.\<close>

definition ascii_char :: "char \<Rightarrow> string" where
  "ascii_char c =
     (if 127 \<le> (of_char c :: nat)
      then [CHR 0x5C, CHR ''u'', CHR ''0'', CHR ''0'', hex_digit (of_char c div 16), hex_digit (of_char c mod 16)]
      else esc_char c)"

definition ascii_str :: "string \<Rightarrow> string" where
  "ascii_str s = CHR 0x22 # concat (map ascii_char s) @ [CHR 0x22]"

fun dumps_text :: "(rat \<Rightarrow> string) \<Rightarrow> pyval \<Rightarrow> string"
  and dumps_elems :: "(rat \<Rightarrow> string) \<Rightarrow> pyval list \<Rightarrow> string list"
  and dumps_items :: "(rat \<Rightarrow> string) \<Rightarrow> pydict \<Rightarrow> string list" where
  "dumps_text fr (PStr s) = ascii_str s"
| "dumps_text fr (PList xs) = ''['' @ join '', '' (dumps_elems fr xs) @ '']''"
| "dumps_text fr (PTuple xs) = ''['' @ join '', '' (dumps_elems fr xs) @ '']''"
| "dumps_text fr (PDict d) = [CHR 0x7B] @ join '', '' (dumps_items fr d) @ [CHR 0x7D]"
| "dumps_text fr v = json_text fr v"
| "dumps_elems fr [] = []"
| "dumps_elems fr (x # xs) = dumps_text fr x # dumps_elems fr xs"
| "dumps_items fr [] = []"
| "dumps_items fr ((k, v) # d) = (ascii_str (key_text k) @ '': '' @ dumps_text fr v) # dumps_items fr d"

definition opt_str :: "string option \<Rightarrow> pyval" where
  "opt_str v = (case v of None \<Rightarrow> PNone | Some s \<Rightarrow> PStr s)"

definition wire_call :: "(rat \<Rightarrow> string) \<Rightarrow> tool_call \<Rightarrow> pyval" where
  "wire_call fr c = PDict
     [(KStr ''id'', PStr (call_id c)), (KStr ''type'', PStr ''function''),
      (KStr ''function'', PDict [(KStr ''name'', PStr (call_name c)),
                                 (KStr ''arguments'', PStr (dumps_text fr (PDict (call_arguments c))))])]"

definition wire_message :: "(rat \<Rightarrow> string) \<Rightarrow> message \<Rightarrow> pyval" where
  "wire_message fr m =
     (case m of
        ToolResultMessage i t \<Rightarrow> PDict [(KStr ''role'', PStr ''tool''), (KStr ''tool_call_id'', PStr i), (KStr ''content'', PStr t)]
      | TextMessage r t \<Rightarrow> PDict [(KStr ''role'', PStr r), (KStr ''content'', PStr t)]
      | AssistantMessage c calls \<Rightarrow>
          PDict ([(KStr ''role'', PStr ''assistant''), (KStr ''content'', opt_str c)]
                 @ (if calls = [] then [] else [(KStr ''tool_calls'', PList (map (wire_call fr) calls))])))"

definition wire_tool :: "tool_definition \<Rightarrow> pyval" where
  "wire_tool t = PDict [(KStr ''type'', PStr ''function''),
     (KStr ''function'', PDict [(KStr ''name'', PStr (td_name t)), (KStr ''description'', PStr (td_description t)),
                                (KStr ''parameters'', PDict (td_parameters t))])]"

definition wire_request :: "(rat \<Rightarrow> string) \<Rightarrow> inference_request \<Rightarrow> pyval" where
  "wire_request fr rq = PDict
     ([(KStr ''model'', PStr (logical_alias (rq_model rq))),
       (KStr ''messages'', PList (map (wire_message fr) (rq_messages rq))),
       (KStr ''temperature'', PFloat (Fin (rq_temperature rq)))]
      @ (case rq_max_output rq of None \<Rightarrow> [] | Some n \<Rightarrow> [(KStr ''max_tokens'', PInt (int n))])
      @ (if rq_tools rq = [] then [] else [(KStr ''tools'', PList (map wire_tool (rq_tools rq)))]))"

section \<open>Reading a response\<close>

definition parse_call :: "pyval \<Rightarrow> tool_call result" where
  "parse_call call =
     rbind (py_index call ''type'') (\<lambda>ty.
     rbind (guard (ty = PStr ''function'') ValueError) (\<lambda>_.
     rbind (rbind (py_index call ''function'') (\<lambda>f. py_index f ''arguments'')) (\<lambda>txt.
     rbind (loads_value txt) (\<lambda>args.
     rbind (case args of PDict d \<Rightarrow> Inr d | _ \<Rightarrow> Inl ValueError) (\<lambda>d.
     rbind (py_index call ''id'') (\<lambda>i.
     rbind (rbind (py_index call ''function'') (\<lambda>f. py_index f ''name'')) (\<lambda>n.
       make_tool_call i n d)))))))"

fun map_result :: "('a \<Rightarrow> 'b result) \<Rightarrow> 'a list \<Rightarrow> 'b list result" where
  "map_result f [] = Inr []"
| "map_result f (x # xs) = rbind (f x) (\<lambda>y. rbind (map_result f xs) (\<lambda>ys. Inr (y # ys)))"

definition content_field :: "pyval \<Rightarrow> string option result" where
  "content_field v = (case v of PNone \<Rightarrow> Inr None | PStr s \<Rightarrow> Inr (Some s) | _ \<Rightarrow> Inl ValueError)"

definition speaks :: "string option \<Rightarrow> bool" where
  "speaks c = (case c of None \<Rightarrow> False | Some s \<Rightarrow> strip s \<noteq> [])"

definition finish_reason :: "pyval \<Rightarrow> string list \<Rightarrow> string result" where
  "finish_reason v names =
     rbind (in_names v names) (\<lambda>b. Inr (if b then (case v of PStr s \<Rightarrow> s | _ \<Rightarrow> []) else ''unknown''))"

definition cost_field :: "string option \<Rightarrow> rat option result" where
  "cost_field h =
     (case h of None \<Rightarrow> Inr None
      | Some s \<Rightarrow> (case py_float s of Some (Fin q) \<Rightarrow> if 0 \<le> q then Inr (Some q) else Inl ValueError | _ \<Rightarrow> Inl ValueError))"

definition usage_of :: "pyval \<Rightarrow> usage result" where
  "usage_of payload =
     rbind (py_get payload ''usage'' PNone) (\<lambda>u.
     let u' = (if u = PNone then PDict [] else u) in
     rbind (py_get u' ''prompt_tokens'' PNone) (\<lambda>i.
     rbind (py_get u' ''completion_tokens'' PNone) (\<lambda>out.
     rbind (py_get u' ''total_tokens'' PNone) (\<lambda>t.
     rbind (usage_field (Some i)) (\<lambda>i'. rbind (usage_field (Some out)) (\<lambda>o'. rbind (usage_field (Some t)) (\<lambda>t'.
       Inr \<lparr>input_tokens = i', output_tokens = o', total_tokens = t'\<rparr>)))))))"

definition parse_completion :: "model_ref \<Rightarrow> string option \<Rightarrow> pyval \<Rightarrow> inference_response result" where
  "parse_completion m cost_header payload =
     rbind (py_index payload ''choices'') (\<lambda>choices.
     rbind (case choices of PList [c] \<Rightarrow> Inr c | _ \<Rightarrow> Inl ValueError) (\<lambda>choice.
     rbind (py_index choice ''message'') (\<lambda>message.
     rbind (py_get message ''role'' (PStr ''assistant'')) (\<lambda>role.
     rbind (guard (role = PStr ''assistant'') ValueError) (\<lambda>_.
     rbind (rbind (py_get message ''tool_calls'' (PList [])) py_iter) (\<lambda>raw.
     rbind (map_result parse_call raw) (\<lambda>calls.
     rbind (rbind (py_get message ''content'' PNone) content_field) (\<lambda>content.
     rbind (make_assistant content calls) (\<lambda>_.
     rbind (guard (calls \<noteq> [] \<or> speaks content) ValueError) (\<lambda>_.
     rbind (usage_of payload) (\<lambda>u.
     rbind (rbind (py_get choice ''finish_reason'' PNone)
              (\<lambda>v. finish_reason v [''stop'', ''tool_calls'', ''length'', ''content_filter''])) (\<lambda>reason.
     rbind (cost_field cost_header) (\<lambda>cost.
     rbind (guard (\<not> (reason = ''tool_calls'' \<and> calls = [])) ValueError) (\<lambda>_.
       Inr \<lparr>ir_model = m, ir_content = content, ir_calls = calls, ir_finish = reason, ir_usage = u,
            ir_cost = cost, ir_fallback = False\<rparr>))))))))))))))"

section \<open>The LiteLLM adapter\<close>

datatype http_outcome =
    HttpAnswer string "string option"
  | HttpStatus http_error
  | HttpTimeout
  | HttpNoConnection
  | HttpBroken

text \<open>\<open>AICloudLiteLLMAdapter(base_url, api_key_ref)\<close> with its normalised base.\<close>

definition rstrip_slash :: "string \<Rightarrow> string" where
  "rstrip_slash s = rev (dropWhile (\<lambda>c. c = CHR ''/'') (rev s))"

definition litellm_base :: "string \<Rightarrow> string result" where
  "litellm_base url =
     (if startswith url ''http://127.0.0.1:'' \<or> startswith url ''http://localhost:'' then Inr (rstrip_slash url)
      else Inl ValueError)"

text \<open>\<open>resolve_secret\<close> of dante/config.py on an environment.\<close>

definition resolve_secret :: "(string \<Rightarrow> string option) \<Rightarrow> string \<Rightarrow> string result" where
  "resolve_secret env ref =
     (case env (removeprefix ref ''env://'') of
        None \<Rightarrow> Inl RuntimeError | Some v \<Rightarrow> if v = [] then Inl RuntimeError else Inr v)"

definition answer_errors :: "exn set" where
  "answer_errors = {ValueError, TypeError, KeyError, AttributeError}"

definition read_answer :: "model_ref \<Rightarrow> string \<Rightarrow> string option \<Rightarrow> inference_response result" where
  "read_answer m raw cost_header =
     (case rbind (loads_value (PStr raw)) (parse_completion m cost_header) of
        Inl e \<Rightarrow> Inl (if e \<in> answer_errors then fault InvalidResponse else e)
      | Inr r \<Rightarrow> if ir_cost r \<noteq> None \<and> ir_cost r \<noteq> Some 0 then Inl (fault PolicyDenied) else Inr r)"

definition litellm_complete ::
  "(string \<Rightarrow> rat option) \<Rightarrow> rat \<Rightarrow> (string \<Rightarrow> string option) \<Rightarrow> (rat \<Rightarrow> string) \<Rightarrow> string \<Rightarrow> string
   \<Rightarrow> (string \<Rightarrow> string \<Rightarrow> string \<Rightarrow> http_outcome) \<Rightarrow> inference_request \<Rightarrow> inference_response result" where
  "litellm_complete parse_date now env fr base key_ref http rq =
     rbind (resolve_secret env key_ref) (\<lambda>key.
       case http (base @ ''/chat/completions'') (''Bearer '' @ key) (dumps_text fr (wire_request fr rq)) of
         HttpStatus e \<Rightarrow> Inl (http_failure parse_date now e)
       | HttpTimeout \<Rightarrow> Inl (fault InferenceTimeout)
       | HttpNoConnection \<Rightarrow> Inl (fault AdapterUnavailable)
       | HttpBroken \<Rightarrow> Inl (fault AdapterUnavailable)
       | HttpAnswer raw cost \<Rightarrow> read_answer (rq_model rq) raw cost)"

text \<open>The deterministic adapter of the tests and the end-to-end run.\<close>

definition deterministic_complete :: "string \<Rightarrow> bool \<Rightarrow> inference_request \<Rightarrow> inference_response result" where
  "deterministic_complete response unavailable rq =
     (if unavailable then Inl (fault AdapterUnavailable)
      else Inr \<lparr>ir_model = rq_model rq, ir_content = Some response, ir_calls = [], ir_finish = ''stop'',
                ir_usage = no_usage, ir_cost = Some 0, ir_fallback = False\<rparr>)"

section \<open>Which errors can arise\<close>

text \<open>\<open>m\<close> raises nothing but exceptions of \<open>S\<close>; one rule for each combinator.\<close>

definition raises_only :: "exn set \<Rightarrow> 'a result \<Rightarrow> bool" where
  "raises_only S m \<longleftrightarrow> (\<forall>e. m = Inl e \<longrightarrow> e \<in> S)"

named_theorems raises

lemma raises_Inr [raises]: "raises_only S (Inr a)"
  by (simp add: raises_only_def)

lemma raises_Inl [raises]: "e \<in> S \<Longrightarrow> raises_only S (Inl e)"
  by (simp add: raises_only_def)

lemma raises_rbind [raises]: "raises_only S m \<Longrightarrow> (\<And>a. raises_only S (f a)) \<Longrightarrow> raises_only S (rbind m f)"
  by (auto simp: raises_only_def rbind_eq_Inl)

lemma raises_guard [raises]: "e \<in> S \<Longrightarrow> raises_only S (guard b e)"
  by (simp add: raises_only_def guard_eq_Inl)

lemma raises_of_opt [raises]: "e \<in> S \<Longrightarrow> raises_only S (of_opt e m)"
  by (simp add: raises_only_def of_opt_eq_Inl)

lemma raises_if [raises]: "raises_only S m \<Longrightarrow> raises_only S n \<Longrightarrow> raises_only S (if b then m else n)"
  by simp

lemma raises_let [raises]: "raises_only S (f a) \<Longrightarrow> raises_only S (Let a f)"
  by simp

lemma raises_map [raises]: "(\<And>x. raises_only S (f x)) \<Longrightarrow> raises_only S (map_result f xs)"
  by (induction xs) (auto intro!: raises)

lemma in_answer_errors [raises]: "ValueError \<in> answer_errors" "TypeError \<in> answer_errors" "KeyError \<in> answer_errors"
  "AttributeError \<in> answer_errors"
  by (simp_all add: answer_errors_def)

lemma access_raises [raises]:
  "raises_only answer_errors (py_index v k)" "raises_only answer_errors (py_get v k w)"
  "raises_only answer_errors (py_iter v)" "raises_only answer_errors (loads_value v)"
  "raises_only answer_errors (in_names v ns)" "raises_only answer_errors (content_field v)"
  "raises_only answer_errors (str_field v)" "raises_only answer_errors (usage_field u)"
  "raises_only answer_errors (cost_field h)" "raises_only answer_errors (make_assistant c calls)"
  by (auto simp: py_index_def py_get_def py_iter_def loads_value_def in_names_def content_field_def str_field_def
      usage_field_def cost_field_def make_assistant_def intro!: raises split: pyval.split option.split pyfloat.split)

lemma parts_raise [raises]:
  "raises_only answer_errors (parse_call call)" "raises_only answer_errors (usage_of payload)"
  "raises_only answer_errors (finish_reason v ns)"
proof -
  have "raises_only answer_errors (make_tool_call i n d)" for i n d
    unfolding make_tool_call_def by (intro raises)
  then show "raises_only answer_errors (parse_call call)"
    unfolding parse_call_def by (auto intro!: raises split: pyval.split)
  show "raises_only answer_errors (usage_of payload)" "raises_only answer_errors (finish_reason v ns)"
    unfolding usage_of_def finish_reason_def by (intro raises)+
qed

lemma parse_raises: "raises_only answer_errors (parse_completion m h payload)"
proof -
  have l: "raises_only answer_errors (case choices of PList [c] \<Rightarrow> Inr c | _ \<Rightarrow> Inl ValueError)" for choices
    by (auto intro!: raises split: pyval.split list.split)
  show ?thesis unfolding parse_completion_def by (intro raises l)
qed

lemma read_answer_error: "read_answer m raw h = Inl e \<Longrightarrow> e = fault InvalidResponse \<or> e = fault PolicyDenied"
proof -
  have "raises_only answer_errors (rbind (loads_value (PStr raw)) (parse_completion m h))"
    by (intro raises parse_raises)
  then show "read_answer m raw h = Inl e \<Longrightarrow> e = fault InvalidResponse \<or> e = fault PolicyDenied"
    by (auto simp: read_answer_def raises_only_def split: sum.splits if_splits)
qed

lemma make_assistant_Inr: "make_assistant c calls = Inr m \<Longrightarrow> distinct (map call_id calls)"
  by (simp add: make_assistant_def split: if_splits)

lemma parse_completion_Inr:
  assumes "parse_completion m h payload = Inr r"
  shows "ir_model r = m" "distinct (map call_id (ir_calls r))" "ir_calls r \<noteq> [] \<or> speaks (ir_content r)" "\<not> ir_fallback r"
    "ir_finish r = ''tool_calls'' \<longrightarrow> ir_calls r \<noteq> []"
proof -
  have "ir_model r = m \<and> distinct (map call_id (ir_calls r)) \<and> (ir_calls r \<noteq> [] \<or> speaks (ir_content r))
      \<and> \<not> ir_fallback r \<and> (ir_finish r = ''tool_calls'' \<longrightarrow> ir_calls r \<noteq> [])"
    using assms unfolding parse_completion_def by (elim rbindE) (auto dest: make_assistant_Inr)
  then show "ir_model r = m" "distinct (map call_id (ir_calls r))" "ir_calls r \<noteq> [] \<or> speaks (ir_content r)" "\<not> ir_fallback r"
    "ir_finish r = ''tool_calls'' \<longrightarrow> ir_calls r \<noteq> []" by blast+
qed


text \<open>
  Which failures are worth a retry. An HTTP error becomes an inference failure, and it is one of
  the unavailable kind, which the gateway and the continuity manager retry, exactly for the statuses
  408, 429, 504 and those from 500 on; its waiting times are never negative.
\<close>

theorem http_failure_retryable:
  "\<exists>c ra rt. http_failure parse_date now e = InferenceFailed c ra rt
     \<and> (is_a c AdapterUnavailable \<longleftrightarrow> he_code e \<in> {408, 429, 504} \<or> 500 \<le> he_code e)
     \<and> (ra = None \<or> 0 \<le> the ra) \<and> (rt = None \<or> 0 \<le> the rt)"
  by (auto simp: http_failure_def Let_def failed_def fault_def kept_def is_a_def parent_error_def split: option.splits)

end
