(* ===== verification/Gateway.thy ===== *)
theory Gateway imports Inference begin

text \<open>
  The inference gateway of dante/inference.py: it runs a route's candidates in order, skips what may
  not be used, moves on only when an adapter is unavailable, and never leaves the side of the
  boundary, local or cloud, that the route selected.
\<close>

record adapter =
  ad_provider :: string
  ad_cost :: rat
  ad_complete :: "inference_request \<Rightarrow> inference_response result"

record gateway =
  gw_registry :: model_registry
  gw_adapters :: "(string \<times> adapter) list"

definition gateway_of :: "model_registry \<Rightarrow> adapter list \<Rightarrow> gateway" where
  "gateway_of R as = \<lparr>gw_registry = R, gw_adapters = fold (\<lambda>a d. dict_set (ad_provider a) a d) as []\<rparr>"

text \<open>The adapter of a model that may be tried at all.\<close>

definition usable_adapter :: "gateway \<Rightarrow> route_decision \<Rightarrow> model_ref \<Rightarrow> adapter option" where
  "usable_adapter G d m =
     (if is_local m \<noteq> is_local (selected_model d) \<or> \<not> automatic_cost_ok m then None
      else (case map_of (gw_adapters G) (provider_id m) of
              None \<Rightarrow> None | Some a \<Rightarrow> if ad_cost a \<noteq> 0 then None else Some a))"

definition checked_response :: "nat \<Rightarrow> model_ref \<Rightarrow> inference_response \<Rightarrow> inference_response result" where
  "checked_response i m r =
     (if ir_model r \<noteq> m then Inl (fault InvalidResponse)
      else if ir_cost r \<noteq> None \<and> ir_cost r \<noteq> Some 0 then Inl (fault PolicyDenied)
      else Inr (r\<lparr>ir_fallback := 0 < i\<rparr>))"

definition unavailable :: "exn \<Rightarrow> bool" where
  "unavailable e = (case e of InferenceFailed c _ _ \<Rightarrow> is_a c AdapterUnavailable | _ \<Rightarrow> False)"

text \<open>The loop over the candidates: \<open>i\<close> is the index of the first, \<open>err\<close> the last failure.\<close>

fun infer_from ::
  "pylib \<Rightarrow> fsys \<Rightarrow> gateway \<Rightarrow> route_decision \<Rightarrow> inference_request \<Rightarrow> nat \<Rightarrow> exn option \<Rightarrow> string list
   \<Rightarrow> inference_response result" where
  "infer_from L F G d rq i err [] = Inl (case err of None \<Rightarrow> fault PolicyDenied | Some e \<Rightarrow> e)"
| "infer_from L F G d rq i err (mid # mids) =
     rbind (get_model (gw_registry G) mid) (\<lambda>m.
       case usable_adapter G d m of
         None \<Rightarrow> infer_from L F G d rq (Suc i) err mids
       | Some a \<Rightarrow>
           (case require_automatic L F (gw_registry G) m (rq_tools rq \<noteq> []) of
              Inl e \<Rightarrow> Inl (if e = ValueError then fault QualificationDenied else e)
            | Inr _ \<Rightarrow>
                (case rbind (ad_complete a (rq\<lparr>rq_model := m\<rparr>)) (checked_response i m) of
                   Inr r \<Rightarrow> Inr r
                 | Inl e \<Rightarrow> if unavailable e then infer_from L F G d rq (Suc i) (Some e) mids else Inl e)))"

definition gateway_infer :: "pylib \<Rightarrow> fsys \<Rightarrow> gateway \<Rightarrow> route_decision \<Rightarrow> inference_request \<Rightarrow> inference_response result" where
  "gateway_infer L F G d rq =
     (if rq_model rq \<noteq> selected_model d then Inl (fault PolicyDenied)
      else if rq_task_id rq \<notin> {None, Some (rd_task_id d)} \<or> rq_trace_id rq \<notin> {None, Some (rd_trace_id d)}
      then Inl (fault PolicyDenied)
      else infer_from L F G d rq 0 None (candidates d))"

definition infer_once :: "pylib \<Rightarrow> fsys \<Rightarrow> gateway \<Rightarrow> route_decision \<Rightarrow> inference_request \<Rightarrow> inference_response result" where
  "infer_once L F G d rq =
     (if candidates d \<noteq> [model_id (selected_model d)] then Inl (fault ConfigurationDenied)
      else gateway_infer L F G d rq)"

text \<open>The bridge from plain text messages.\<close>

definition gateway_complete :: "pylib \<Rightarrow> fsys \<Rightarrow> gateway \<Rightarrow> route_decision \<Rightarrow> message list \<Rightarrow> inference_response result" where
  "gateway_complete L F G d ms =
     rbind (make_request (selected_model d) ms [] 0 None (Some (rd_task_id d)) (Some (rd_trace_id d)))
       (gateway_infer L F G d)"

section \<open>Facts\<close>

lemma checked_response_Inr:
  "checked_response i m r = Inr r' \<Longrightarrow> r' = r\<lparr>ir_fallback := 0 < i\<rparr> \<and> ir_model r = m \<and> ir_cost r \<in> {None, Some 0}"
  by (auto simp: checked_response_def split: if_splits)

lemma usable_adapter_Some:
  "usable_adapter G d m = Some a \<Longrightarrow> is_local m = is_local (selected_model d) \<and> automatic_cost_ok m
     \<and> map_of (gw_adapters G) (provider_id m) = Some a \<and> ad_cost a = 0"
  by (auto simp: usable_adapter_def split: if_splits option.splits)

text \<open>The candidate that answered, and those before it.\<close>

lemma infer_from_Inr:
  assumes "infer_from L F G d rq i err mids = Inr r"
  shows "\<exists>n m a r0. n < length mids \<and> get_model (gw_registry G) (mids ! n) = Inr m \<and> usable_adapter G d m = Some a
    \<and> require_automatic L F (gw_registry G) m (rq_tools rq \<noteq> []) = Inr ()
    \<and> ad_complete a (rq\<lparr>rq_model := m\<rparr>) = Inr r0 \<and> checked_response (i + n) m r0 = Inr r"
  using assms
proof (induction mids arbitrary: i err)
  case (Cons mid mids)
  from Cons.prems obtain m where m: "get_model (gw_registry G) mid = Inr m" by (auto elim: rbindE)
  have step: ?case if "\<exists>err'. infer_from L F G d rq (Suc i) err' mids = Inr r"
  proof -
    from that Cons.IH obtain n m' a r0 where "n < length mids" "get_model (gw_registry G) (mids ! n) = Inr m'"
      "usable_adapter G d m' = Some a" "require_automatic L F (gw_registry G) m' (rq_tools rq \<noteq> []) = Inr ()"
      "ad_complete a (rq\<lparr>rq_model := m'\<rparr>) = Inr r0" "checked_response (Suc i + n) m' r0 = Inr r" by blast
    then show ?thesis by (intro exI [of _ "Suc n"] exI [of _ m'] exI [of _ a] exI [of _ r0]) simp
  qed
  show ?case
  proof (cases "usable_adapter G d m")
    case None
    with Cons.prems m have "infer_from L F G d rq (Suc i) err mids = Inr r" by simp
    with step show ?thesis by blast
  next
    case (Some a)
    with Cons.prems m have q: "require_automatic L F (gw_registry G) m (rq_tools rq \<noteq> []) = Inr ()"
      by (auto split: sum.splits)
    show ?thesis
    proof (cases "rbind (ad_complete a (rq\<lparr>rq_model := m\<rparr>)) (checked_response i m)")
      case (Inl e)
      with Cons.prems m Some q have "infer_from L F G d rq (Suc i) (Some e) mids = Inr r" by (simp split: if_splits)
      with step show ?thesis by blast
    next
      case (Inr r')
      with Cons.prems m Some q have "r' = r" by simp
      with Inr m Some q show ?thesis
        by (intro exI [of _ 0] exI [of _ m] exI [of _ a]) (auto simp: rbind_eq_Inr)
    qed
  qed
qed simp

text \<open>
  C12 (the boundary holds). A response of the gateway comes from a registered candidate of the route
  on the same side, local or cloud, as the model the route selected; that model is free, qualified
  for automatic use at that moment, and served by an adapter without cost; the response is for it,
  cost nothing, and is marked as a fallback exactly when an earlier candidate was passed over.
\<close>

theorem gateway_keeps_boundary:
  assumes "gateway_infer L F G d rq = Inr r"
  shows "\<exists>n < length (candidates d). \<exists>m. map_of (rg_models (gw_registry G)) (candidates d ! n) = Some m
    \<and> ir_model r = m \<and> is_local m = is_local (selected_model d) \<and> automatic_cost_ok m
    \<and> require_automatic L F (gw_registry G) m (rq_tools rq \<noteq> []) = Inr ()
    \<and> (\<exists>a. map_of (gw_adapters G) (provider_id m) = Some a \<and> ad_cost a = 0)
    \<and> ir_cost r \<in> {None, Some 0} \<and> (ir_fallback r \<longleftrightarrow> 0 < n)"
proof -
  from assms have "infer_from L F G d rq 0 None (candidates d) = Inr r"
    by (auto simp: gateway_infer_def split: if_splits)
  from infer_from_Inr [OF this] obtain n m a r0 where r: "n < length (candidates d)"
      "get_model (gw_registry G) (candidates d ! n) = Inr m" "usable_adapter G d m = Some a"
      "require_automatic L F (gw_registry G) m (rq_tools rq \<noteq> []) = Inr ()" "checked_response n m r0 = Inr r"
    by auto
  from usable_adapter_Some [OF r(3)] checked_response_Inr [OF r(5)] r(1,2,4) show ?thesis
    by (intro exI [of _ n] conjI exI [of _ m]) (auto simp: get_model_def of_opt_eq_Inr)
qed

section \<open>Examples\<close>

definition ex_adapter :: "string \<Rightarrow> bool \<Rightarrow> adapter" where
  "ex_adapter provider down = \<lparr>ad_provider = provider, ad_cost = 0, ad_complete = deterministic_complete ''hello'' down\<rparr>"

definition ex_gateway :: "bool \<Rightarrow> gateway" where
  "ex_gateway down = gateway_of ex_registry [ex_adapter ''ollama'' down, ex_adapter ''cloud'' False]"

definition ex_messages :: "message list" where
  "ex_messages = [TextMessage ''user'' ''hi'']"

definition ex_answer :: inference_response where
  "ex_answer = \<lparr>ir_model = ex_model ''b'' True, ir_content = Some ''hello'', ir_calls = [], ir_finish = ''stop'',
                ir_usage = no_usage, ir_cost = Some 0, ir_fallback = False\<rparr>"

lemma ex_gateway_answers:
  "gateway_complete ex_route_lib ex_files (ex_gateway False) ex_decision ex_messages = Inr ex_answer"
  by code_simp

theorem gateway_keeps_boundary_witness:
  "\<exists>rq. gateway_infer ex_route_lib ex_files (ex_gateway False) ex_decision rq = Inr ex_answer
     \<and> is_local (ir_model ex_answer) = is_local (selected_model ex_decision)"
proof -
  from ex_gateway_answers obtain rq
    where rq: "gateway_infer ex_route_lib ex_files (ex_gateway False) ex_decision rq = Inr ex_answer"
    by (auto simp: gateway_complete_def rbind_eq_Inr)
  from gateway_keeps_boundary [OF this] rq show ?thesis by blast
qed

end
