(* ===== verification/Continuity.thy ===== *)
theory Continuity imports Gateway Programs begin

text \<open>
  dante/continuity.py, the re-evaluation of routes: \<open>infer\<close> surveys the candidates, reserves an
  attempt, runs one route and, when it fails, puts the backend into a cooldown and looks again. The
  loop has no bound of its own in the code, so it takes fuel; \<open>None\<close> is a run that has not ended.
\<close>

section \<open>Failures\<close>

text \<open>\<open>classify\<close>: the first class the error is an instance of.\<close>

definition classify_error :: "inference_error \<Rightarrow> string \<times> backend_state option \<times> bool" where
  "classify_error c =
     (if is_a c QuotaExhausted then (''quota_exhausted'', Some BQuotaExhausted, True)
      else if is_a c RateQuotaUnavailable then (''rate_limit'', Some BRateLimited, True)
      else if is_a c InferenceTimeout then (''timeout'', Some BDegraded, True)
      else if is_a c AdapterUnavailable then (''unavailable'', Some BUnavailable, True)
      else if is_a c ContextExceeded then (''context_exceeded'', None, False)
      else if is_a c InvalidRequest then (''invalid_request'', None, False)
      else if is_a c InvalidResponse then (''invalid_response'', Some BDegraded, True)
      else if is_a c QualificationDenied then (''qualification_denied'', None, False)
      else if is_a c ConfigurationDenied then (''configuration_denied'', None, False)
      else if is_a c PolicyDenied then (''policy_denied'', None, False)
      else (''unclassified_inference_error'', None, False))"

section \<open>The manager\<close>

text \<open>The gateway may differ from call to call: its adapters answer differently in time.\<close>

record continuity_manager =
  cm_registry :: model_registry
  cm_version :: string
  cm_policy :: continuity_policy
  cm_gateway :: "nat \<Rightarrow> gateway"

record continuity_outcome =
  co_disposition :: disposition
  co_reason :: string
  co_response :: "inference_response option"
  co_next :: "rat option"

definition clock :: "environment \<Rightarrow> rat prog" where
  "clock E = query E (\<lambda>x F db. Inr (tx_now x))"

definition conclude ::
  "environment \<Rightarrow> task \<Rightarrow> disposition \<Rightarrow> string \<Rightarrow> inference_response option \<Rightarrow> rat option \<Rightarrow> continuity_outcome prog" where
  "conclude E tk d reason resp retry_at =
     pbind (clock E) (\<lambda>now. pbind (clock E) (\<lambda>now2.
     pbind (commit E (\<lambda>x F db. outcome now now2 x tk d reason retry_at db)) (\<lambda>_.
       ret \<lparr>co_disposition = d, co_reason = reason, co_response = resp, co_next = retry_at\<rparr>)))"

section \<open>The survey of the candidates\<close>

text \<open>A candidate is used, waits until a date, for a reason, or is denied.\<close>

datatype verdict = Use | Wait string rat "string option" | Deny string

definition health_verdict :: "continuity_policy \<Rightarrow> rat \<Rightarrow> model_ref \<Rightarrow> backend_row option \<Rightarrow> verdict" where
  "health_verdict p now m obs =
     (if \<not> available m then Wait ''administratively_unavailable'' (now + base_backoff_s p) None
      else (case obs of
              None \<Rightarrow> Wait ''health_unknown'' (now + base_backoff_s p) None
            | Some b \<Rightarrow>
                if b_state b = BUnknown then Wait ''health_unknown'' (now + base_backoff_s p) None
                else (case b_cooldown_until b of
                        Some c \<Rightarrow> if now < c then Wait ''cooldown'' c (Some (b_reason b)) else Use
                      | None \<Rightarrow>
                          if b_state b \<notin> {BAvailable, BDegraded} \<or> observation_ttl_s p < now - b_observed_at b
                          then Wait ''health_unavailable_or_stale'' (now + base_backoff_s p) None
                          else Use)))"

definition adapter_ready :: "gateway \<Rightarrow> model_ref \<Rightarrow> bool" where
  "adapter_ready G m =
     (case map_of (gw_adapters G) (provider_id m) of None \<Rightarrow> False | Some a \<Rightarrow> ad_cost a = 0)"

definition candidate_verdict ::
  "environment \<Rightarrow> continuity_manager \<Rightarrow> rat \<Rightarrow> (string \<times> string) list \<Rightarrow> model_ref \<Rightarrow> verdict prog" where
  "candidate_verdict E M now excluded m w =
     (case map_of excluded (model_id m) of
        Some why \<Rightarrow> (Inr (Deny why), w)
      | None \<Rightarrow>
          if \<not> adapter_ready (cm_gateway M (w_tick w)) m then (Inr (Deny ''adapter_configuration_or_cost''), w)
          else query E (\<lambda>x F db. Inr (health_verdict (cm_policy M) now m (observation db (provider_id m)))) w)"

record survey =
  sv_usable :: "model_ref list"
  sv_denied :: "(string \<times> string) list"
  sv_dates :: "rat list"
  sv_cooldowns :: "string list"

definition note_verdict :: "model_ref \<Rightarrow> verdict \<Rightarrow> survey \<Rightarrow> survey" where
  "note_verdict m v s =
     (case v of
        Use \<Rightarrow> s\<lparr>sv_usable := sv_usable s @ [m]\<rparr>
      | Deny why \<Rightarrow> s\<lparr>sv_denied := dict_set (model_id m) why (sv_denied s)\<rparr>
      | Wait why date cooldown \<Rightarrow>
          s\<lparr>sv_denied := dict_set (model_id m) why (sv_denied s), sv_dates := sv_dates s @ [date],
            sv_cooldowns := sv_cooldowns s @ (case cooldown of None \<Rightarrow> [] | Some r \<Rightarrow> [r])\<rparr>)"

fun survey_models ::
  "environment \<Rightarrow> continuity_manager \<Rightarrow> rat \<Rightarrow> (string \<times> string) list \<Rightarrow> model_ref list \<Rightarrow> survey \<Rightarrow> survey prog" where
  "survey_models E M now excluded [] s = ret s"
| "survey_models E M now excluded (m # ms) s =
     pbind (candidate_verdict E M now excluded m) (\<lambda>v. survey_models E M now excluded ms (note_verdict m v s))"

definition wait_reason :: "string list \<Rightarrow> string" where
  "wait_reason cooldowns =
     (if set cooldowns = {''quota_exhausted''} then ''provider_quota_cooldown''
      else if set cooldowns = {''rate_limit''} then ''provider_rate_limit_cooldown''
      else ''routes_temporarily_unavailable'')"

definition earliest :: "rat list \<Rightarrow> rat" where
  "earliest ds = (case ds of [] \<Rightarrow> 0 | d # r \<Rightarrow> fold min r d)"

section \<open>One attempt\<close>

definition event :: "environment \<Rightarrow> task \<Rightarrow> string \<Rightarrow> (string \<times> pyval) list \<Rightarrow> unit prog" where
  "event E tk name metadata = commit E (\<lambda>x F db. continuity_event x tk name metadata db)"

definition route_for :: "continuity_manager \<Rightarrow> task \<Rightarrow> model_ref \<Rightarrow> string \<Rightarrow> route_decision" where
  "route_for M tk m rid =
     \<lparr>route_id = rid, rd_task_id = task_id tk, rd_trace_id = trace_id tk, selected_model = m,
      candidates = [model_id m], reasons = [''continuity_eligible''], policy_version = cm_version M, automatic_cost = 0\<rparr>"

definition run_gateway ::
  "environment \<Rightarrow> continuity_manager \<Rightarrow> route_decision \<Rightarrow> message list \<Rightarrow> tool_definition list \<Rightarrow> task
   \<Rightarrow> inference_response prog" where
  "run_gateway E M d ms ts tk w =
     (let w1 = tick E w in
      (rbind (make_request (selected_model d) ms ts 0 None (Some (task_id tk)) (Some (trace_id tk)))
         (infer_once (e_lib E) (w_files w1) (cm_gateway M (w_tick w)) d), w1))"

text \<open>The cooldown after a failure: exponential in the failures so far, within the policy's bounds.\<close>

definition backoff :: "continuity_policy \<Rightarrow> nat \<Rightarrow> rat option \<Rightarrow> rat" where
  "backoff p failures ra =
     max (min (max_backoff_s p) (base_backoff_s p * 2 ^ min failures 30)) (case ra of None \<Rightarrow> 0 | Some q \<Rightarrow> q)"

definition cool_down ::
  "environment \<Rightarrow> continuity_manager \<Rightarrow> task \<Rightarrow> model_ref \<Rightarrow> backend_state \<Rightarrow> string \<Rightarrow> rat option \<Rightarrow> rat option \<Rightarrow> unit prog" where
  "cool_down E M tk m st reason ra rt =
     pbind (query E (\<lambda>x F db. Inr (case observation db (provider_id m) of None \<Rightarrow> 0 | Some b \<Rightarrow> b_failures b))) (\<lambda>failures.
     pbind (clock E) (\<lambda>now.
     let deadline = now + backoff (cm_policy M) failures ra;
         deadline' = (case rt of None \<Rightarrow> deadline | Some t \<Rightarrow> max deadline t)
     in pbind (clock E) (\<lambda>seen.
        commit E (\<lambda>x F db. observe seen x (provider_id m) st (Some (Fin deadline')) (Some reason) (Some (task_id tk)) db))))"

definition model_event :: "model_ref \<Rightarrow> (string \<times> pyval) list" where
  "model_event m = [(''model_id'', PStr (model_id m)), (''backend_id'', PStr (provider_id m))]"

text \<open>What follows a failure: \<open>Inl\<close> ends the loop, \<open>Inr\<close> goes on with the excluded models.\<close>

definition after_failure ::
  "environment \<Rightarrow> continuity_manager \<Rightarrow> task \<Rightarrow> model_ref \<Rightarrow> (string \<times> string) list \<Rightarrow> inference_error \<Rightarrow> rat option \<Rightarrow> rat option
   \<Rightarrow> (continuity_outcome + (string \<times> string) list) prog" where
  "after_failure E M tk m excluded c ra rt =
     (case classify_error c of (reason, st, again) \<Rightarrow>
        pbind (event E tk ''failure'' (model_event m @ [(''classification'', PStr reason)])) (\<lambda>_.
          case st of
            Some s \<Rightarrow> if again then pbind (cool_down E M tk m s reason ra rt) (\<lambda>_. ret (Inr excluded))
                      else ret (Inr (dict_set (model_id m) reason excluded))
          | None \<Rightarrow>
              if reason \<in> {''invalid_request'', ''unclassified_inference_error''}
              then pbind (conclude E tk Terminal reason None None) (\<lambda>o'. ret (Inl o'))
              else ret (Inr (dict_set (model_id m) reason excluded))))"

definition failed_route ::
  "environment \<Rightarrow> continuity_manager \<Rightarrow> task \<Rightarrow> model_ref \<Rightarrow> (string \<times> string) list \<Rightarrow> exn
   \<Rightarrow> (continuity_outcome + (string \<times> string) list) prog" where
  "failed_route E M tk m excluded e =
     (case e of InferenceFailed c ra rt \<Rightarrow> after_failure E M tk m excluded c ra rt | _ \<Rightarrow> throw e)"

definition answered_route ::
  "environment \<Rightarrow> task \<Rightarrow> model_ref \<Rightarrow> string option \<Rightarrow> inference_response
   \<Rightarrow> (continuity_outcome + (string \<times> string) list) prog" where
  "answered_route E tk m previous r =
     pbind (clock E) (\<lambda>seen.
     pbind (commit E (\<lambda>x F db. observe seen x (provider_id m) BAvailable None None (Some (task_id tk)) db)) (\<lambda>_.
     pbind (conclude E tk ContinueNow ''inference_succeeded'' (Some (r\<lparr>ir_fallback := previous \<noteq> None\<rparr>)) None)
       (\<lambda>o'. ret (Inl o'))))"

definition attempt_route ::
  "environment \<Rightarrow> continuity_manager \<Rightarrow> task \<Rightarrow> message list \<Rightarrow> tool_definition list \<Rightarrow> model_ref
   \<Rightarrow> (string \<times> string) list \<Rightarrow> string option \<Rightarrow> (continuity_outcome + (string \<times> string) list) prog" where
  "attempt_route E M tk ms ts m excluded previous =
     pbind (event E tk ''selected'' (model_event m @ [(''previous_model_id'', opt_str previous)])) (\<lambda>_.
     with_fresh E (\<lambda>rid. let d = route_for M tk m rid in
     pbind (transact E (\<lambda>x F db. set_route x d db)) (\<lambda>_.
     attempt_prog (run_gateway E M d ms ts tk) (failed_route E M tk m excluded) (answered_route E tk m previous))))"

section \<open>The loop\<close>

definition admitted_now ::
  "environment \<Rightarrow> continuity_manager \<Rightarrow> privacy_decision \<Rightarrow> string fset \<Rightarrow> nat option \<Rightarrow> tx \<Rightarrow> fsys \<Rightarrow> db
   \<Rightarrow> (model_ref list \<times> (string \<times> string) list) result" where
  "admitted_now E M pd caps need x F db = continuity_candidates (e_lib E) F (cm_registry M) pd caps (cm_policy M) need"

definition survey_now ::
  "environment \<Rightarrow> continuity_manager \<Rightarrow> privacy_decision \<Rightarrow> string fset \<Rightarrow> nat option \<Rightarrow> (string \<times> string) list
   \<Rightarrow> (rat \<times> survey) prog" where
  "survey_now E M pd caps need excluded =
     pbind (clock E) (\<lambda>now.
     pbind (query E (admitted_now E M pd caps need)) (\<lambda>(ms, denied).
     pbind (survey_models E M now excluded ms \<lparr>sv_usable = [], sv_denied = denied, sv_dates = [], sv_cooldowns = []\<rparr>) (\<lambda>s.
       ret (now, s))))"

definition candidates_event :: "survey \<Rightarrow> (string \<times> pyval) list" where
  "candidates_event s =
     [(''eligible'', PList (map (\<lambda>m. PStr (model_id m)) (sv_usable s))),
      (''denied'', PDict (map (\<lambda>kv. (KStr (fst kv), PStr (snd kv))) (sv_denied s)))]"

fun infer_loop ::
  "nat \<Rightarrow> environment \<Rightarrow> continuity_manager \<Rightarrow> task \<Rightarrow> privacy_decision \<Rightarrow> message list \<Rightarrow> string fset \<Rightarrow> tool_definition list
   \<Rightarrow> nat option \<Rightarrow> (string \<times> string) list \<Rightarrow> string option \<Rightarrow> continuity_outcome option prog" where
  "infer_loop 0 E M tk pd ms caps ts need excluded previous = ret None"
| "infer_loop (Suc n) E M tk pd ms caps ts need excluded previous =
     pbind (survey_now E M pd caps need excluded) (\<lambda>(now, s).
     pbind (event E tk ''candidates'' (candidates_event s)) (\<lambda>_.
       case sv_usable s of
         [] \<Rightarrow>
           pbind (if sv_dates s = [] then conclude E tk Terminal ''no_eligible_route'' None None
                  else conclude E tk RetryLater (wait_reason (sv_cooldowns s)) None
                         (Some (max (now + base_backoff_s (cm_policy M)) (earliest (sv_dates s))))) (\<lambda>o'. ret (Some o'))
       | m # _ \<Rightarrow>
           pbind (clock E) (\<lambda>start.
           pbind (transact E (\<lambda>x F db. reserve (cm_policy M) start x (task_id tk) db)) (\<lambda>full.
             case full of
               Some t \<Rightarrow> pbind (conclude E tk RetryLater ''route_attempt_budget'' None (Some t)) (\<lambda>o'. ret (Some o'))
             | None \<Rightarrow>
                 pbind (attempt_route E M tk ms ts m excluded previous) (\<lambda>next.
                   case next of
                     Inl o' \<Rightarrow> ret (Some o')
                   | Inr excluded' \<Rightarrow> infer_loop n E M tk pd ms caps ts need excluded' (Some (model_id m)))))))"

text \<open>The tokens asked for: a positive integer that is no boolean, or nothing.\<close>

definition context_need :: "pyval \<Rightarrow> nat option option" where
  "context_need v =
     (case v of PNone \<Rightarrow> Some None | PInt i \<Rightarrow> if 0 < i then Some (Some (nat i)) else None | _ \<Rightarrow> None)"

definition continuity_infer ::
  "nat \<Rightarrow> environment \<Rightarrow> continuity_manager \<Rightarrow> task \<Rightarrow> privacy_decision \<Rightarrow> message list \<Rightarrow> string fset \<Rightarrow> tool_definition list
   \<Rightarrow> pyval \<Rightarrow> continuity_outcome option prog" where
  "continuity_infer fuel E M tk pd ms caps ts context =
     (case context_need context of
        None \<Rightarrow> pbind (conclude E tk Terminal ''invalid_request'' None None) (\<lambda>o'. ret (Some o'))
      | Some need \<Rightarrow>
          infer_loop fuel E M tk pd ms (if ts = [] then caps else finsert ''tool_calling'' caps) ts need [] None)"

section \<open>An inference is a run of the ledger\<close>

text \<open>A survey only reads: it stays within every relation that the passing of time stays within.\<close>

context world_relation begin

lemma stays_survey:
  assumes "\<And>w. R w (tick E w)"
  shows "stays R (survey_now E M pd caps need ex)"
proof -
  note q = stays_query [OF assms]
  have "R w (snd (query E f w))" for f :: "tx \<Rightarrow> fsys \<Rightarrow> db \<Rightarrow> verdict result" and w
    by (rule stays_snd [OF q])
  then have v: "stays R (candidate_verdict E M now ex m)" for now m
    by (auto simp: stays_def candidate_verdict_def R_refl split: option.splits)
  have "stays R (survey_models E M now ex ms sv)" for now ms sv
    by (induction ms arbitrary: sv) (simp_all add: stays_pbind v)
  then show ?thesis
    unfolding survey_now_def clock_def by (auto intro!: stays_pbind q split: prod.split)
qed

end

text \<open>A continuation makes nothing but ledger steps, and calls no tool.\<close>

lemma reserve_steps: "steps_of_op L (\<lambda>x F db. reserve p now x tid db)"
  by (auto simp: steps_of_op_def intro: Reserve)

lemma set_route_steps: "steps_of_op L (\<lambda>x F db. set_route x d db)"
  by (auto simp: steps_of_op_def intro: Set_Route)

context ledger_relation
begin

lemma stays_clock: "quiet E \<Longrightarrow> e_lib E = L \<Longrightarrow> stays R (clock E)"
  unfolding clock_def by (rule stays_read)

lemma stays_conclude: "quiet E \<Longrightarrow> e_lib E = L \<Longrightarrow> stays R (conclude E tk d reason resp ra)"
  unfolding conclude_def by (auto intro!: stays_pbind stays_clock stays_commit intro: Outcome)

lemma stays_event: "quiet E \<Longrightarrow> e_lib E = L \<Longrightarrow> stays R (event E tk name md)"
  unfolding event_def by (auto intro!: stays_commit intro: Event)

lemma stays_run_gateway: "quiet E \<Longrightarrow> e_lib E = L \<Longrightarrow> stays R (run_gateway E M d ms ts tk)"
  by (simp add: stays_def run_gateway_def Let_def R_tick)

lemma stays_cool_down: "quiet E \<Longrightarrow> e_lib E = L \<Longrightarrow> stays R (cool_down E M tk m st reason ra rt)"
  unfolding cool_down_def Let_def by (auto intro!: stays_pbind stays_clock stays_read stays_commit intro: Observe)

lemma stays_after_failure: "quiet E \<Longrightarrow> e_lib E = L \<Longrightarrow> stays R (after_failure E M tk m ex c ra rt)"
  unfolding after_failure_def
  by (auto intro!: stays_pbind stays_event stays_cool_down stays_conclude split: prod.split option.split)

lemma stays_attempt_route:
  assumes "quiet E" "e_lib E = L"
  shows "stays R (attempt_route E M tk ms ts m ex prev)"
proof -
  have "stays R (failed_route E M tk m ex e)" for e
    unfolding failed_route_def using assms by (auto simp: stays_after_failure split: exn.split)
  moreover have "stays R (answered_route E tk m prev r)" for r
    unfolding answered_route_def using assms
    by (auto intro!: stays_pbind stays_clock stays_commit stays_conclude intro: Observe)
  ultimately show ?thesis
    unfolding attempt_route_def Let_def using assms
    by (intro stays_pbind stays_fresh stays_attempt stays_event stays_transact stays_run_gateway set_route_steps)
qed

lemma stays_infer_loop:
  assumes "quiet E" "e_lib E = L"
  shows "stays R (infer_loop n E M tk pd ms caps ts need ex prev)"
proof (induction n arbitrary: ex prev)
  case (Suc n)
  show ?case
    by (auto intro!: stays_pbind stays_survey R_tick stays_event stays_conclude stays_clock stays_transact
          stays_attempt_route Suc reserve_steps assms split: prod.split list.split option.split sum.split)
qed simp

lemma stays_continuity: "quiet E \<Longrightarrow> e_lib E = L \<Longrightarrow> stays R (continuity_infer n E M tk pd ms caps ts ctx)"
  unfolding continuity_infer_def
  by (auto intro!: stays_pbind stays_conclude stays_infer_loop split: option.split)

end

section \<open>Whose response it is\<close>

lemma survey_models_usable:
  "set (sv_usable s) \<subseteq> A \<Longrightarrow> set ms \<subseteq> A \<Longrightarrow> gives (\<lambda>s'. set (sv_usable s') \<subseteq> A) (survey_models E M now ex ms s)"
proof (induction ms arbitrary: s)
  case (Cons m ms)
  show ?case
    unfolding survey_models.simps
  proof (rule gives_pbind)
    fix v
    have "set (sv_usable (note_verdict m v s)) \<subseteq> A"
      using Cons.prems by (auto simp: note_verdict_def split: verdict.split)
    with Cons show "gives (\<lambda>s'. set (sv_usable s') \<subseteq> A) (survey_models E M now ex ms (note_verdict m v s))" by simp
  qed
qed (simp add: gives_ret)

text \<open>The models a continuation may use at all.\<close>

definition admitted :: "pylib \<Rightarrow> continuity_manager \<Rightarrow> privacy_decision \<Rightarrow> string fset \<Rightarrow> nat option \<Rightarrow> model_ref set" where
  "admitted L M pd caps need =
     {m \<in> set (registry_candidates (cm_registry M)). \<exists>F. denial L F (cm_registry M) pd caps (cm_policy M) need m = Inr None}"

lemma survey_now_admitted:
  "gives (\<lambda>(now, s). set (sv_usable s) \<subseteq> admitted (e_lib E) M pd caps need) (survey_now E M pd caps need ex)"
  unfolding survey_now_def
proof (rule gives_pbind)
  fix now
  have q: "gives (\<lambda>r. set (fst r) \<subseteq> admitted (e_lib E) M pd caps need)
      (query E (admitted_now E M pd caps need))"
    by (rule gives_query) (auto simp: admitted_now_def admitted_def continuity_candidates_Inr(1))
  show "gives (\<lambda>(now, s). set (sv_usable s) \<subseteq> admitted (e_lib E) M pd caps need)
     (pbind (query E (admitted_now E M pd caps need)) (\<lambda>(ms, denied).
     pbind (survey_models E M now ex ms \<lparr>sv_usable = [], sv_denied = denied, sv_dates = [], sv_cooldowns = []\<rparr>) (\<lambda>s.
       ret (now, s))))"
  proof (rule gives_bind [OF q], goal_cases)
    case r: (1 r)
    have "gives (\<lambda>s. set (sv_usable s) \<subseteq> admitted (e_lib E) M pd caps need)
        (survey_models E M now ex (fst r) \<lparr>sv_usable = [], sv_denied = snd r, sv_dates = [], sv_cooldowns = []\<rparr>)"
      using r by (intro survey_models_usable) auto
    then have "gives (\<lambda>(now, s). set (sv_usable s) \<subseteq> admitted (e_lib E) M pd caps need)
       (pbind (survey_models E M now ex (fst r) \<lparr>sv_usable = [], sv_denied = snd r, sv_dates = [], sv_cooldowns = []\<rparr>) (\<lambda>s.
         ret (now, s)))"
      by (rule gives_bind) (simp add: gives_ret)
    then show ?case
      by (cases r) simp
  qed
qed

text \<open>Router and gateway share one registry, as the application builds them.\<close>

definition one_registry :: "continuity_manager \<Rightarrow> bool" where
  "one_registry M \<longleftrightarrow> registry_ok (cm_registry M) \<and> (\<forall>n. gw_registry (cm_gateway M n) = cm_registry M)"

lemma run_gateway_response:
  assumes "one_registry M" "m \<in> set (registry_candidates (cm_registry M))"
  shows "gives (\<lambda>r. ir_model r = m \<and> ir_cost r \<in> {None, Some 0}) (run_gateway E M (route_for M tk m rid) ms ts tk)"
  unfolding gives_def
proof (intro allI impI)
  fix w :: world and r w'
  let ?d = "route_for M tk m rid" and ?G = "cm_gateway M (w_tick w)"
  assume "run_gateway E M ?d ms ts tk w = (Inr r, w')"
  then obtain rq where "infer_once (e_lib E) (w_files (tick E w)) ?G ?d rq = Inr r"
    by (auto simp: run_gateway_def Let_def rbind_eq_Inr)
  then have "infer_from (e_lib E) (w_files (tick E w)) ?G ?d rq 0 None [model_id m] = Inr r"
    by (auto simp: infer_once_def gateway_infer_def route_for_def split: if_splits)
  from infer_from_Inr [OF this] obtain m' r0 where "get_model (gw_registry ?G) (model_id m) = Inr m'"
      "checked_response 0 m' r0 = Inr r"
    by auto
  moreover have "get_model (gw_registry ?G) (model_id m) = Inr m"
    using assms registry_ok_get by (simp add: one_registry_def)
  ultimately show "ir_model r = m \<and> ir_cost r \<in> {None, Some 0}" by (auto dest: checked_response_Inr)
qed

definition gated :: "pylib \<Rightarrow> continuity_manager \<Rightarrow> privacy_decision \<Rightarrow> string fset \<Rightarrow> nat option \<Rightarrow> continuity_outcome \<Rightarrow> bool" where
  "gated L M pd caps need out \<longleftrightarrow>
     (co_disposition out = ContinueNow \<longleftrightarrow> co_response out \<noteq> None)
     \<and> (\<forall>r. co_response out = Some r \<longrightarrow> ir_model r \<in> admitted L M pd caps need \<and> ir_cost r \<in> {None, Some 0})"

lemma conclude_gives: "gives (\<lambda>o'. co_disposition o' = d \<and> co_response o' = resp) (conclude E tk d reason resp ra)"
  unfolding conclude_def by (intro giving) simp

lemma conclude_gated:
  "d \<noteq> ContinueNow \<Longrightarrow> gives (gated L M pd caps need) (conclude E tk d reason None ra)"
  unfolding conclude_def by (intro giving) (simp add: gated_def)

lemma after_failure_gated:
  "gives (\<lambda>r. \<forall>out. r = Inl out \<longrightarrow> gated L M pd caps need out) (after_failure E M tk m ex c ra rt)"
proof -
  obtain reason st again where c: "classify_error c = (reason, st, again)" by (cases "classify_error c")
  have stop: "gives (\<lambda>r. \<forall>out. r = Inl out \<longrightarrow> gated L M pd caps need out)
      (pbind (conclude E tk Terminal rs None None) (\<lambda>o'. ret (Inl o')))" for rs
    by (rule gives_bind [OF conclude_gated]) (auto intro: giving)
  show ?thesis
    unfolding after_failure_def c prod.case
    by (rule gives_pbind) (auto intro: giving stop split: option.split)
qed

lemma attempt_route_gated:
  assumes "one_registry M" "m \<in> admitted L M pd caps need"
  shows "gives (\<lambda>r. \<forall>out. r = Inl out \<longrightarrow> gated L M pd caps need out) (attempt_route E M tk ms ts m ex prev)"
  unfolding attempt_route_def Let_def
proof (intro gives_pbind gives_fresh, rule gives_attempt)
  fix rid
  show "gives (\<lambda>r. ir_model r = m \<and> ir_cost r \<in> {None, Some 0}) (run_gateway E M (route_for M tk m rid) ms ts tk)"
    using assms by (intro run_gateway_response) (auto simp: admitted_def)
next
  fix e
  show "gives (\<lambda>r. \<forall>out. r = Inl out \<longrightarrow> gated L M pd caps need out) (failed_route E M tk m ex e)"
    unfolding failed_route_def by (auto intro: giving after_failure_gated split: exn.split)
next
  fix r :: inference_response
  assume r: "ir_model r = m \<and> ir_cost r \<in> {None, Some 0}"
  show "gives (\<lambda>r. \<forall>out. r = Inl out \<longrightarrow> gated L M pd caps need out) (answered_route E tk m prev r)"
    unfolding answered_route_def
    by (rule gives_pbind, rule gives_pbind, rule gives_bind [OF conclude_gives]) (use r assms(2) in \<open>auto intro!: giving simp: gated_def\<close>)
qed

lemma infer_loop_gated:
  "one_registry M \<Longrightarrow> gives (\<lambda>r. \<forall>out. r = Some out \<longrightarrow> gated (e_lib E) M pd caps need out)
     (infer_loop n E M tk pd ms caps ts need ex prev)"
proof (induction n arbitrary: ex prev)
  case (Suc n)
  let ?P = "\<lambda>r. \<forall>out. r = Some out \<longrightarrow> gated (e_lib E) M pd caps need out"
  have stop: "gives ?P (pbind (conclude E tk d reason None ra) (\<lambda>o'. ret (Some o')))" if "d \<noteq> ContinueNow" for d reason ra
    by (rule gives_bind [OF conclude_gated [OF that]]) (auto intro: giving)
  show ?case
    unfolding infer_loop.simps
  proof (rule gives_bind [OF survey_now_admitted], clarify, rule gives_pbind)
    fix now s
    assume u: "set (sv_usable s) \<subseteq> admitted (e_lib E) M pd caps need"
    show "gives ?P
       (case sv_usable s of
         [] \<Rightarrow>
           pbind (if sv_dates s = [] then conclude E tk Terminal ''no_eligible_route'' None None
                  else conclude E tk RetryLater (wait_reason (sv_cooldowns s)) None
                         (Some (max (now + base_backoff_s (cm_policy M)) (earliest (sv_dates s))))) (\<lambda>o'. ret (Some o'))
       | m # _ \<Rightarrow>
           pbind (clock E) (\<lambda>start.
           pbind (transact E (\<lambda>x F db. reserve (cm_policy M) start x (task_id tk) db)) (\<lambda>full.
             case full of
               Some t \<Rightarrow> pbind (conclude E tk RetryLater ''route_attempt_budget'' None (Some t)) (\<lambda>o'. ret (Some o'))
             | None \<Rightarrow>
                 pbind (attempt_route E M tk ms ts m ex prev) (\<lambda>next.
                   case next of
                     Inl o' \<Rightarrow> ret (Some o')
                   | Inr excluded' \<Rightarrow> infer_loop n E M tk pd ms caps ts need excluded' (Some (model_id m))))))"
    proof (cases "sv_usable s")
      case Nil
      then show ?thesis using stop by auto
    next
      case (Cons m rest)
      with u have "m \<in> admitted (e_lib E) M pd caps need" by simp
      note at = attempt_route_gated [OF Suc.prems this]
      have "gives ?P (case full of
               Some t \<Rightarrow> pbind (conclude E tk RetryLater ''route_attempt_budget'' None (Some t)) (\<lambda>o'. ret (Some o'))
             | None \<Rightarrow>
                 pbind (attempt_route E M tk ms ts m ex prev) (\<lambda>next.
                   case next of
                     Inl o' \<Rightarrow> ret (Some o')
                   | Inr excluded' \<Rightarrow> infer_loop n E M tk pd ms caps ts need excluded' (Some (model_id m))))" for full
      proof (cases full)
        case None
        show ?thesis unfolding None option.case
          by (rule gives_bind [OF at]) (auto intro: giving Suc split: sum.split)
      qed (simp add: stop)
      with Cons show ?thesis by (auto intro: gives_pbind)
    qed
  qed
qed (simp add: gives_ret)

text \<open>
  C9 (continuity stays within the rules). However many routes a continuation tries and whatever fails
  meanwhile, the response it continues with comes from a registered model that the privacy decision,
  the user's policy and the zero-cost rule admit, and cost nothing; without such a response it does
  not continue.
\<close>

theorem continuity_response_admitted:
  assumes "one_registry M" "infer_loop n E M tk pd ms caps ts need [] None w = (Inr (Some out), w')"
  shows "case co_response out of
      None \<Rightarrow> co_disposition out \<noteq> ContinueNow
    | Some r \<Rightarrow> co_disposition out = ContinueNow \<and> ir_cost r \<in> {None, Some 0}
        \<and> ir_model r \<in> set (registry_candidates (cm_registry M))
        \<and> model_allowed pd \<and> (cloud_allowed pd \<or> is_local (ir_model r)) \<and> classification pd |\<in>| privacy_eligibility (ir_model r)
        \<and> \<not> policy_refuses (cm_policy M) (ir_model r) \<and> \<not> cost_refuses (ir_model r)"
proof -
  have "gated (e_lib E) M pd caps need out"
    using givesD [OF infer_loop_gated [OF assms(1)] assms(2)] by blast
  then show ?thesis
    by (auto simp: gated_def admitted_def split: option.split dest: denial_None)
qed

section \<open>The loop ends\<close>

text \<open>
  While the clock stays within one window and nobody else touches the window of the task, every
  round takes one attempt out of the budget: what is left of the current window, and a whole window
  more when the recorded one is older than the run.
\<close>

definition steady :: "environment \<Rightarrow> continuity_policy \<Rightarrow> string \<Rightarrow> bool" where
  "steady E p tid \<longleftrightarrow>
     (\<forall>n db. t_get (task_continuity (e_other E n db)) tid = t_get (task_continuity db) tid)
     \<and> (\<forall>m n. e_clock E m < e_clock E n + window_s p)"

definition same_window :: "string \<Rightarrow> world \<Rightarrow> world \<Rightarrow> bool" where
  "same_window tid w w' \<longleftrightarrow> t_get (task_continuity (w_db w')) tid = t_get (task_continuity (w_db w)) tid"

interpretation window: world_relation "same_window tid"
  by unfold_locales (auto simp: same_window_def)

definition attempts_left :: "environment \<Rightarrow> continuity_policy \<Rightarrow> string \<Rightarrow> db \<Rightarrow> nat" where
  "attempts_left E p tid db =
     (case t_get (task_continuity db) tid of
        None \<Rightarrow> max_route_attempts p
      | Some r \<Rightarrow> (if c_window_start r \<in> range (e_clock E) then 0 else max_route_attempts p)
                  + (max_route_attempts p - c_attempts r))"

lemma transact_window:
  assumes "steady E p tid"
    and "\<And>x F db a db'. f x F db = Inr (a, db') \<Longrightarrow> t_get (task_continuity db') tid = t_get (task_continuity db) tid"
  shows "stays (same_window tid) (transact E f)"
  using assms by (auto simp: stays_def same_window_def transact_def tick_def steady_def Let_def split: sum.splits)

lemma commit_window:
  assumes "steady E p tid" "\<And>x F db db'. f x F db = Inr db' \<Longrightarrow> task_continuity db' = task_continuity db"
  shows "stays (same_window tid) (commit E f)"
  unfolding commit_def using assms by (intro transact_window) (auto simp: rbind_eq_Inr)

lemma query_window: "steady E p tid \<Longrightarrow> stays (same_window tid) (query E f)"
  unfolding query_def by (intro transact_window) (auto simp: rbind_eq_Inr)

lemma event_window: "steady E p tid \<Longrightarrow> stays (same_window tid) (event E tk name md)"
  unfolding event_def
  by (rule commit_window) (auto simp: continuity_event_def rbind_eq_Inr add_event_Inr)

lemma survey_now_window: "steady E p tid \<Longrightarrow> stays (same_window tid) (survey_now E M pd caps need ex)"
  by (rule window.stays_survey) (simp add: same_window_def tick_def steady_def)

lemma run_gateway_window: "steady E p tid \<Longrightarrow> stays (same_window tid) (run_gateway E M d ms ts tk)"
  by (auto simp: stays_def run_gateway_def Let_def same_window_def tick_def steady_def)

lemma cool_down_window: "steady E p tid \<Longrightarrow> stays (same_window tid) (cool_down E M tk m st reason ra rt)"
  unfolding cool_down_def Let_def clock_def
  by (intro window.stays_pbind query_window commit_window) (auto simp: observe_def rbind_eq_Inr Let_def)

definition goes_on :: "continuity_outcome + (string \<times> string) list \<Rightarrow> bool" where
  "goes_on r = (case r of Inl _ \<Rightarrow> False | Inr _ \<Rightarrow> True)"

lemma ends: "moves R goes_on (pbind m (\<lambda>o'. ret (Inl o')))"
  by (intro moves_never giving) (simp add: goes_on_def)

lemma after_failure_window:
  "steady E p tid \<Longrightarrow> moves (same_window tid) goes_on (after_failure E M tk m ex c ra rt)"
proof -
  assume s: "steady E p tid"
  obtain reason st again where c: "classify_error c = (reason, st, again)" by (cases "classify_error c")
  have again: "moves (same_window tid) goes_on (pbind (cool_down E M tk m st' why ra rt) (\<lambda>_. ret (Inr ex)))" for st' why
    by (intro window.moves_stays window.stays_pbind cool_down_window [OF s] window.stays_ret)
  have other: "moves (same_window tid) goes_on (ret (Inr ex'))" for ex'
    by (intro window.moves_stays window.stays_ret)
  show ?thesis
    unfolding after_failure_def c prod.case
    by (rule window.moves_pbind [OF event_window [OF s]]) (simp add: again other ends split: option.split)
qed

lemma attempt_route_window:
  "steady E p tid \<Longrightarrow> moves (same_window tid) goes_on (attempt_route E M tk ms ts m ex prev)"
proof -
  assume s: "steady E p tid"
  have sr: "stays (same_window tid) (transact E (\<lambda>x F db. set_route x d db))" for d
    by (rule transact_window [OF s]) (auto simp: set_route_def Let_def rbind_eq_Inr add_event_Inr of_opt_eq_Inr)
  have ob: "stays (same_window tid) (commit E (\<lambda>x F db. observe now x b st cd reason t db))" for now b st cd reason t
    by (rule commit_window [OF s]) (auto simp: observe_def rbind_eq_Inr Let_def)
  have fail: "moves (same_window tid) goes_on (failed_route E M tk m ex e)" for e
    unfolding failed_route_def by (auto intro: after_failure_window [OF s] window.moves_stays split: exn.split)
  have clk: "stays (same_window tid) (clock E)" unfolding clock_def by (rule query_window [OF s])
  have answer: "moves (same_window tid) goes_on (answered_route E tk m prev r)" for r
    unfolding answered_route_def
    by (rule window.moves_pbind [OF clk], rule window.moves_pbind [OF ob], rule ends)
  show ?thesis
    unfolding attempt_route_def Let_def
    by (rule window.moves_pbind [OF event_window [OF s]], rule moves_fresh, rule window.moves_pbind [OF sr],
        rule window.moves_attempt [OF run_gateway_window [OF s] fail answer])
qed

lemma reserve_uses:
  assumes "reserve p now x tid db = Inr (None, db')" "now \<in> range (e_clock E)" "steady E p tid" "1 \<le> max_route_attempts p"
  shows "attempts_left E p tid db' < attempts_left E p tid db"
proof -
  obtain n where n: "now = e_clock E n" using assms(2) by auto
  have fresh: "\<not> s + window_s p \<le> now" if "s \<in> range (e_clock E)" for s
    using that assms(3) unfolding n steady_def by (auto simp: not_le)
  show ?thesis
  proof (cases "t_get (task_continuity db) tid")
    case (Some r)
    from reserve_granted [OF assms(1) Some] obtain r' where r': "t_get (task_continuity db') tid = Some r'"
      "if c_window_start r + window_s p \<le> now then c_window_start r' = now \<and> c_attempts r' = 1
       else c_window_start r' = c_window_start r \<and> c_attempts r < max_route_attempts p \<and> c_attempts r' = Suc (c_attempts r)"
      by blast
    show ?thesis
    proof (cases "c_window_start r + window_s p \<le> now")
      case True
      with fresh have "c_window_start r \<notin> range (e_clock E)" by blast
      then show ?thesis using r' True Some assms(2,4) by (simp add: attempts_left_def)
    next
      case False
      with r' Some show ?thesis by (auto simp: attempts_left_def)
    qed
  next
    case None
    with assms(1) fresh [OF assms(2)] obtain r' where "t_get (task_continuity db') tid = Some r'" "c_window_start r' = now"
        "c_attempts r' = 1" "0 < max_route_attempts p"
      by (auto simp: reserve_def rbind_eq_Inr of_opt_eq_Inr ensure_window_get new_window_def t_get_upd split: if_splits)
    with None assms(2) show ?thesis by (simp add: attempts_left_def)
  qed
qed


lemma attempts_left_same: "same_window tid w w' \<Longrightarrow> attempts_left E p tid (w_db w') = attempts_left E p tid (w_db w)"
  by (simp add: same_window_def attempts_left_def)

lemma now_of [simp]: "tx_now (tx_at E w) = e_clock E (w_tick w)"
  by (simp add: tx_at_def)

lemma clock_gives: "clock E w = (Inr t, w') \<Longrightarrow> t \<in> range (e_clock E)"
  by (auto simp: clock_def query_def transact_def Let_def rbind_eq_Inr tick_def split: sum.splits)

lemma reserve_step:
  assumes "transact E (\<lambda>x F db. reserve p start x tid db) w = (Inr None, w')" "start \<in> range (e_clock E)"
    and s: "steady E p tid" and p: "1 \<le> max_route_attempts p"
  shows "attempts_left E p tid (w_db w') < attempts_left E p tid (w_db w)"
proof -
  let ?db = "e_other E (w_tick w) (w_db w)"
  from assms(1) obtain x where "reserve p start x tid ?db = Inr (None, w_db w')"
    by (auto simp: transact_def Let_def tick_def split: sum.splits)
  from reserve_uses [OF this assms(2) s p] s show ?thesis by (simp add: attempts_left_def steady_def)
qed

lemma infer_loop_ends:
  assumes s: "steady E (cm_policy M) (task_id tk)" and p: "1 \<le> max_route_attempts (cm_policy M)"
  shows "attempts_left E (cm_policy M) (task_id tk) (w_db w) < n
    \<Longrightarrow> infer_loop n E M tk pd ms caps ts need ex prev w \<noteq> (Inr None, w')"
proof (induction n arbitrary: ex prev w)
  case (Suc n)
  let ?left = "\<lambda>w. attempts_left E (cm_policy M) (task_id tk) (w_db w)"
  note same = attempts_left_same [OF window.stays_run]
  show ?case
  proof
    assume "infer_loop (Suc n) E M tk pd ms caps ts need ex prev w = (Inr None, w')"
    then obtain now sv w1 w2 where 1: "survey_now E M pd caps need ex w = (Inr (now, sv), w1)"
        "event E tk ''candidates'' (candidates_event sv) w1 = (Inr (), w2)"
      and rest: "(case sv_usable sv of
         [] \<Rightarrow>
           pbind (if sv_dates sv = [] then conclude E tk Terminal ''no_eligible_route'' None None
                  else conclude E tk RetryLater (wait_reason (sv_cooldowns sv)) None
                         (Some (max (now + base_backoff_s (cm_policy M)) (earliest (sv_dates sv))))) (\<lambda>o'. ret (Some o'))
       | m # _ \<Rightarrow>
           pbind (clock E) (\<lambda>start.
           pbind (transact E (\<lambda>x F db. reserve (cm_policy M) start x (task_id tk) db)) (\<lambda>full.
             case full of
               Some t \<Rightarrow> pbind (conclude E tk RetryLater ''route_attempt_budget'' None (Some t)) (\<lambda>o'. ret (Some o'))
             | None \<Rightarrow>
                 pbind (attempt_route E M tk ms ts m ex prev) (\<lambda>next.
                   case next of
                     Inl o' \<Rightarrow> ret (Some o')
                   | Inr ex' \<Rightarrow> infer_loop n E M tk pd ms caps ts need ex' (Some (model_id m)))))) w2 = (Inr None, w')"
      by (auto elim!: pbindE)
    have never: False if "pbind q (\<lambda>o'. ret (Some o')) w2 = (Inr None, w')" for q :: "continuity_outcome prog" and w2
      using that by (auto elim!: pbindE simp: ret_def)
    from rest never obtain m l where "sv_usable sv = m # l" by (cases "sv_usable sv") auto
    with rest obtain start w3 full w4 where 2: "clock E w2 = (Inr start, w3)"
        "transact E (\<lambda>x F db. reserve (cm_policy M) start x (task_id tk) db) w3 = (Inr full, w4)"
      and rest: "(case full of
               Some t \<Rightarrow> pbind (conclude E tk RetryLater ''route_attempt_budget'' None (Some t)) (\<lambda>o'. ret (Some o'))
             | None \<Rightarrow>
                 pbind (attempt_route E M tk ms ts m ex prev) (\<lambda>next.
                   case next of
                     Inl o' \<Rightarrow> ret (Some o')
                   | Inr ex' \<Rightarrow> infer_loop n E M tk pd ms caps ts need ex' (Some (model_id m)))) w4 = (Inr None, w')"
      by (auto elim!: pbindE)
    from rest never have "full = None" by (cases full) auto
    with rest obtain step w5 where 3: "attempt_route E M tk ms ts m ex prev w4 = (Inr step, w5)"
      and rest: "(case step of Inl o' \<Rightarrow> ret (Some o')
                   | Inr ex' \<Rightarrow> infer_loop n E M tk pd ms caps ts need ex' (Some (model_id m))) w5 = (Inr None, w')"
      by (auto elim!: pbindE)
    from rest obtain ex' where ex': "step = Inr ex'" "infer_loop n E M tk pd ms caps ts need ex' (Some (model_id m)) w5 = (Inr None, w')"
      by (cases step) (auto simp: ret_def)
    have "?left w5 = ?left w4"
      using movesD [OF attempt_route_window [OF s] 3] ex'(1) by (intro attempts_left_same) (simp add: goes_on_def)
    also have "\<dots> < ?left w3"
      using reserve_step [OF _ clock_gives [OF 2(1)] s p] 2(2) \<open>full = None\<close> by blast
    also have "\<dots> = ?left w2" using same [OF query_window [OF s]] 2(1) unfolding clock_def by blast
    also have "\<dots> = ?left w1" using same [OF event_window [OF s] 1(2)] .
    also have "\<dots> = ?left w" using same [OF survey_now_window [OF s] 1(1)] .
    finally show False using Suc.IH [of w5] Suc.prems ex'(2) by force
  qed
qed simp

text \<open>
  C10 (a continuation ends). Within one window of the clock, and with nobody else counting attempts for
  the task, a continuation returns or raises after at most twice the attempts the policy allows: each
  round takes one out of the recorded window or out of the new one, and an exhausted window ends it.
\<close>

theorem continuity_ends:
  assumes "steady E (cm_policy M) (task_id tk)" "1 \<le> max_route_attempts (cm_policy M)"
    and "2 * max_route_attempts (cm_policy M) < fuel"
  shows "fst (continuity_infer fuel E M tk pd ms caps ts context w) \<noteq> Inr None"
proof -
  have "attempts_left E (cm_policy M) (task_id tk) db < fuel" for db
    using assms(3) by (auto simp: attempts_left_def split: option.split)
  from infer_loop_ends [OF assms(1,2) this]
  have "fst (infer_loop fuel E M tk pd ms cs ts' need ex prev w) \<noteq> Inr None" for cs ts' need ex prev
    by (metis prod.collapse)
  moreover have "fst (pbind q (\<lambda>o'. ret (Some o')) w) \<noteq> Inr None" for q :: "continuity_outcome prog"
    by (auto simp: pbind_def ret_def split: prod.split sum.split)
  ultimately show ?thesis by (simp add: continuity_infer_def split: option.split)
qed

section \<open>A route that answers\<close>

text \<open>
  The ledger holds the task, whoever acts holds its lease if it is queued, and \<open>K\<close> is the state of
  its window; the others leave all three alone.
\<close>

definition task_at :: "environment \<Rightarrow> string \<Rightarrow> (continuity_row option \<Rightarrow> bool) \<Rightarrow> world \<Rightarrow> bool" where
  "task_at E tid K w \<longleftrightarrow> (\<exists>tk. task_of (w_db w) tid = Some tk \<and> task_id tk = tid)
     \<and> (\<forall>v b. is_ok (assert_lease (tx_at E v) (w_db w) tid b None))
     \<and> K (t_get (task_continuity (w_db w)) tid)"

definition undisturbed :: "environment \<Rightarrow> string \<Rightarrow> bool" where
  "undisturbed E tid \<longleftrightarrow> (\<forall>n db. t_get (tasks (e_other E n db)) tid = t_get (tasks db) tid
     \<and> t_get (task_queue (e_other E n db)) tid = t_get (task_queue db) tid
     \<and> t_get (task_continuity (e_other E n db)) tid = t_get (task_continuity db) tid)"

definition attempt_free :: "continuity_policy \<Rightarrow> continuity_row option \<Rightarrow> bool" where
  "attempt_free p row = (case row of None \<Rightarrow> 0 < max_route_attempts p | Some r \<Rightarrow> c_attempts r < max_route_attempts p)"

lemma assert_lease_row_cong:
  "t_get (task_queue db') tid = t_get (task_queue db) tid \<Longrightarrow> assert_lease x db' tid b g = assert_lease x db tid b g"
  by (simp add: assert_lease_def)

lemma task_at_tick: "undisturbed E tid \<Longrightarrow> task_at E tid K w \<Longrightarrow> task_at E tid K (tick E w)"
  by (auto simp: task_at_def task_of_def undisturbed_def tick_def cong: assert_lease_row_cong)

lemma task_at_cong:
  assumes "\<And>tk. task_of (w_db w) tid = Some tk \<Longrightarrow> task_id tk = tid \<Longrightarrow> \<exists>tk'. task_of db' tid = Some tk' \<and> task_id tk' = tid"
      "task_queue db' = task_queue (w_db w)" "K' (t_get (task_continuity db') tid)"
    and "task_at E tid K w"
  shows "task_at E tid K' (w\<lparr>w_db := db'\<rparr>)"
  using assms by (auto simp: task_at_def cong: assert_lease_row_cong)

lemma task_atD:
  assumes "task_at E tid K w"
  obtains r where "assert_lease (tx_at E v) (w_db w) tid b None = Inr r"
  using assms by (auto simp: task_at_def is_ok_iff)


lemma task_transact:
  assumes "undisturbed E tid"
    and "\<And>w. task_at E tid K w \<Longrightarrow> \<exists>a db'. f (tx_at E w) (w_files w) (w_db w) = Inr (a, db') \<and> P a \<and> task_at E tid K' (w\<lparr>w_db := db'\<rparr>)"
  shows "arrives (task_at E tid K) P (task_at E tid K') (transact E f)"
  using assms by (intro arrives_transact [where K = "task_at E tid K"] task_at_tick)

lemma task_commit:
  assumes "undisturbed E tid"
    and "\<And>w. task_at E tid K w \<Longrightarrow> \<exists>db'. f (tx_at E w) (w_files w) (w_db w) = Inr db' \<and> task_at E tid K' (w\<lparr>w_db := db'\<rparr>)"
  shows "arrives (task_at E tid K) (\<lambda>_. True) (task_at E tid K') (commit E f)"
  using assms by (intro arrives_commit [where K = "task_at E tid K"] task_at_tick)

lemma clock_arrives: "undisturbed E tid \<Longrightarrow> arrives (task_at E tid K) (\<lambda>_. True) (task_at E tid K) (clock E)"
  unfolding clock_def query_def by (rule task_transact) auto

lemma task_at_stored: "task_at E tid K w \<Longrightarrow> t_get (tasks (w_db w)) tid \<noteq> None"
  by (auto simp: task_at_def task_of_def)

lemma task_at_keep:
  assumes "task_at E tid K w" "tasks db' = tasks (w_db w)" "task_queue db' = task_queue (w_db w)"
    "K' (t_get (task_continuity db') tid)"
  shows "task_at E tid K' (w\<lparr>w_db := db'\<rparr>)"
  using assms by (intro task_at_cong [where K = K]) (auto simp: task_of_def)

lemma event_arrives:
  assumes "undisturbed E (task_id tk)"
  shows "arrives (task_at E (task_id tk) K) (\<lambda>_. True) (task_at E (task_id tk) K) (event E tk name md)"
  unfolding event_def
proof (rule task_commit [OF assms])
  fix w
  assume w: "task_at E (task_id tk) K w"
  then obtain r where "assert_lease (tx_at E w) (w_db w) (task_id tk) False None = Inr r" by (rule task_atD)
  with w task_at_stored [OF w] show "\<exists>db'. continuity_event (tx_at E w) tk name md (w_db w) = Inr db' \<and> task_at E (task_id tk) K (w\<lparr>w_db := db'\<rparr>)"
    by (auto simp: continuity_event_def rbind_eq_Inr add_event_Inr task_at_def task_of_def cong: assert_lease_row_cong)
qed

lemma observe_arrives:
  assumes "undisturbed E tid"
  shows "arrives (task_at E tid K) (\<lambda>_. True) (task_at E tid K)
     (commit E (\<lambda>x F db. observe seen x b BAvailable None None (Some tid) db))"
proof (rule task_commit [OF assms])
  fix w
  assume w: "task_at E tid K w"
  then obtain r where "assert_lease (tx_at E w) (w_db w) tid False None = Inr r" by (rule task_atD)
  with w show "\<exists>db'. observe seen (tx_at E w) b BAvailable None None (Some tid) (w_db w) = Inr db' \<and> task_at E tid K (w\<lparr>w_db := db'\<rparr>)"
    by (auto simp: observe_def rbind_eq_Inr finite_cooldown_def guard_def reason_or_def BACKEND_REASONS_def intro!: task_at_keep [OF w])
       (simp_all add: task_at_def)
qed

lemma ensure_window_ok:
  "task_at E tid K w \<Longrightarrow> ensure_window now tid (w_db w)
     = Inr ((w_db w)\<lparr>task_continuity := t_ins_ignore tid (new_window now) (task_continuity (w_db w))\<rparr>)"
  using task_at_stored [of E tid K w] by (simp add: ensure_window_def)

lemma conclude_arrives:
  assumes "undisturbed E (task_id tk)"
  shows "arrives (task_at E (task_id tk) K)
     (\<lambda>r. r = \<lparr>co_disposition = d, co_reason = reason, co_response = resp, co_next = ra\<rparr>) (task_at E (task_id tk) (\<lambda>_. True))
     (conclude E tk d reason resp ra)"
proof -
  have "arrives (task_at E (task_id tk) K) (\<lambda>_. True) (task_at E (task_id tk) (\<lambda>_. True))
      (commit E (\<lambda>x F db. outcome now now2 x tk d reason ra db))" for now now2
  proof (rule task_commit [OF assms])
    fix w
    assume w: "task_at E (task_id tk) K w"
    then obtain r where "assert_lease (tx_at E w) (w_db w) (task_id tk) False None = Inr r" by (rule task_atD)
    with task_at_stored [OF w] obtain db' where db': "outcome now now2 (tx_at E w) tk d reason ra (w_db w) = Inr db'"
      by (fastforce simp: outcome_def ensure_window_ok [OF w] Let_def add_event_def)
    with w continuity_frame(4) [OF db'] show "\<exists>db'. outcome now now2 (tx_at E w) tk d reason ra (w_db w) = Inr db'
        \<and> task_at E (task_id tk) (\<lambda>_. True) (w\<lparr>w_db := db'\<rparr>)"
      by (auto intro: task_at_keep)
  qed
  note written = this
  show ?thesis
    unfolding conclude_def
    by (rule arrives_pbind [OF clock_arrives [OF assms]], rule arrives_pbind [OF clock_arrives [OF assms]],
        rule arrives_pbind [OF written]) (simp add: arrives_ret)
qed

lemma reserve_arrives:
  assumes "undisturbed E tid"
  shows "arrives (task_at E tid (attempt_free p)) (\<lambda>r. r = None) (task_at E tid (\<lambda>_. True))
     (transact E (\<lambda>x F db. reserve p start x tid db))"
proof (rule task_transact [OF assms])
  fix w
  assume w: "task_at E tid (attempt_free p) w"
  then obtain r where "assert_lease (tx_at E w) (w_db w) tid True None = Inr r" by (rule task_atD)
  moreover have "attempt_free p (t_get (task_continuity (w_db w)) tid)" using w by (simp add: task_at_def)
  ultimately have "\<exists>db'. reserve p start (tx_at E w) tid (w_db w) = Inr (None, db')"
    by (cases "t_get (task_continuity (w_db w)) tid")
       (auto simp: reserve_def ensure_window_ok [OF w] t_get_ins_ignore attempt_free_def new_window_def)
  then obtain db' where db': "reserve p start (tx_at E w) tid (w_db w) = Inr (None, db')" ..
  with w continuity_frame(3) [OF db'] show "\<exists>a db'. reserve p start (tx_at E w) tid (w_db w) = Inr (a, db') \<and> a = None
      \<and> task_at E tid (\<lambda>_. True) (w\<lparr>w_db := db'\<rparr>)"
    by (auto intro: task_at_keep)
qed

lemma set_route_arrives:
  assumes "undisturbed E tid" "rd_task_id d = tid"
  shows "arrives (task_at E tid K) (\<lambda>_. True) (task_at E tid K) (transact E (\<lambda>x F db. set_route x d db))"
proof (rule task_transact [OF assms(1)])
  fix w
  assume w: "task_at E tid K w"
  then obtain r where r: "assert_lease (tx_at E w) (w_db w) tid True None = Inr r" by (rule task_atD)
  from w obtain tk where tk: "task_of (w_db w) tid = Some tk" "task_id tk = tid" by (auto simp: task_at_def)
  let ?tk = "tk\<lparr>selected_route := Some (route_id d), updated_at := tx_stamp (tx_at E w)\<rparr>"
  have "\<exists>db'. set_route (tx_at E w) d (w_db w) = Inr (?tk, db') \<and> task_of db' tid = Some ?tk
      \<and> task_queue db' = task_queue (w_db w) \<and> task_continuity db' = task_continuity (w_db w)"
    using r tk assms(2) by (auto simp: set_route_def Let_def task_of_def add_event_def put_task_def)
  then obtain db' where db': "set_route (tx_at E w) d (w_db w) = Inr (?tk, db')" "task_of db' tid = Some ?tk"
      "task_queue db' = task_queue (w_db w)" "task_continuity db' = task_continuity (w_db w)" by blast
  have "task_at E tid K (w\<lparr>w_db := db'\<rparr>)"
    by (rule task_at_cong [OF _ db'(3) _ w]) (use w db' tk(2) in \<open>auto simp: task_at_def\<close>)
  with db'(1) show "\<exists>a db'. set_route (tx_at E w) d (w_db w) = Inr (a, db') \<and> True \<and> task_at E tid K (w\<lparr>w_db := db'\<rparr>)"
    by blast
qed

text \<open>The gateway answers the route with \<open>r\<close>, whatever the files and the moment.\<close>

definition route_answers ::
  "environment \<Rightarrow> continuity_manager \<Rightarrow> task \<Rightarrow> message list \<Rightarrow> tool_definition list \<Rightarrow> model_ref \<Rightarrow> inference_response \<Rightarrow> bool" where
  "route_answers E M tk ms ts m r \<longleftrightarrow> (\<forall>rid w. \<exists>w'. run_gateway E M (route_for M tk m rid) ms ts tk w = (Inr r, w'))"

lemma run_gateway_arrives:
  assumes "undisturbed E tid" "route_answers E M tk ms ts m r"
  shows "arrives (task_at E tid K) (\<lambda>a. a = r) (task_at E tid K) (run_gateway E M (route_for M tk m rid) ms ts tk)"
  unfolding arrives_def
proof (intro allI impI)
  fix w
  assume w: "task_at E tid K w"
  from assms(2) obtain w' where "run_gateway E M (route_for M tk m rid) ms ts tk w = (Inr r, w')"
    unfolding route_answers_def by blast
  moreover from this have "w' = tick E w" by (simp add: run_gateway_def Let_def)
  ultimately show "\<exists>a w'. run_gateway E M (route_for M tk m rid) ms ts tk w = (Inr a, w') \<and> a = r \<and> task_at E tid K w'"
    using task_at_tick [OF assms(1) w] by blast
qed

lemma attempt_route_arrives:
  assumes "undisturbed E (task_id tk)" "route_answers E M tk ms ts m r"
  shows "arrives (task_at E (task_id tk) K)
     (\<lambda>a. a = Inl \<lparr>co_disposition = ContinueNow, co_reason = ''inference_succeeded'',
                   co_response = Some (r\<lparr>ir_fallback := prev \<noteq> None\<rparr>), co_next = None\<rparr>)
     (task_at E (task_id tk) (\<lambda>_. True)) (attempt_route E M tk ms ts m ex prev)"
  unfolding attempt_route_def Let_def
proof (intro arrives_pbind [OF event_arrives [OF assms(1)]] arrives_fresh)
  fix rid
  have d: "rd_task_id (route_for M tk m rid) = task_id tk" by (simp add: route_for_def)
  have answer: "arrives (task_at E (task_id tk) K)
     (\<lambda>a. a = Inl \<lparr>co_disposition = ContinueNow, co_reason = ''inference_succeeded'',
                   co_response = Some (r\<lparr>ir_fallback := prev \<noteq> None\<rparr>), co_next = None\<rparr>)
     (task_at E (task_id tk) (\<lambda>_. True)) (answered_route E tk m prev r)"
    unfolding answered_route_def
    by (rule arrives_pbind [OF clock_arrives [OF assms(1)]], rule arrives_pbind [OF observe_arrives [OF assms(1)]],
        rule arrives_pbind [OF conclude_arrives [OF assms(1)]]) (simp add: arrives_ret)
  show "arrives (task_at E (task_id tk) K)
     (\<lambda>a. a = Inl \<lparr>co_disposition = ContinueNow, co_reason = ''inference_succeeded'',
                   co_response = Some (r\<lparr>ir_fallback := prev \<noteq> None\<rparr>), co_next = None\<rparr>)
     (task_at E (task_id tk) (\<lambda>_. True))
     (pbind (transact E (\<lambda>x F db. set_route x (route_for M tk m rid) db)) (\<lambda>_.
      attempt_prog (run_gateway E M (route_for M tk m rid) ms ts tk) (failed_route E M tk m ex) (answered_route E tk m prev)))"
    by (rule arrives_pbind [OF set_route_arrives [OF assms(1) d]],
        rule arrives_attempt [OF run_gateway_arrives [OF assms]]) (simp only: answer)
qed

definition same_task :: "environment \<Rightarrow> string \<Rightarrow> world \<Rightarrow> world \<Rightarrow> bool" where
  "same_task E tid w w' \<longleftrightarrow> (\<forall>K. task_at E tid K w \<longrightarrow> task_at E tid K w')"

interpretation rows: world_relation "same_task E tid"
  by unfold_locales (auto simp: same_task_def)

lemma infer_loop_answers:
  assumes u: "undisturbed E (task_id tk)" and w: "task_at E (task_id tk) (attempt_free (cm_policy M)) w"
    and s: "survey_now E M pd caps need ex w = (Inr (now, s), w1)" "sv_usable s = m # rest"
    and r: "route_answers E M tk ms ts m r"
  shows "\<exists>w'. infer_loop (Suc n) E M tk pd ms caps ts need ex prev w
    = (Inr (Some \<lparr>co_disposition = ContinueNow, co_reason = ''inference_succeeded'',
                   co_response = Some (r\<lparr>ir_fallback := prev \<noteq> None\<rparr>), co_next = None\<rparr>), w')"
proof -
  let ?out = "\<lparr>co_disposition = ContinueNow, co_reason = ''inference_succeeded'',
                   co_response = Some (r\<lparr>ir_fallback := prev \<noteq> None\<rparr>), co_next = None\<rparr>"
  have "same_task E (task_id tk) w w1"
    by (rule rows.stays_run [OF rows.stays_survey s(1)]) (use task_at_tick [OF u] in \<open>auto simp: same_task_def\<close>)
  with w have w1: "task_at E (task_id tk) (attempt_free (cm_policy M)) w1" by (simp add: same_task_def)
  have "arrives (task_at E (task_id tk) (attempt_free (cm_policy M))) (\<lambda>a. a = Some ?out) (task_at E (task_id tk) (\<lambda>_. True))
     (pbind (event E tk ''candidates'' (candidates_event s)) (\<lambda>_.
      pbind (clock E) (\<lambda>start.
      pbind (transact E (\<lambda>x F db. reserve (cm_policy M) start x (task_id tk) db)) (\<lambda>full.
             case full of
               Some t \<Rightarrow> pbind (conclude E tk RetryLater ''route_attempt_budget'' None (Some t)) (\<lambda>o'. ret (Some o'))
             | None \<Rightarrow>
                 pbind (attempt_route E M tk ms ts m ex prev) (\<lambda>next.
                   case next of
                     Inl o' \<Rightarrow> ret (Some o')
                   | Inr excluded' \<Rightarrow> infer_loop n E M tk pd ms caps ts need excluded' (Some (model_id m)))))))"
    by (rule arrives_pbind [OF event_arrives [OF u]], rule arrives_pbind [OF clock_arrives [OF u]],
        rule arrives_pbind [OF reserve_arrives [OF u]], simp only: option.case,
        rule arrives_pbind [OF attempt_route_arrives [OF u r]]) (simp add: arrives_ret)
  from arrivesD [OF this w1] s show ?thesis
    by (auto simp: pbind_Inr [where m = "survey_now E M pd caps need ex", OF s(1)])
qed

text \<open>
  C11 (a route that answers is used). When the survey finds a usable candidate, the window still has an
  attempt, whoever acts holds the task and nobody else touches it, and the gateway answers for the
  candidate, then the continuation returns that answer with \<open>continue_now\<close>, marked as a fallback when
  another route was tried before.
\<close>

theorem continuation_answers:
  assumes "undisturbed E (task_id tk)" "task_at E (task_id tk) (attempt_free (cm_policy M)) w"
    and "survey_now E M pd caps need ex w = (Inr (now, s), w1)" "sv_usable s = m # rest"
    and "route_answers E M tk ms ts m r"
  shows "\<exists>out w'. infer_loop (Suc n) E M tk pd ms caps ts need ex prev w = (Inr (Some out), w')
    \<and> co_disposition out = ContinueNow \<and> co_response out = Some (r\<lparr>ir_fallback := prev \<noteq> None\<rparr>)"
  using infer_loop_answers [OF assms, of n prev] by fastforce

section \<open>Example: the preferred route is known to fail and the other one answers\<close>

definition ex_manager :: continuity_manager where
  "ex_manager = \<lparr>cm_registry = ex_registry, cm_version = ''v'', cm_policy = ex_policy, cm_gateway = (\<lambda>_. ex_gateway True)\<rparr>"

definition ex_observed :: world where
  "ex_observed = ex_world (after_db (observe 0 (ex_tx 0 None) ''cloud'' BAvailable None None None ex_running))"

definition ex_survey :: survey where
  "ex_survey = \<lparr>sv_usable = [ex_model ''a'' False], sv_denied = [(''b'', ''health_unknown'')], sv_dates = [5], sv_cooldowns = []\<rparr>"

definition ex_cloud_answer :: inference_response where
  "ex_cloud_answer = ex_answer\<lparr>ir_model := ex_model ''a'' False\<rparr>"

lemma ex_survey: "fst (survey_now ex_env ex_manager (decision_for True PUBLIC) {|''chat''|} None [] ex_observed) = Inr (0, ex_survey)"
  by code_simp

lemma ex_one_registry: "one_registry ex_manager"
  by (simp add: one_registry_def ex_manager_def ex_gateway_def gateway_of_def ex_registry_def registry_of_ok)

lemma ex_undisturbed: "undisturbed ex_env tid"
  by (simp add: undisturbed_def ex_env_def)

lemma ex_task_at: "task_at ex_env ''a'' (attempt_free (cm_policy ex_manager)) ex_observed"
proof -
  have "holds (task_of (w_db ex_observed) ''a'') (\<lambda>tk. task_id tk = ''a'')"
    "t_get (task_queue (w_db ex_observed)) ''a'' = None" "t_get (task_continuity (w_db ex_observed)) ''a'' = None"
    by code_simp+
  then show ?thesis
    by (auto simp: task_at_def assert_lease_def attempt_free_def ex_manager_def ex_policy_def is_ok_def elim: holdsE)
qed

lemma ex_route_answers: "route_answers ex_env ex_manager (ex_task ''a'') ex_messages [] (ex_model ''a'' False) ex_cloud_answer"
proof -
  have "rbind (make_request (ex_model ''a'' False) ex_messages [] 0 None (Some ''a'') (Some ''trc''))
     (infer_once ex_lib F (ex_gateway True) (route_for ex_manager (ex_task ''a'') (ex_model ''a'' False) rid)) = Inr ex_cloud_answer"
    for F rid
    by code_simp
  then show ?thesis
    by (simp add: route_answers_def run_gateway_def Let_def ex_manager_def ex_task_def ex_env_def route_for_def)
qed

lemma ex_infers: "\<exists>w'. infer_loop (Suc 0) ex_env ex_manager (ex_task ''a'') (decision_for True PUBLIC) ex_messages {|''chat''|} [] None [] None ex_observed
    = (Inr (Some \<lparr>co_disposition = ContinueNow, co_reason = ''inference_succeeded'',
                   co_response = Some ex_cloud_answer, co_next = None\<rparr>), w')"
proof -
  obtain w1 where "survey_now ex_env ex_manager (decision_for True PUBLIC) {|''chat''|} None [] ex_observed = (Inr (0, ex_survey), w1)"
    using ex_survey by (metis prod.collapse)
  from infer_loop_answers [OF ex_undisturbed _ this _ ex_route_answers, of _ 0 None] ex_task_at show ?thesis
    by (simp add: ex_survey_def ex_task_def ex_cloud_answer_def ex_answer_def)
qed

theorem continuity_response_admitted_witness:
  "ir_model ex_cloud_answer \<in> set (registry_candidates ex_registry) \<and> \<not> cost_refuses (ir_model ex_cloud_answer)"
proof -
  obtain w' where "infer_loop (Suc 0) ex_env ex_manager (ex_task ''a'') (decision_for True PUBLIC) ex_messages {|''chat''|} [] None [] None ex_observed
    = (Inr (Some \<lparr>co_disposition = ContinueNow, co_reason = ''inference_succeeded'',
                   co_response = Some ex_cloud_answer, co_next = None\<rparr>), w')"
    using ex_infers by blast
  from continuity_response_admitted [OF ex_one_registry this] show ?thesis by (simp add: ex_manager_def)
qed

theorem continuity_ends_witness:
  "fst (continuity_infer 9 ex_env ex_manager (ex_task ''a'') (decision_for True PUBLIC) ex_messages {|''chat''|} [] PNone ex_observed)
   \<noteq> Inr None"
  by (rule continuity_ends) (simp_all add: steady_def ex_env_def ex_manager_def ex_policy_def)

theorem continuation_answers_witness:
  "\<exists>out w'. infer_loop (Suc 0) ex_env ex_manager (ex_task ''a'') (decision_for True PUBLIC) ex_messages {|''chat''|} [] None [] None ex_observed
    = (Inr (Some out), w') \<and> co_disposition out = ContinueNow \<and> co_response out = Some ex_cloud_answer"
proof -
  obtain w1 where "survey_now ex_env ex_manager (decision_for True PUBLIC) {|''chat''|} None [] ex_observed = (Inr (0, ex_survey), w1)"
    using ex_survey by (metis prod.collapse)
  from continuation_answers [OF ex_undisturbed _ this _ ex_route_answers, of _ 0 None] ex_task_at show ?thesis
    by (simp add: ex_survey_def ex_task_def ex_cloud_answer_def ex_answer_def)
qed

end
