(* ===== verification/Qualification_Model.thy ===== *)
theory Qualification_Model imports Tool_Schema Recovery Text_Patterns begin

text \<open>
  dante/contracts/qualification.py: what a node is, which runtime and model it is qualified for, the
  evidence of one run, and the two comparisons that decide whether old evidence still counts: the
  identity data without the observations that may change, and the facts that are still unknown.
  Times are seconds; their ISO text in a dump is a parameter.
\<close>

section \<open>Constrained values\<close>

definition label_char :: "char \<Rightarrow> bool" where
  "label_char c = (is_ascii_alnum c \<or> c \<in> set '' ._()+-'')"

definition valid_label :: "string \<Rightarrow> bool" where
  "valid_label s = (s \<noteq> [] \<and> length s \<le> 160 \<and> is_ascii_alnum (hd s) \<and> list_all label_char (tl s))"

definition valid_sha256 :: "string \<Rightarrow> bool" where
  "valid_sha256 s = (length s = 64 \<and> list_all hex_char s)"

definition opt_ok :: "('a \<Rightarrow> bool) \<Rightarrow> 'a option \<Rightarrow> bool" where
  "opt_ok P x = (case x of None \<Rightarrow> True | Some a \<Rightarrow> P a)"

definition SUITE_VERSION :: string where
  "SUITE_VERSION = ''node0-v1''"

section \<open>The node\<close>

record gpu_profile =
  g_slot :: string
  g_vendor :: string
  g_name :: string
  g_vram :: "nat option"
  g_compute :: "string option"
  g_driver :: "string option"

record machine_profile =
  mp_node :: string
  mp_os :: string
  mp_os_version :: string
  mp_architecture :: string
  mp_cpu :: "string option"
  mp_logical :: "nat option"
  mp_physical :: "nat option"
  mp_ram :: "nat option"
  mp_gpus :: "gpu_profile list option"
  mp_cuda_runtime :: "string option"
  mp_cuda_toolkit :: "string option"
  mp_storage_class :: "string option"
  mp_capacity :: "nat option"
  mp_free :: "nat option"
  mp_observed :: rat
  mp_probe :: string

definition valid_gpu :: "gpu_profile \<Rightarrow> bool" where
  "valid_gpu g = (valid_label (g_slot g) \<and> valid_label (g_vendor g) \<and> valid_label (g_name g) \<and> opt_ok ((<) 0) (g_vram g)
     \<and> opt_ok valid_label (g_compute g) \<and> opt_ok valid_label (g_driver g))"

text \<open>\<open>consistent_inventory\<close>: a zero count cannot occur, so the truth tests are presence tests.\<close>

definition consistent_inventory :: "machine_profile \<Rightarrow> bool" where
  "consistent_inventory m =
     (\<not> (case (mp_physical m, mp_logical m) of (Some p, Some l) \<Rightarrow> l < p | _ \<Rightarrow> False)
      \<and> opt_ok (\<lambda>gs. distinct (map g_slot gs)) (mp_gpus m)
      \<and> \<not> (case (mp_free m, mp_capacity m) of (Some f, Some c) \<Rightarrow> c < f | _ \<Rightarrow> False))"

definition valid_machine :: "machine_profile \<Rightarrow> bool" where
  "valid_machine m = (valid_label (mp_os m) \<and> valid_label (mp_os_version m) \<and> valid_label (mp_architecture m)
     \<and> opt_ok valid_label (mp_cpu m) \<and> opt_ok ((<) 0) (mp_logical m) \<and> opt_ok ((<) 0) (mp_physical m) \<and> opt_ok ((<) 0) (mp_ram m)
     \<and> opt_ok (list_all valid_gpu) (mp_gpus m) \<and> opt_ok valid_label (mp_cuda_runtime m) \<and> opt_ok valid_label (mp_cuda_toolkit m)
     \<and> opt_ok valid_label (mp_storage_class m) \<and> opt_ok ((<) 0) (mp_capacity m) \<and> valid_label (mp_probe m)
     \<and> consistent_inventory m)"

section \<open>Dumps\<close>

definition jopt :: "('a \<Rightarrow> pyval) \<Rightarrow> 'a option \<Rightarrow> pyval" where
  "jopt f x = (case x of None \<Rightarrow> PNone | Some a \<Rightarrow> f a)"

definition jnat :: "nat \<Rightarrow> pyval" where
  "jnat n = PInt (int n)"

definition jdict :: "(string \<times> pyval) list \<Rightarrow> pydict" where
  "jdict kvs = map (\<lambda>kv. (KStr (fst kv), snd kv)) kvs"

definition dump_gpu :: "gpu_profile \<Rightarrow> pyval" where
  "dump_gpu g = PDict (jdict
     [(''slot'', PStr (g_slot g)), (''vendor'', PStr (g_vendor g)), (''name'', PStr (g_name g)),
      (''vram_bytes'', jopt jnat (g_vram g)), (''compute_capability'', jopt PStr (g_compute g)),
      (''driver_version'', jopt PStr (g_driver g))])"

definition dump_machine :: "(rat \<Rightarrow> string) \<Rightarrow> machine_profile \<Rightarrow> pydict" where
  "dump_machine fmt m = jdict
     [(''node_id'', PStr (mp_node m)), (''os'', PStr (mp_os m)), (''os_version'', PStr (mp_os_version m)),
      (''architecture'', PStr (mp_architecture m)), (''cpu'', jopt PStr (mp_cpu m)),
      (''logical_cpus'', jopt jnat (mp_logical m)), (''physical_cores'', jopt jnat (mp_physical m)),
      (''ram_bytes'', jopt jnat (mp_ram m)), (''gpus'', jopt (\<lambda>gs. PList (map dump_gpu gs)) (mp_gpus m)),
      (''cuda_runtime'', jopt PStr (mp_cuda_runtime m)), (''cuda_toolkit'', jopt PStr (mp_cuda_toolkit m)),
      (''storage_class'', jopt PStr (mp_storage_class m)), (''storage_capacity_bytes'', jopt jnat (mp_capacity m)),
      (''storage_free_bytes'', jopt jnat (mp_free m)), (''observed_at'', PStr (fmt (mp_observed m))),
      (''probe_version'', PStr (mp_probe m))]"

text \<open>\<open>MachineProfile.identity_data\<close>: without the date and the free disk, the GPUs in order of their slots.\<close>

definition machine_identity :: "machine_profile \<Rightarrow> pydict" where
  "machine_identity m = jdict
     [(''node_id'', PStr (mp_node m)), (''os'', PStr (mp_os m)), (''os_version'', PStr (mp_os_version m)),
      (''architecture'', PStr (mp_architecture m)), (''cpu'', jopt PStr (mp_cpu m)),
      (''logical_cpus'', jopt jnat (mp_logical m)), (''physical_cores'', jopt jnat (mp_physical m)),
      (''ram_bytes'', jopt jnat (mp_ram m)), (''gpus'', jopt (\<lambda>gs. PList (map dump_gpu (sort_key g_slot gs))) (mp_gpus m)),
      (''cuda_runtime'', jopt PStr (mp_cuda_runtime m)), (''cuda_toolkit'', jopt PStr (mp_cuda_toolkit m)),
      (''storage_class'', jopt PStr (mp_storage_class m)), (''storage_capacity_bytes'', jopt jnat (mp_capacity m)),
      (''probe_version'', PStr (mp_probe m))]"

section \<open>The runtime and the tuple\<close>

record runtime_observation =
  ro_id :: string
  ro_runtime :: string
  ro_version :: "string option"
  ro_backend :: "string option"
  ro_binary :: "string option"
  ro_configuration :: "string option"
  ro_capabilities :: "string list"
  ro_inventory :: "string list"
  ro_observed :: rat
  ro_probe :: string

datatype artifact_kind = ArtFile | ArtManifest

record qualification_identity =
  qi_suite :: string
  qi_machine :: machine_profile
  qi_runtime :: runtime_observation
  qi_model :: string
  qi_artifact :: "string option"
  qi_kind :: artifact_kind
  qi_quantization :: "string option"
  qi_context :: "nat option"
  qi_configuration :: "string option"

definition valid_runtime :: "runtime_observation \<Rightarrow> bool" where
  "valid_runtime r = (valid_label (ro_id r) \<and> valid_label (ro_runtime r) \<and> opt_ok valid_label (ro_version r)
     \<and> opt_ok valid_label (ro_backend r) \<and> opt_ok valid_sha256 (ro_binary r) \<and> opt_ok valid_sha256 (ro_configuration r)
     \<and> list_all valid_label (ro_capabilities r) \<and> list_all valid_label (ro_inventory r) \<and> valid_label (ro_probe r))"

definition valid_identity :: "qualification_identity \<Rightarrow> bool" where
  "valid_identity q = (valid_label (qi_suite q) \<and> valid_machine (qi_machine q) \<and> valid_runtime (qi_runtime q)
     \<and> valid_label (qi_model q) \<and> opt_ok valid_sha256 (qi_artifact q) \<and> opt_ok valid_label (qi_quantization q)
     \<and> opt_ok ((<) 0) (qi_context q) \<and> opt_ok valid_sha256 (qi_configuration q))"

definition kind_value :: "artifact_kind \<Rightarrow> string" where
  "kind_value k = (case k of ArtFile \<Rightarrow> ''file'' | ArtManifest \<Rightarrow> ''runtime_manifest'')"

definition dump_runtime :: "(rat \<Rightarrow> string) \<Rightarrow> runtime_observation \<Rightarrow> pydict" where
  "dump_runtime fmt r = jdict
     [(''runtime_id'', PStr (ro_id r)), (''runtime'', PStr (ro_runtime r)), (''version'', jopt PStr (ro_version r)),
      (''backend'', jopt PStr (ro_backend r)), (''binary_sha256'', jopt PStr (ro_binary r)),
      (''configuration_sha256'', jopt PStr (ro_configuration r)), (''capabilities'', PList (map PStr (ro_capabilities r))),
      (''model_inventory'', PList (map PStr (ro_inventory r))), (''observed_at'', PStr (fmt (ro_observed r))),
      (''probe_version'', PStr (ro_probe r))]"

definition runtime_identity :: "runtime_observation \<Rightarrow> pydict" where
  "runtime_identity r = jdict
     [(''runtime_id'', PStr (ro_id r)), (''runtime'', PStr (ro_runtime r)), (''version'', jopt PStr (ro_version r)),
      (''backend'', jopt PStr (ro_backend r)), (''binary_sha256'', jopt PStr (ro_binary r)),
      (''configuration_sha256'', jopt PStr (ro_configuration r)), (''probe_version'', PStr (ro_probe r))]"

definition identity_facts :: "qualification_identity \<Rightarrow> (string \<times> pyval) list" where
  "identity_facts q =
     [(''schema_version'', PInt 1), (''suite_version'', PStr (qi_suite q)), (''model_id'', PStr (qi_model q)),
      (''artifact_sha256'', jopt PStr (qi_artifact q)), (''artifact_kind'', PStr (kind_value (qi_kind q))),
      (''quantization'', jopt PStr (qi_quantization q)), (''context_tokens'', jopt jnat (qi_context q)),
      (''configuration_sha256'', jopt PStr (qi_configuration q))]"

definition identity_data :: "qualification_identity \<Rightarrow> pydict" where
  "identity_data q = jdict (identity_facts q
     @ [(''machine'', PDict (machine_identity (qi_machine q))), (''runtime'', PDict (runtime_identity (qi_runtime q)))])"

definition dump_identity :: "(rat \<Rightarrow> string) \<Rightarrow> qualification_identity \<Rightarrow> pydict" where
  "dump_identity fmt q = jdict
     [(''schema_version'', PInt 1), (''suite_version'', PStr (qi_suite q)),
      (''machine'', PDict (dump_machine fmt (qi_machine q))), (''runtime'', PDict (dump_runtime fmt (qi_runtime q))),
      (''model_id'', PStr (qi_model q)), (''artifact_sha256'', jopt PStr (qi_artifact q)),
      (''artifact_kind'', PStr (kind_value (qi_kind q))), (''quantization'', jopt PStr (qi_quantization q)),
      (''context_tokens'', jopt jnat (qi_context q)), (''configuration_sha256'', jopt PStr (qi_configuration q))]"

definition fingerprint :: "pylib \<Rightarrow> qualification_identity \<Rightarrow> string result" where
  "fingerprint L q = digest L (PDict (identity_data q))"

definition scope :: "pylib \<Rightarrow> qualification_identity \<Rightarrow> string result" where
  "scope L q = digest L (PList [PStr (mp_node (qi_machine q)), PStr (ro_id (qi_runtime q)),
     jopt PStr (ro_backend (qi_runtime q)), PStr (qi_model q)])"

section \<open>Facts still missing\<close>

definition unknown_text :: "string option \<Rightarrow> bool" where
  "unknown_text v = (case v of None \<Rightarrow> True | Some s \<Rightarrow> lower s \<in> {''unknown'', ''unverified'', ''unqualified''})"

definition absent :: "'a option \<Rightarrow> bool" where
  "absent v = (case v of None \<Rightarrow> True | Some _ \<Rightarrow> False)"

definition named_if :: "(string \<times> bool) list \<Rightarrow> string list" where
  "named_if nbs = map fst (filter snd nbs)"

definition missing_facts :: "qualification_identity \<Rightarrow> string list" where
  "missing_facts q =
     (let m = qi_machine q; r = qi_runtime q in
      named_if [(''artifact_sha256'', unknown_text (qi_artifact q)), (''quantization'', unknown_text (qi_quantization q)),
                (''context_tokens'', absent (qi_context q)), (''configuration_sha256'', unknown_text (qi_configuration q)),
                (''runtime.version'', unknown_text (ro_version r)), (''runtime.backend'', unknown_text (ro_backend r)),
                (''runtime.configuration_sha256'', unknown_text (ro_configuration r)),
                (''machine.os'', unknown_text (Some (mp_os m))), (''machine.os_version'', unknown_text (Some (mp_os_version m))),
                (''machine.architecture'', unknown_text (Some (mp_architecture m))), (''machine.cpu'', unknown_text (mp_cpu m)),
                (''machine.logical_cpus'', absent (mp_logical m)), (''machine.ram_bytes'', absent (mp_ram m)),
                (''machine.gpus'', absent (mp_gpus m))]
      @ (case mp_gpus m of
           None \<Rightarrow> []
         | Some gs \<Rightarrow> map (\<lambda>g. ''gpu.'' @ g_slot g) (filter (\<lambda>g. absent (g_vram g) \<or> unknown_text (g_driver g)) gs))
      @ (if ro_backend r = Some ''cuda'' \<and> unknown_text (mp_cuda_runtime m) then [''machine.cuda_runtime''] else []))"

section \<open>Dumps have a digest\<close>

definition digestible :: "pyval \<Rightarrow> bool" where
  "digestible v \<longleftrightarrow> check_keys v \<and> finite_val v"

lemma digestible_simps [simp]:
  "digestible PNone" "digestible (PStr s)" "digestible (PInt i)" "digestible (PBool b)" "digestible (PFloat (Fin q))" "digestible (jnat n)"
  by (simp_all add: digestible_def jnat_def)

lemma digestible_jopt [simp]: "(\<And>a. digestible (f a)) \<Longrightarrow> digestible (jopt f x)"
  by (simp add: jopt_def split: option.split)

lemma digestible_list [simp]: "digestible (PList vs) \<longleftrightarrow> list_all digestible vs"
  by (induction vs) (auto simp: digestible_def)

lemma digestible_dict [simp]: "digestible (PDict (jdict kvs)) \<longleftrightarrow> list_all (\<lambda>kv. digestible (snd kv)) kvs"
  by (induction kvs) (auto simp: digestible_def jdict_def)

lemma digestible_map [simp]: "(\<And>a. digestible (f a)) \<Longrightarrow> list_all digestible (map f xs)"
  by (simp add: list_all_iff)

lemma digest_of_dump: "digestible v \<Longrightarrow> digest L v = Inr (sha256 L (json_text (float_repr L) (norm v)))"
  by (simp add: digest_Inr digestible_def)

lemma dump_gpu_digestible [simp]: "digestible (dump_gpu g)"
  by (simp add: dump_gpu_def)

lemma machine_digestible [simp]: "digestible (PDict (dump_machine t m))" "digestible (PDict (machine_identity m))"
  by (simp_all add: dump_machine_def machine_identity_def)

lemma runtime_digestible [simp]: "digestible (PDict (dump_runtime t r))" "digestible (PDict (runtime_identity r))"
  by (simp_all add: dump_runtime_def runtime_identity_def)

lemma identity_digestible [simp]: "digestible (PDict (dump_identity t q))" "digestible (PDict (identity_data q))"
  by (simp_all add: dump_identity_def identity_data_def identity_facts_def)

lemma scope_ok: "\<exists>sc. scope L q = Inr sc"
  unfolding scope_def by (subst digest_of_dump) simp_all

lemma scope_names_tuple:
  assumes "float_repr_ok (float_repr L)" "scope L q = scope L q'"
  shows "collision (sha256 L) \<or> mp_node (qi_machine q) = mp_node (qi_machine q') \<and> ro_id (qi_runtime q) = ro_id (qi_runtime q')
    \<and> ro_backend (qi_runtime q) = ro_backend (qi_runtime q') \<and> qi_model q = qi_model q'"
proof -
  obtain sc where "scope L q = Inr sc" using scope_ok by blast
  with assms(2) have "scope L q' = Inr sc" by simp
  from digest_inj [OF assms(1) \<open>scope L q = Inr sc\<close> [unfolded scope_def] this [unfolded scope_def]] show ?thesis
    by (auto simp: jopt_def split: option.splits)
qed

end
