(* ===== verification/Qualification.thy ===== *)
theory Qualification imports Qualification_Model "HOL-Library.Multiset" begin

text \<open>
  dante/qualification.py, the part without state: the evidence of one run, the comparison of two
  identities, and the verdict over a run.
\<close>

section \<open>Runs of evidence\<close>

datatype check = Load | Generation | StructuredOutput | ToolCalling | ContextSize | Cancellation | TimeoutCheck
  | RuntimeFailure | RecoveryCheck | Stability

definition all_checks :: "check list" where
  "all_checks = [Load, Generation, StructuredOutput, ToolCalling, ContextSize, Cancellation, TimeoutCheck,
     RuntimeFailure, RecoveryCheck, Stability]"

fun check_value :: "check \<Rightarrow> string" where
  "check_value Load = ''load''"
| "check_value Generation = ''generation''"
| "check_value StructuredOutput = ''structured_output''"
| "check_value ToolCalling = ''tool_calling''"
| "check_value ContextSize = ''context''"
| "check_value Cancellation = ''cancellation''"
| "check_value TimeoutCheck = ''timeout''"
| "check_value RuntimeFailure = ''runtime_failure''"
| "check_value RecoveryCheck = ''recovery''"
| "check_value Stability = ''stability''"

definition REQUIRED_CHECKS :: "check list" where
  "REQUIRED_CHECKS = filter (\<lambda>c. c \<notin> {StructuredOutput, ToolCalling}) all_checks"

datatype check_outcome = CheckPassed | CheckFailed | CheckUnknown | CheckUnsupported
datatype check_failure = AssertionFailed | TimedOut | NotAvailable | BadResponse | ProbeError

record check_evidence =
  ce_check :: check
  ce_outcome :: check_outcome
  ce_evidence :: "string option"
  ce_failure :: "check_failure option"
  ce_duration :: "rat option"

record performance =
  pf_ram :: "nat option"
  pf_vram :: "nat option"
  pf_load :: "rat option"
  pf_prompt :: "rat option"
  pf_generation :: "rat option"
  pf_temperature :: "rat option"

definition no_performance :: performance where
  "no_performance = \<lparr>pf_ram = None, pf_vram = None, pf_load = None, pf_prompt = None, pf_generation = None, pf_temperature = None\<rparr>"

datatype run_phase = IntentPhase | CompletedPhase
datatype evidence_source = Synthetic | Hardware

record model_qualification =
  mq_id :: string
  mq_attempt :: "string option"
  mq_phase :: run_phase
  mq_identity :: qualification_identity
  mq_source :: evidence_source
  mq_checks :: "check_evidence list"
  mq_performance :: performance
  mq_started :: rat
  mq_completed :: "rat option"
  mq_interrupted :: bool

definition valid_evidence :: "check_evidence \<Rightarrow> bool" where
  "valid_evidence e = (opt_ok valid_sha256 (ce_evidence e) \<and> opt_ok ((\<le>) 0) (ce_duration e)
     \<and> \<not> (ce_outcome e = CheckPassed \<and> (ce_evidence e = None \<or> ce_failure e \<noteq> None))
     \<and> \<not> (ce_outcome e = CheckFailed \<and> ce_failure e = None))"

definition valid_performance :: "performance \<Rightarrow> bool" where
  "valid_performance p = (opt_ok ((<) 0) (pf_ram p) \<and> opt_ok ((<) 0) (pf_vram p) \<and> opt_ok ((\<le>) 0) (pf_load p)
     \<and> opt_ok ((\<le>) 0) (pf_prompt p) \<and> opt_ok ((\<le>) 0) (pf_generation p) \<and> opt_ok ((\<le>) 0) (pf_temperature p))"

definition coherent_run :: "model_qualification \<Rightarrow> bool" where
  "coherent_run r = (distinct (map ce_check (mq_checks r))
     \<and> opt_ok (\<lambda>t. mq_started r \<le> t) (mq_completed r)
     \<and> \<not> (mq_phase r = IntentPhase \<and> (mq_completed r \<noteq> None \<or> mq_checks r \<noteq> [])))"

definition valid_run :: "model_qualification \<Rightarrow> bool" where
  "valid_run r = (valid_identity (mq_identity r) \<and> list_all valid_evidence (mq_checks r)
     \<and> valid_performance (mq_performance r) \<and> coherent_run r)"

section \<open>What changed since\<close>

definition get_or_none :: "pydict \<Rightarrow> string \<Rightarrow> pyval" where
  "get_or_none d k = (case dget d k of None \<Rightarrow> PNone | Some v \<Rightarrow> v)"

definition sub_dicts :: "pydict \<Rightarrow> pydict \<Rightarrow> string \<Rightarrow> (pydict \<times> pydict) option" where
  "sub_dicts l r k = (case (get_or_none l k, get_or_none r k) of (PDict a, PDict b) \<Rightarrow> Some (a, b) | _ \<Rightarrow> None)"

definition key_name :: "pykey \<Rightarrow> string" where
  "key_name k = (case k of KStr s \<Rightarrow> s | KInt i \<Rightarrow> dec_int i)"

definition union_keys :: "pydict \<Rightarrow> pydict \<Rightarrow> string list" where
  "union_keys l r = sort (remdups (map (key_name \<circ> fst) (l @ r)))"

lemma sub_dicts_weight: "sub_dicts l r k = Some (a, b) \<Longrightarrow> weight_items a < weight_items l"
  using weight_dget [of l k "PDict a"] by (auto simp: sub_dicts_def get_or_none_def split: option.splits pyval.splits)

text \<open>
  \<open>compare\<close>: the paths where two JSON dumps differ. On the strings, integers and lists of a dump
  Python's equality is equality.
\<close>

function compare_data :: "pydict \<Rightarrow> pydict \<Rightarrow> string \<Rightarrow> string list"
  and compare_keys :: "pydict \<Rightarrow> pydict \<Rightarrow> string \<Rightarrow> string list \<Rightarrow> string list" where
  "compare_data l r pre = compare_keys l r pre (union_keys l r)"
| "compare_keys l r pre [] = []"
| "compare_keys l r pre (k # ks) =
     (case sub_dicts l r k of
        Some (a, b) \<Rightarrow> compare_data a b (pre @ k @ ''.'')
      | None \<Rightarrow> if get_or_none l k \<noteq> get_or_none r k then [pre @ k] else [])
     @ compare_keys l r pre ks"
  by pat_completeness auto
termination
  by (relation "measures [\<lambda>x. case x of Inl (l, _, _) \<Rightarrow> weight_items l | Inr (l, _, _, _) \<Rightarrow> weight_items l,
                          \<lambda>x. case x of Inl _ \<Rightarrow> 1 | Inr _ \<Rightarrow> 0,
                          \<lambda>x. case x of Inl _ \<Rightarrow> 0 | Inr (_, _, _, ks) \<Rightarrow> length ks]")
     (auto dest: sub_dicts_weight)

definition changed_inputs :: "qualification_identity \<Rightarrow> qualification_identity \<Rightarrow> string list" where
  "changed_inputs before cur = compare_data (identity_data before) (identity_data cur) []"

lemma compare_keys_Nil:
  "compare_keys l r pre ks = [] \<longleftrightarrow> (\<forall>k\<in>set ks. case sub_dicts l r k of
      Some (a, b) \<Rightarrow> compare_data a b (pre @ k @ ''.'') = [] | None \<Rightarrow> get_or_none l k = get_or_none r k)"
  by (induction ks) (auto split: option.split)

declare compare_data.simps [simp del]

definition agree :: "string \<Rightarrow> string \<Rightarrow> pyval \<Rightarrow> pyval \<Rightarrow> bool" where
  "agree pre k v w = (case v of
     PDict a \<Rightarrow> (case w of PDict b \<Rightarrow> compare_data a b (pre @ k @ ''.'') = [] | _ \<Rightarrow> v = w)
   | _ \<Rightarrow> v = w)"

lemma agree_simps [simp]:
  "agree pre k (PStr s) w = (PStr s = w)" "agree pre k (PInt i) w = (PInt i = w)" "agree pre k PNone w = (PNone = w)"
  "agree pre k (jopt PStr x) w = (jopt PStr x = w)" "agree pre k (jopt jnat n) w = (jopt jnat n = w)"
  "agree pre k (jopt (\<lambda>gs. PList (f gs)) y) w = (jopt (\<lambda>gs. PList (f gs)) y = w)"
  "agree pre k (PDict a) (PDict b) = (compare_data a b (pre @ k @ ''.'') = [])"
  by (auto simp: agree_def jopt_def jnat_def split: option.splits)

lemma jopt_inj [simp]:
  "jopt PStr x = jopt PStr y \<longleftrightarrow> x = y" "jopt jnat n = jopt jnat n' \<longleftrightarrow> n = n'"
  by (auto simp: jopt_def jnat_def split: option.splits)

lemma dget_jdict: "dget (jdict kvs) k = map_of kvs k"
  by (induction kvs) (auto simp: dget_def jdict_def)

lemma union_keys_jdict: "set (union_keys (jdict kvs) (jdict kws)) = fst ` set kvs \<union> fst ` set kws"
  by (auto simp: union_keys_def jdict_def key_name_def image_image)

lemma agree_sub:
  "(case sub_dicts l r k of Some (a, b) \<Rightarrow> compare_data a b (pre @ k @ ''.'') = [] | None \<Rightarrow> get_or_none l k = get_or_none r k)
   = agree pre k (get_or_none l k) (get_or_none r k)"
  by (auto simp: sub_dicts_def agree_def split: pyval.split)

text \<open>Two dumps with the same keys compare as empty exactly when they agree field by field.\<close>

lemma compare_same_keys:
  assumes "map fst kvs = map fst kws" "distinct (map fst kvs)"
  shows "compare_data (jdict kvs) (jdict kws) pre = [] \<longleftrightarrow> list_all2 (\<lambda>kv kw. agree pre (fst kv) (snd kv) (snd kw)) kvs kws"
proof -
  have "compare_data (jdict kvs) (jdict kws) pre = [] \<longleftrightarrow>
      (\<forall>k\<in>fst ` set kvs. agree pre k (get_or_none (jdict kvs) k) (get_or_none (jdict kws) k))"
    using assms(1) by (simp add: compare_data.simps compare_keys_Nil agree_sub union_keys_jdict flip: set_map)
  also have "\<dots> \<longleftrightarrow> (\<forall>i < length kvs. agree pre (fst (kvs ! i)) (snd (kvs ! i)) (snd (kws ! i)))"
  proof -
    have d: "distinct (map fst kws)" and len: "length kws = length kvs"
      using assms by (metis, metis length_map)
    have "get_or_none (jdict kvs) (fst (kvs ! i)) = snd (kvs ! i)" "get_or_none (jdict kws) (fst (kvs ! i)) = snd (kws ! i)"
      if i: "i < length kvs" for i
    proof -
      have "map_of kvs (fst (kvs ! i)) = Some (snd (kvs ! i))"
        using i assms(2) by (intro map_of_is_SomeI) simp_all
      moreover have "fst (kvs ! i) = fst (kws ! i)" using i assms(1) len by (metis nth_map)
      then have "map_of kws (fst (kvs ! i)) = Some (snd (kws ! i))"
        using i d len by (intro map_of_is_SomeI) simp_all
      ultimately show "get_or_none (jdict kvs) (fst (kvs ! i)) = snd (kvs ! i)" "get_or_none (jdict kws) (fst (kvs ! i)) = snd (kws ! i)"
        by (simp_all add: get_or_none_def dget_jdict)
    qed
    then show ?thesis by (simp add: all_set_conv_all_nth)
  qed
  also have "\<dots> \<longleftrightarrow> list_all2 (\<lambda>kv kw. agree pre (fst kv) (snd kv) (snd kw)) kvs kws"
    using assms(1) by (auto simp: list_all2_conv_all_nth dest: map_eq_imp_length_eq)
  finally show ?thesis .
qed

lemma dump_gpu_inj: "dump_gpu g = dump_gpu h \<longleftrightarrow> g = h"
  by (auto simp: dump_gpu_def jdict_def)

lemma gpus_inj:
  "jopt (\<lambda>gs. PList (map dump_gpu (sort_key g_slot gs))) x = jopt (\<lambda>gs. PList (map dump_gpu (sort_key g_slot gs))) y
   \<longleftrightarrow> map_option (sort_key g_slot) x = map_option (sort_key g_slot) y"
  by (auto simp: jopt_def inj_map_eq_map inj_def dump_gpu_inj split: option.splits)

lemma runtime_agree:
  "compare_data (runtime_identity r) (runtime_identity s) pre = [] \<longleftrightarrow>
     ro_id r = ro_id s \<and> ro_runtime r = ro_runtime s \<and> ro_version r = ro_version s \<and> ro_backend r = ro_backend s
     \<and> ro_binary r = ro_binary s \<and> ro_configuration r = ro_configuration s \<and> ro_probe r = ro_probe s"
  unfolding runtime_identity_def by (subst compare_same_keys) auto

lemma machine_agree:
  "compare_data (machine_identity m) (machine_identity n) pre = [] \<longleftrightarrow>
     mp_node m = mp_node n \<and> mp_os m = mp_os n \<and> mp_os_version m = mp_os_version n \<and> mp_architecture m = mp_architecture n
     \<and> mp_cpu m = mp_cpu n \<and> mp_logical m = mp_logical n \<and> mp_physical m = mp_physical n \<and> mp_ram m = mp_ram n
     \<and> map_option (sort_key g_slot) (mp_gpus m) = map_option (sort_key g_slot) (mp_gpus n)
     \<and> mp_cuda_runtime m = mp_cuda_runtime n \<and> mp_cuda_toolkit m = mp_cuda_toolkit n \<and> mp_storage_class m = mp_storage_class n
     \<and> mp_capacity m = mp_capacity n \<and> mp_probe m = mp_probe n"
  unfolding machine_identity_def by (subst compare_same_keys) (auto simp: gpus_inj)

lemma kind_value_inj [simp]: "kind_value k = kind_value k' \<longleftrightarrow> k = k'"
  by (cases k; cases k') (simp_all add: kind_value_def)

lemma sort_slots:
  assumes "distinct (map g_slot gs)"
  shows "sort_key g_slot gs = sort_key g_slot hs \<longleftrightarrow> mset gs = mset hs"
proof
  assume m: "mset gs = mset hs"
  then have s: "set hs = set gs" by (metis mset_eq_setD)
  have "mset (map g_slot hs) = mset (map g_slot gs)" using m by simp
  then have d: "distinct (map g_slot hs)" using assms by (metis mset_eq_imp_distinct_iff)
  have "map g_slot (sort_key g_slot gs) = map g_slot (sort_key g_slot hs)"
    using assms d s by (intro sorted_distinct_set_unique) (simp_all add: distinct_map)
  then show "sort_key g_slot gs = sort_key g_slot hs"
    by (rule map_inj_on) (use assms s in \<open>simp add: distinct_map\<close>)
qed (metis mset_sort)

lemma runtime_same:
  "compare_data (runtime_identity r) (runtime_identity s) pre = [] \<longleftrightarrow>
     (\<exists>caps inv date. s = r\<lparr>ro_capabilities := caps, ro_inventory := inv, ro_observed := date\<rparr>)"
  by (cases r; cases s) (auto simp: runtime_agree)

lemma machine_same:
  assumes "valid_machine m"
  shows "compare_data (machine_identity m) (machine_identity n) pre = [] \<longleftrightarrow>
     (\<exists>free date gs. n = m\<lparr>mp_free := free, mp_observed := date, mp_gpus := gs\<rparr> \<and> map_option mset (mp_gpus m) = map_option mset gs)"
proof -
  have "map_option (sort_key g_slot) (mp_gpus m) = map_option (sort_key g_slot) y
      \<longleftrightarrow> map_option mset (mp_gpus m) = map_option mset y" for y
  proof (cases "mp_gpus m")
    case (Some a)
    then have "distinct (map g_slot a)" using assms by (simp add: valid_machine_def consistent_inventory_def opt_ok_def)
    with Some show ?thesis by (cases y) (simp_all add: sort_slots)
  qed (cases y; simp)
  note gpus = this
  show ?thesis (is "?l \<longleftrightarrow> ?r")
  proof
    assume ?l
    then have a: "n = m\<lparr>mp_free := mp_free n, mp_observed := mp_observed n, mp_gpus := mp_gpus n\<rparr>"
      "map_option mset (mp_gpus m) = map_option mset (mp_gpus n)"
      unfolding machine_agree gpus by (simp_all add: machine_profile.equality)
    then show ?r by blast
  next
    assume ?r
    then obtain free date gs where "n = m\<lparr>mp_free := free, mp_observed := date, mp_gpus := gs\<rparr>"
      "map_option mset (mp_gpus m) = map_option mset gs" by blast
    then show ?l unfolding machine_agree gpus by simp
  qed
qed

text \<open>
  C26 (what makes evidence stale). Between two recorded identities nothing has changed exactly when
  they name the same suite, model, artifact and configuration, the same runtime up to its date, its
  reported capabilities and its inventory, and the same machine up to its date, its free disk and the
  order in which the GPUs were found.
\<close>

theorem changed_inputs_iff:
  assumes "valid_identity q"
  shows "changed_inputs q q' = [] \<longleftrightarrow>
    qi_suite q = qi_suite q' \<and> qi_model q = qi_model q' \<and> qi_artifact q = qi_artifact q' \<and> qi_kind q = qi_kind q'
    \<and> qi_quantization q = qi_quantization q' \<and> qi_context q = qi_context q' \<and> qi_configuration q = qi_configuration q'
    \<and> (\<exists>caps inv date. qi_runtime q' = (qi_runtime q)\<lparr>ro_capabilities := caps, ro_inventory := inv, ro_observed := date\<rparr>)
    \<and> (\<exists>free date gs. qi_machine q' = (qi_machine q)\<lparr>mp_free := free, mp_observed := date, mp_gpus := gs\<rparr>
        \<and> map_option mset (mp_gpus (qi_machine q)) = map_option mset gs)"
proof -
  have "changed_inputs q q' = [] \<longleftrightarrow>
      compare_data (machine_identity (qi_machine q)) (machine_identity (qi_machine q')) ''machine.'' = []
    \<and> compare_data (runtime_identity (qi_runtime q)) (runtime_identity (qi_runtime q')) ''runtime.'' = []
    \<and> qi_suite q = qi_suite q' \<and> qi_model q = qi_model q' \<and> qi_artifact q = qi_artifact q' \<and> qi_kind q = qi_kind q'
    \<and> qi_quantization q = qi_quantization q' \<and> qi_context q = qi_context q' \<and> qi_configuration q = qi_configuration q'"
    unfolding changed_inputs_def identity_data_def identity_facts_def by (subst compare_same_keys) auto
  with assms show ?thesis by (auto simp: valid_identity_def runtime_same machine_same)
qed

section \<open>The verdict\<close>

datatype qual_state = QsUnknown | QsQualified | QsFailed | QsStale

record assessment =
  as_state :: qual_state
  as_reasons :: "string list"
  as_measured :: "check list"

definition outcome_checks :: "check_outcome \<Rightarrow> model_qualification \<Rightarrow> check list" where
  "outcome_checks oc r = map ce_check (filter (\<lambda>e. ce_outcome e = oc) (mq_checks r))"

definition verdict_of :: "qual_state \<Rightarrow> string list \<Rightarrow> assessment" where
  "verdict_of st rs = \<lparr>as_state = st, as_reasons = rs, as_measured = []\<rparr>"

definition open_reasons :: "model_qualification \<Rightarrow> qualification_identity \<Rightarrow> string list" where
  "open_reasons r cur =
     map (\<lambda>c. ''missing:'' @ check_value c)
         (sort_key check_value (filter (\<lambda>c. c \<notin> set (outcome_checks CheckPassed r)) REQUIRED_CHECKS))
     @ map (\<lambda>n. ''identity_unknown:'' @ n) (missing_facts cur)
     @ (if mq_completed r = None then [''run_incomplete''] else [])
     @ (if qi_suite cur \<noteq> SUITE_VERSION then [''unsupported_suite''] else [])
     @ (if mq_source r \<noteq> Hardware then [''synthetic_evidence_only''] else [])"

definition assess :: "model_qualification \<Rightarrow> qualification_identity \<Rightarrow> assessment" where
  "assess r cur =
     (let changed = changed_inputs (mq_identity r) cur in
      if changed \<noteq> [] then verdict_of QsStale (map (\<lambda>k. ''changed:'' @ k) changed)
      else
        let failures = map (\<lambda>c. ''failed:'' @ check_value c) (outcome_checks CheckFailed r)
                       @ (if mq_interrupted r then [''probe_interrupted''] else []) in
        if failures \<noteq> [] then verdict_of QsFailed failures
        else
          let reasons = open_reasons r cur in
          \<lparr>as_state = (if reasons \<noteq> [] then QsUnknown else QsQualified), as_reasons = reasons,
           as_measured = sort_key check_value (remdups (outcome_checks CheckPassed r))\<rparr>)"

lemma in_outcome_checks: "c \<in> set (outcome_checks oc r) \<longleftrightarrow> (\<exists>e\<in>set (mq_checks r). ce_check e = c \<and> ce_outcome e = oc)"
  by (auto simp: outcome_checks_def)

lemma all_checks_complete [simp]: "c \<in> set all_checks"
  by (cases c) (simp_all add: all_checks_def)

lemma qualified_verdict:
  "as_state (assess r cur) = QsQualified \<longleftrightarrow>
     changed_inputs (mq_identity r) cur = [] \<and> (\<forall>e\<in>set (mq_checks r). ce_outcome e \<noteq> CheckFailed) \<and> \<not> mq_interrupted r
     \<and> (\<forall>c. c \<notin> {StructuredOutput, ToolCalling} \<longrightarrow> (\<exists>e\<in>set (mq_checks r). ce_check e = c \<and> ce_outcome e = CheckPassed))
     \<and> missing_facts cur = [] \<and> mq_completed r \<noteq> None \<and> qi_suite cur = SUITE_VERSION \<and> mq_source r = Hardware"
proof -
  have "sort_key check_value xs = [] \<longleftrightarrow> xs = []" for xs by (metis length_0_conv length_sort)
  moreover have "(filter (\<lambda>c. c \<notin> set (outcome_checks CheckPassed r)) REQUIRED_CHECKS = []) \<longleftrightarrow>
      (\<forall>c. c \<notin> {StructuredOutput, ToolCalling} \<longrightarrow> (\<exists>e\<in>set (mq_checks r). ce_check e = c \<and> ce_outcome e = CheckPassed))"
    using all_checks_complete by (auto simp: filter_empty_conv REQUIRED_CHECKS_def in_outcome_checks)
  ultimately have "open_reasons r cur = [] \<longleftrightarrow>
      (\<forall>c. c \<notin> {StructuredOutput, ToolCalling} \<longrightarrow> (\<exists>e\<in>set (mq_checks r). ce_check e = c \<and> ce_outcome e = CheckPassed))
      \<and> missing_facts cur = [] \<and> mq_completed r \<noteq> None \<and> qi_suite cur = SUITE_VERSION \<and> mq_source r = Hardware"
    by (simp add: open_reasons_def)
  moreover have "outcome_checks CheckFailed r = [] \<longleftrightarrow> (\<forall>e\<in>set (mq_checks r). ce_outcome e \<noteq> CheckFailed)"
    by (simp add: outcome_checks_def filter_empty_conv)
  ultimately show ?thesis by (auto simp: assess_def verdict_of_def Let_def)
qed

text \<open>
  C23 (when a run qualifies). A run qualifies a tuple exactly when nothing of the identity has changed,
  no check failed and the probe was not interrupted, every required check passed, no fact of the
  current identity is missing, the run was completed under the current suite, and on hardware.
\<close>

theorem qualified_iff:
  "as_state (assess r cur) = QsQualified \<longleftrightarrow>
     changed_inputs (mq_identity r) cur = [] \<and> (\<forall>e\<in>set (mq_checks r). ce_outcome e \<noteq> CheckFailed) \<and> \<not> mq_interrupted r
     \<and> (\<forall>c. c \<notin> {StructuredOutput, ToolCalling} \<longrightarrow> (\<exists>e\<in>set (mq_checks r). ce_check e = c \<and> ce_outcome e = CheckPassed))
     \<and> missing_facts cur = [] \<and> mq_completed r \<noteq> None \<and> qi_suite cur = SUITE_VERSION \<and> mq_source r = Hardware"
  by (rule qualified_verdict)

section \<open>Examples\<close>

definition ex_sha :: string where
  "ex_sha = replicate 64 (CHR ''0'')"

definition ex_machine :: machine_profile where
  "ex_machine = \<lparr>mp_node = ''n'', mp_os = ''Linux'', mp_os_version = ''6'', mp_architecture = ''x86_64'', mp_cpu = Some ''cpu'',
     mp_logical = Some 8, mp_physical = Some 4, mp_ram = Some 1024, mp_gpus = Some [], mp_cuda_runtime = None,
     mp_cuda_toolkit = None, mp_storage_class = None, mp_capacity = None, mp_free = None, mp_observed = 0, mp_probe = ''stdlib-v1''\<rparr>"

definition ex_runtime :: runtime_observation where
  "ex_runtime = \<lparr>ro_id = ''ollama'', ro_runtime = ''ollama'', ro_version = Some ''1'', ro_backend = Some ''cpu'', ro_binary = None,
     ro_configuration = Some ex_sha, ro_capabilities = [], ro_inventory = [], ro_observed = 0, ro_probe = ''p''\<rparr>"

definition ex_identity :: qualification_identity where
  "ex_identity = \<lparr>qi_suite = SUITE_VERSION, qi_machine = ex_machine, qi_runtime = ex_runtime, qi_model = ''b'',
     qi_artifact = Some ex_sha, qi_kind = ArtManifest, qi_quantization = Some ''Q4'', qi_context = Some 4096,
     qi_configuration = Some ex_sha\<rparr>"

definition ex_evidence :: "check \<Rightarrow> check_evidence" where
  "ex_evidence c = \<lparr>ce_check = c, ce_outcome = CheckPassed, ce_evidence = Some ex_sha, ce_failure = None, ce_duration = Some 1\<rparr>"

definition ex_passed :: model_qualification where
  "ex_passed = \<lparr>mq_id = ''c'', mq_attempt = None, mq_phase = CompletedPhase, mq_identity = ex_identity, mq_source = Hardware,
     mq_checks = map ex_evidence all_checks, mq_performance = no_performance, mq_started = 0, mq_completed = Some 9, mq_interrupted = False\<rparr>"

theorem changed_inputs_iff_witness:
  "changed_inputs ex_identity (ex_identity\<lparr>qi_machine := ex_machine\<lparr>mp_free := Some 5, mp_observed := 7\<rparr>\<rparr>) = []"
proof -
  have "valid_identity ex_identity" by code_simp
  from changed_inputs_iff [OF this] show ?thesis by (auto simp: ex_identity_def ex_machine_def ex_runtime_def)
qed

theorem qualified_iff_witness: "missing_facts ex_identity = [] \<and> (\<exists>e\<in>set (mq_checks ex_passed). ce_check e = Load)"
proof -
  have "as_state (assess ex_passed ex_identity) = QsQualified" by code_simp
  then show ?thesis using qualified_iff [of ex_passed ex_identity] by auto
qed

end
