(* ===== verification/Qualification_Store.thy ===== *)
theory Qualification_Store imports Qualification Routing begin

text \<open>
  dante/qualification.py, the part with state: the append-only store of machine snapshots and runs,
  the harness that runs a probe, and the gate the registry may hold. pydantic's reading and writing
  of a run or a machine as JSON text is a parameter.
\<close>

section \<open>The store\<close>

record run_row =
  rr_id :: string
  rr_node :: string
  rr_scope :: string
  rr_payload :: string
  rr_digest :: string

record evidence_store =
  es_profiles :: "(string, string \<times> string) table"
  es_runs :: "run_row list"

text \<open>What pydantic does: writing a value as JSON text, and parsing it back by field types.\<close>

record pydantic =
  iso_text :: "rat \<Rightarrow> string"
  run_text :: "model_qualification \<Rightarrow> string"
  text_run :: "string \<Rightarrow> model_qualification option"
  machine_text :: "machine_profile \<Rightarrow> string"
  text_machine :: "string \<Rightarrow> machine_profile option"

definition read_run :: "pydantic \<Rightarrow> string \<Rightarrow> model_qualification result" where
  "read_run P t = (case text_run P t of None \<Rightarrow> Inl ValueError | Some r \<Rightarrow> if valid_run r then Inr r else Inl ValueError)"

definition read_machine :: "pydantic \<Rightarrow> string \<Rightarrow> machine_profile result" where
  "read_machine P t = (case text_machine P t of None \<Rightarrow> Inl ValueError | Some m \<Rightarrow> if valid_machine m then Inr m else Inl ValueError)"

fun outcome_value :: "check_outcome \<Rightarrow> string" where
  "outcome_value CheckPassed = ''passed''"
| "outcome_value CheckFailed = ''failed''"
| "outcome_value CheckUnknown = ''unknown''"
| "outcome_value CheckUnsupported = ''unsupported''"

fun failure_value :: "check_failure \<Rightarrow> string" where
  "failure_value AssertionFailed = ''assertion_failed''"
| "failure_value TimedOut = ''timeout''"
| "failure_value NotAvailable = ''unavailable''"
| "failure_value BadResponse = ''invalid_response''"
| "failure_value ProbeError = ''probe_error''"

definition jrat :: "rat \<Rightarrow> pyval" where
  "jrat q = PFloat (Fin q)"

definition dump_evidence :: "check_evidence \<Rightarrow> pyval" where
  "dump_evidence e = PDict (jdict
     [(''check'', PStr (check_value (ce_check e))), (''outcome'', PStr (outcome_value (ce_outcome e))),
      (''evidence_sha256'', jopt PStr (ce_evidence e)), (''failure'', jopt (\<lambda>f. PStr (failure_value f)) (ce_failure e)),
      (''duration_s'', jopt jrat (ce_duration e))])"

definition dump_performance :: "performance \<Rightarrow> pyval" where
  "dump_performance p = PDict (jdict
     [(''peak_ram_bytes'', jopt jnat (pf_ram p)), (''peak_vram_bytes'', jopt jnat (pf_vram p)), (''load_time_s'', jopt jrat (pf_load p)),
      (''prompt_tokens_per_s'', jopt jrat (pf_prompt p)), (''generation_tokens_per_s'', jopt jrat (pf_generation p)),
      (''peak_temperature_c'', jopt jrat (pf_temperature p))])"

definition dump_run :: "pydantic \<Rightarrow> model_qualification \<Rightarrow> pyval" where
  "dump_run P r = PDict (jdict
     [(''qualification_id'', PStr (mq_id r)), (''attempt_id'', jopt PStr (mq_attempt r)),
      (''phase'', PStr (case mq_phase r of IntentPhase \<Rightarrow> ''intent'' | CompletedPhase \<Rightarrow> ''completed'')),
      (''identity'', PDict (dump_identity (iso_text P) (mq_identity r))),
      (''source'', PStr (case mq_source r of Synthetic \<Rightarrow> ''synthetic'' | Hardware \<Rightarrow> ''hardware'')),
      (''checks'', PList (map dump_evidence (mq_checks r))), (''performance'', dump_performance (mq_performance r)),
      (''started_at'', PStr (iso_text P (mq_started r))), (''completed_at'', jopt (\<lambda>t. PStr (iso_text P t)) (mq_completed r)),
      (''interrupted'', PBool (mq_interrupted r))])"

definition record_machine :: "pylib \<Rightarrow> pydantic \<Rightarrow> machine_profile \<Rightarrow> evidence_store \<Rightarrow> (string \<times> evidence_store) result" where
  "record_machine L P m0 S =
     rbind (read_machine P (machine_text P m0)) (\<lambda>m.
     rbind (digest L (PDict (dump_machine (iso_text P) m))) (\<lambda>key.
       Inr (key, S\<lparr>es_profiles := t_ins_ignore key (mp_node m, machine_text P m) (es_profiles S)\<rparr>)))"

fun read_profiles :: "pylib \<Rightarrow> pydantic \<Rightarrow> (string, string \<times> string) table \<Rightarrow> machine_profile list result" where
  "read_profiles L P [] = Inr []"
| "read_profiles L P ((key, node, payload) # rows) =
     rbind (read_machine P payload) (\<lambda>m.
     rbind (digest L (PDict (dump_machine (iso_text P) m))) (\<lambda>d.
     rbind (guard (d = key) ValueError) (\<lambda>_.
     rbind (read_profiles L P rows) (\<lambda>ms. Inr (m # ms)))))"

definition machines :: "pylib \<Rightarrow> pydantic \<Rightarrow> string \<Rightarrow> evidence_store \<Rightarrow> machine_profile list result" where
  "machines L P node S = read_profiles L P (filter (\<lambda>r. fst (snd r) = node) (es_profiles S))"

definition append_run :: "pylib \<Rightarrow> pydantic \<Rightarrow> model_qualification \<Rightarrow> evidence_store \<Rightarrow> evidence_store result" where
  "append_run L P r0 S =
     rbind (read_run P (run_text P r0)) (\<lambda>r.
     rbind (scope L (mq_identity r)) (\<lambda>sc.
     rbind (digest L (dump_run P r)) (\<lambda>d.
       if mq_id r \<in> rr_id ` set (es_runs S) then Inl IntegrityError
       else Inr (S\<lparr>es_runs := es_runs S @ [\<lparr>rr_id = mq_id r, rr_node = mp_node (qi_machine (mq_identity r)), rr_scope = sc,
                    rr_payload = run_text P r, rr_digest = d\<rparr>]\<rparr>))))"

definition read_row :: "pylib \<Rightarrow> pydantic \<Rightarrow> run_row option \<Rightarrow> model_qualification result" where
  "read_row L P row =
     (case row of None \<Rightarrow> Inl KeyError
      | Some x \<Rightarrow>
          rbind (read_run P (rr_payload x)) (\<lambda>r.
          rbind (of_opt ValueError (json_loads L (rr_payload x))) (\<lambda>j.
          rbind (digest L j) (\<lambda>d.
            if d \<noteq> rr_digest x \<or> mq_id r \<noteq> rr_id x \<or> mp_node (qi_machine (mq_identity r)) \<noteq> rr_node x then Inl ValueError
            else rbind (scope L (mq_identity r)) (\<lambda>sc. if sc \<noteq> rr_scope x then Inl ValueError else Inr r)))))"

definition get_run :: "pylib \<Rightarrow> pydantic \<Rightarrow> string \<Rightarrow> evidence_store \<Rightarrow> model_qualification result" where
  "get_run L P i S = read_row L P (find (\<lambda>x. rr_id x = i) (es_runs S))"

fun read_rows :: "pylib \<Rightarrow> pydantic \<Rightarrow> run_row list \<Rightarrow> model_qualification list result" where
  "read_rows L P [] = Inr []"
| "read_rows L P (x # xs) = rbind (read_row L P (Some x)) (\<lambda>r. rbind (read_rows L P xs) (\<lambda>rs. Inr (r # rs)))"

definition history :: "pylib \<Rightarrow> pydantic \<Rightarrow> string \<Rightarrow> evidence_store \<Rightarrow> model_qualification list result" where
  "history L P node S = read_rows L P (filter (\<lambda>x. rr_node x = node) (es_runs S))"

text \<open>The newest row of the scope, in the order of arrival.\<close>

definition latest :: "pylib \<Rightarrow> pydantic \<Rightarrow> qualification_identity \<Rightarrow> evidence_store \<Rightarrow> model_qualification option result" where
  "latest L P cur S =
     rbind (scope L cur) (\<lambda>sc.
       case find (\<lambda>x. rr_scope x = sc) (rev (es_runs S)) of
         None \<Rightarrow> Inr None
       | Some x \<Rightarrow> rbind (read_row L P (Some x)) (\<lambda>r. Inr (Some r)))"

definition qualification_status :: "pylib \<Rightarrow> pydantic \<Rightarrow> qualification_identity \<Rightarrow> evidence_store \<Rightarrow> assessment result" where
  "qualification_status L P cur S =
     rbind (latest L P cur S) (\<lambda>l. Inr (case l of None \<Rightarrow> verdict_of QsUnknown [''no_evidence''] | Some r \<Rightarrow> assess r cur))"

definition require_qualified :: "pylib \<Rightarrow> pydantic \<Rightarrow> evidence_store \<Rightarrow> qualification_identity \<Rightarrow> bool \<Rightarrow> unit result" where
  "require_qualified L P S cur uses_tools =
     rbind (qualification_status L P cur S) (\<lambda>a.
       guard (as_state a = QsQualified \<and> (uses_tools \<longrightarrow> ToolCalling \<in> set (as_measured a))) ValueError)"

section \<open>The harness\<close>

text \<open>A probe: what it observes at its two calls, and the outcome of each check.\<close>

record probe =
  pr_source :: evidence_source
  pr_first :: "qualification_identity result"
  pr_again :: "qualification_identity result"
  pr_run :: "check \<Rightarrow> check_evidence result"
  pr_performance :: "performance result"

definition checked_by :: "('a \<Rightarrow> bool) \<Rightarrow> 'a \<Rightarrow> 'a result" where
  "checked_by ok a = (if ok a then Inr a else Inl ValueError)"

text \<open>The evidence up to the first exception, and whether there was none.\<close>

fun run_checks :: "probe \<Rightarrow> check list \<Rightarrow> check_evidence list \<times> bool" where
  "run_checks pr [] = ([], True)"
| "run_checks pr (c # cs) =
     (case rbind (pr_run pr c) (checked_by (\<lambda>e. valid_evidence e \<and> ce_check e = c)) of
        Inl _ \<Rightarrow> ([], False)
      | Inr e \<Rightarrow> (case run_checks pr cs of (es, ok) \<Rightarrow> (e # es, ok)))"

definition measure_probe :: "probe \<Rightarrow> qualification_identity \<Rightarrow> check_evidence list \<times> performance \<times> bool" where
  "measure_probe pr identity =
     (case run_checks pr all_checks of (es, ok) \<Rightarrow>
        if \<not> ok then (es, no_performance, True)
        else (case rbind (pr_performance pr) (checked_by valid_performance) of
                Inl _ \<Rightarrow> (es, no_performance, True)
              | Inr pf \<Rightarrow>
                  (case pr_again pr of Inl _ \<Rightarrow> (es, pf, True)
                   | Inr again \<Rightarrow> (es, pf, changed_inputs identity again \<noteq> []))))"

definition intent_run :: "probe \<Rightarrow> qualification_identity \<Rightarrow> string \<Rightarrow> string \<Rightarrow> rat \<Rightarrow> model_qualification" where
  "intent_run pr identity i att started =
     \<lparr>mq_id = i, mq_attempt = Some att, mq_phase = IntentPhase, mq_identity = identity, mq_source = pr_source pr,
      mq_checks = [], mq_performance = no_performance, mq_started = started, mq_completed = None, mq_interrupted = False\<rparr>"

definition completed_run :: "probe \<Rightarrow> qualification_identity \<Rightarrow> string \<Rightarrow> string \<Rightarrow> rat \<Rightarrow> rat \<Rightarrow> model_qualification" where
  "completed_run pr identity i att started completed =
     (case measure_probe pr identity of (es, pf, interrupted) \<Rightarrow>
       \<lparr>mq_id = i, mq_attempt = Some att, mq_phase = CompletedPhase, mq_identity = identity, mq_source = pr_source pr,
        mq_checks = es, mq_performance = pf, mq_started = started, mq_completed = Some completed, mq_interrupted = interrupted\<rparr>)"

text \<open>The run up to its intent, where a crash may leave it, and the rest of it.\<close>

definition begin_run ::
  "pylib \<Rightarrow> pydantic \<Rightarrow> probe \<Rightarrow> string \<Rightarrow> string \<Rightarrow> rat \<Rightarrow> evidence_store \<Rightarrow> (qualification_identity \<times> evidence_store) result" where
  "begin_run L P pr i att started S =
     rbind (pr_first pr) (\<lambda>q. rbind (checked_by valid_identity q) (\<lambda>identity.
     rbind (append_run L P (intent_run pr identity i att started) S) (\<lambda>S1. Inr (identity, S1))))"

definition run_probe ::
  "pylib \<Rightarrow> pydantic \<Rightarrow> probe \<Rightarrow> string \<Rightarrow> string \<Rightarrow> string \<Rightarrow> rat \<Rightarrow> rat \<Rightarrow> evidence_store
   \<Rightarrow> (model_qualification \<times> evidence_store) result" where
  "run_probe L P pr i att i2 started completed S =
     rbind (begin_run L P pr i att started S) (\<lambda>(identity, S1).
     let r = completed_run pr identity i2 att started completed in
     rbind (append_run L P r S1) (\<lambda>S2. Inr (r, S2)))"

text \<open>The gate of the registry: the identity observed now is the one the model claims, and qualified.\<close>

definition node_gate ::
  "pylib \<Rightarrow> pydantic \<Rightarrow> evidence_store \<Rightarrow> (model_ref \<Rightarrow> qualification_identity result) \<Rightarrow> model_ref \<Rightarrow> bool \<Rightarrow> unit result" where
  "node_gate L P S current m uses_tools =
     rbind (current m) (\<lambda>q.
       case local_metadata m of
         None \<Rightarrow> Inl ValueError
       | Some md \<Rightarrow>
           let artifact = (if qi_kind q = ArtFile then md_sha256 md else runtime_digest md) in
           if qi_model q \<noteq> model_id m \<or> ro_id (qi_runtime q) \<noteq> provider_id m \<or> ro_runtime (qi_runtime q) \<noteq> runtime m
              \<or> artifact = None \<or> qi_artifact q \<noteq> artifact \<or> qi_quantization q \<noteq> quantization md
              \<or> qi_context q \<noteq> md_context_tokens md
           then Inl ValueError
           else require_qualified L P S q uses_tools)"

lemma evidence_digestible [simp]: "digestible (dump_evidence e)" "digestible (dump_performance p)" "digestible (dump_run P r)"
proof -
  show e: "digestible (dump_evidence e)" for e by (simp add: dump_evidence_def jrat_def)
  show p: "digestible (dump_performance p)" for p by (simp add: dump_performance_def jrat_def)
  show "digestible (dump_run P r)" using e p by (simp add: dump_run_def)
qed

section \<open>The newest run counts\<close>

text \<open>What the store relies on of pydantic and \<open>json\<close> for one run: its text reads back, and is its dump.\<close>

definition faithful :: "pylib \<Rightarrow> pydantic \<Rightarrow> model_qualification \<Rightarrow> bool" where
  "faithful L P r \<longleftrightarrow> text_run P (run_text P r) = Some r \<and> json_loads L (run_text P r) = Some (dump_run P r)"

lemma append_run_Inr:
  assumes "append_run L P r S = Inr S'" "faithful L P r"
  obtains x where "es_runs S' = es_runs S @ [x]" "es_profiles S' = es_profiles S" "scope L (mq_identity r) = Inr (rr_scope x)"
    "rr_id x = mq_id r" "read_row L P (Some x) = Inr r" "valid_run r" "mq_id r \<notin> rr_id ` set (es_runs S)"
    "digest L (dump_run P r) = Inr (rr_digest x)"
proof -
  from assms obtain sc d where r: "valid_run r" "scope L (mq_identity r) = Inr sc" "digest L (dump_run P r) = Inr d"
    "mq_id r \<notin> rr_id ` set (es_runs S)"
    "S' = S\<lparr>es_runs := es_runs S @ [\<lparr>rr_id = mq_id r, rr_node = mp_node (qi_machine (mq_identity r)), rr_scope = sc,
                    rr_payload = run_text P r, rr_digest = d\<rparr>]\<rparr>"
    by (auto simp: append_run_def read_run_def faithful_def elim!: rbindE split: option.splits if_splits)
  let ?x = "\<lparr>rr_id = mq_id r, rr_node = mp_node (qi_machine (mq_identity r)), rr_scope = sc,
                    rr_payload = run_text P r, rr_digest = d\<rparr>"
  have "read_row L P (Some ?x) = Inr r"
    using r assms(2) by (simp add: read_row_def read_run_def faithful_def of_opt_def)
  with r show thesis by (intro that [of ?x]) simp_all
qed

lemma append_run_ok:
  assumes "faithful L P r" "valid_run r" "mq_id r \<notin> rr_id ` set (es_runs S)"
  shows "\<exists>S'. append_run L P r S = Inr S'"
proof -
  obtain sc where "scope L (mq_identity r) = Inr sc" using scope_ok by blast
  with assms show ?thesis by (simp add: append_run_def read_run_def faithful_def digest_of_dump)
qed

lemma append_latest:
  assumes "append_run L P r S = Inr S'" "faithful L P r"
  shows "latest L P cur S' = (if scope L cur = scope L (mq_identity r) then Inr (Some r) else latest L P cur S)"
proof -
  from assms obtain x where x: "es_runs S' = es_runs S @ [x]" "scope L (mq_identity r) = Inr (rr_scope x)"
    "read_row L P (Some x) = Inr r" by (rule append_run_Inr)
  then show ?thesis by (cases "scope L cur") (auto simp: latest_def)
qed

lemma append_status:
  assumes "append_run L P r S = Inr S'" "faithful L P r"
  shows "qualification_status L P cur S' =
    (if scope L cur = scope L (mq_identity r) then Inr (assess r cur) else qualification_status L P cur S)"
proof (cases "scope L cur = scope L (mq_identity r)")
  case True
  with append_latest [OF assms, of cur] show ?thesis by (simp add: qualification_status_def)
next
  case False
  with append_latest [OF assms, of cur] show ?thesis by (simp add: qualification_status_def)
qed

text \<open>
  C24 (the newest run decides). After a run is appended, the state of its tuple is the verdict over this
  run alone, so that a failed rerun is not outweighed by an older pass, and no other tuple is affected.
\<close>

theorem newest_run_decides:
  assumes "append_run L P r S = Inr S'" "faithful L P r"
  shows "qualification_status L P cur S' =
    (if scope L cur = scope L (mq_identity r) then Inr (assess r cur) else qualification_status L P cur S)"
  by (rule append_status [OF assms])

lemma run_checks_ok: "run_checks pr cs = (es, True) \<Longrightarrow> map ce_check es = cs \<and> list_all2 (\<lambda>c e. pr_run pr c = Inr e \<and> valid_evidence e) cs es"
  by (induction cs arbitrary: es) (auto simp: checked_by_def elim!: rbindE split: sum.splits prod.splits if_splits)

lemma run_checks_all:
  "run_checks pr cs = (es, ok) \<Longrightarrow> e \<in> set es \<Longrightarrow> pr_run pr (ce_check e) = Inr e \<and> valid_evidence e"
  by (induction cs arbitrary: es ok) (auto simp: checked_by_def elim!: rbindE split: sum.splits prod.splits if_splits)

lemma measured_evidence:
  assumes "measure_probe pr identity = (es, pf, interrupted)" "e \<in> set es"
  shows "pr_run pr (ce_check e) = Inr e"
proof -
  obtain es' ok where rc: "run_checks pr all_checks = (es', ok)" by fastforce
  with assms(1) have "es' = es" by (auto simp: measure_probe_def split: if_splits sum.splits)
  with run_checks_all [OF rc] assms(2) show ?thesis by simp
qed

lemma measured_unchanged:
  assumes "measure_probe pr identity = (es, pf, False)"
  shows "\<exists>again. pr_again pr = Inr again \<and> changed_inputs identity again = []"
  using assms by (auto simp: measure_probe_def split: if_splits sum.splits prod.splits)

text \<open>
  C25 (a run has to earn its verdict). After the harness has run a probe, the tuple it observed is
  qualified only if the probe is a hardware probe, every required check was run and passed in this
  run, no check failed, nothing raised, and the identity observed at the end was the one at the start;
  and when the run stops after its intent, the tuple is not qualified, whatever was recorded before.
\<close>

theorem probe_earns_verdict:
  assumes "begin_run L P pr i att started S = Inr (identity, S1)" "faithful L P (intent_run pr identity i att started)"
    and "append_run L P (completed_run pr identity i2 att started completed) S1 = Inr S2"
      "faithful L P (completed_run pr identity i2 att started completed)"
    and "scope L cur = scope L identity"
  shows "\<exists>a1 a2. qualification_status L P cur S1 = Inr a1 \<and> as_state a1 \<noteq> QsQualified
    \<and> qualification_status L P cur S2 = Inr a2
    \<and> (as_state a2 = QsQualified \<longrightarrow> pr_source pr = Hardware \<and> changed_inputs identity cur = []
        \<and> (\<exists>again. pr_again pr = Inr again \<and> changed_inputs identity again = [])
        \<and> (\<forall>c. c \<notin> {StructuredOutput, ToolCalling} \<longrightarrow> (\<exists>e. pr_run pr c = Inr e \<and> ce_outcome e = CheckPassed)))"
proof -
  let ?i = "intent_run pr identity i att started" and ?c = "completed_run pr identity i2 att started completed"
  have "append_run L P ?i S = Inr S1"
    using assms(1) by (auto simp: begin_run_def checked_by_def elim!: rbindE split: if_splits)
  from append_status [OF this assms(2), of cur] assms(5)
  have 1: "qualification_status L P cur S1 = Inr (assess ?i cur)" by (simp add: intent_run_def)
  have "as_state (assess ?i cur) \<noteq> QsQualified" by (simp add: qualified_verdict intent_run_def)
  moreover obtain es pf intr where m: "measure_probe pr identity = (es, pf, intr)" by (metis prod.collapse)
  from append_status [OF assms(3,4), of cur] assms(5) m
  have 2: "qualification_status L P cur S2 = Inr (assess ?c cur)" by (simp add: completed_run_def)
  moreover have "pr_source pr = Hardware \<and> changed_inputs identity cur = []
        \<and> (\<exists>again. pr_again pr = Inr again \<and> changed_inputs identity again = [])
        \<and> (\<forall>c. c \<notin> {StructuredOutput, ToolCalling} \<longrightarrow> (\<exists>e. pr_run pr c = Inr e \<and> ce_outcome e = CheckPassed))"
    if "as_state (assess ?c cur) = QsQualified"
    using that m measured_evidence [OF m] measured_unchanged [of pr identity es pf]
    unfolding qualified_verdict by (auto simp: completed_run_def)
  ultimately show ?thesis using 1 by blast
qed


text \<open>
  C27 (the gate asks for evidence). When the registry holds the node gate and admits a local model, the
  tuple observed at that moment is the model's own, artifact, quantization and context included, and the
  newest recorded run of the tuple qualifies it; for tool use that run has also passed the tool check.
\<close>

theorem gate_needs_evidence:
  assumes "rg_gate R = Some (node_gate L P S current)" "is_local m" "require_automatic L F R m uses_tools = Inr ()"
  shows "\<exists>q r md. current m = Inr q \<and> local_metadata m = Some md \<and> qi_model q = model_id m \<and> ro_id (qi_runtime q) = provider_id m
    \<and> qi_artifact q = (if qi_kind q = ArtFile then md_sha256 md else runtime_digest md) \<and> qi_artifact q \<noteq> None
    \<and> qi_quantization q = quantization md \<and> qi_context q = md_context_tokens md
    \<and> latest L P q S = Inr (Some r) \<and> as_state (assess r q) = QsQualified
    \<and> (uses_tools \<longrightarrow> (\<exists>e\<in>set (mq_checks r). ce_check e = ToolCalling \<and> ce_outcome e = CheckPassed))"
proof -
  have "node_gate L P S current m uses_tools = Inr ()"
    using assms by (auto simp: require_automatic_local)
  then obtain q md where q: "current m = Inr q" "local_metadata m = Some md" "qi_model q = model_id m" "ro_id (qi_runtime q) = provider_id m"
      "qi_artifact q = (if qi_kind q = ArtFile then md_sha256 md else runtime_digest md)" "qi_artifact q \<noteq> None"
      "qi_quantization q = quantization md" "qi_context q = md_context_tokens md" "require_qualified L P S q uses_tools = Inr ()"
    by (auto simp: node_gate_def Let_def elim!: rbindE split: option.splits if_splits)
  from q(9) obtain l where l: "latest L P q S = Inr l"
    "as_state (case l of None \<Rightarrow> verdict_of QsUnknown [''no_evidence''] | Some r \<Rightarrow> assess r q) = QsQualified"
    "uses_tools \<longrightarrow> ToolCalling \<in> set (as_measured (case l of None \<Rightarrow> verdict_of QsUnknown [''no_evidence''] | Some r \<Rightarrow> assess r q))"
    by (auto simp: require_qualified_def qualification_status_def elim!: rbindE)
  then obtain r where r: "l = Some r" by (cases l) (auto simp: verdict_of_def)
  have "ToolCalling \<in> set (as_measured (assess r q)) \<Longrightarrow> ToolCalling \<in> set (outcome_checks CheckPassed r)"
    by (auto simp: assess_def verdict_of_def Let_def split: if_splits)
  with l(2,3) have "as_state (assess r q) = QsQualified"
    "uses_tools \<longrightarrow> (\<exists>e\<in>set (mq_checks r). ce_check e = ToolCalling \<and> ce_outcome e = CheckPassed)"
    unfolding r in_outcome_checks by auto
  with q(1-8) l(1) show ?thesis unfolding r by blast
qed

section \<open>Examples\<close>

definition ex_probe :: probe where
  "ex_probe = \<lparr>pr_source = Hardware, pr_first = Inr ex_identity, pr_again = Inr (ex_identity\<lparr>qi_machine := ex_machine\<lparr>mp_free := Some 5\<rparr>\<rparr>),
     pr_run = (\<lambda>c. Inr (ex_evidence c)), pr_performance = Inr no_performance\<rparr>"

definition ex_intent_run :: model_qualification where
  "ex_intent_run = intent_run ex_probe ex_identity ''i'' ''a'' 0"

definition ex_completed_run :: model_qualification where
  "ex_completed_run = completed_run ex_probe ex_identity ''c'' ''a'' 0 9"

text \<open>A pydantic that knows two runs by their identifiers, and the JSON reader that goes with it.\<close>

definition ex_pydantic :: pydantic where
  "ex_pydantic = \<lparr>iso_text = (\<lambda>_. ''t''), run_text = mq_id, text_run = (\<lambda>t. find (\<lambda>r. mq_id r = t) [ex_intent_run, ex_completed_run]),
     machine_text = mp_node, text_machine = (\<lambda>_. Some ex_machine)\<rparr>"

definition ex_qual_lib :: pylib where
  "ex_qual_lib = \<lparr>sha256 = (\<lambda>s. s), float_repr = toy_repr, json_loads = (\<lambda>t. map_option (dump_run ex_pydantic) (text_run ex_pydantic t))\<rparr>"

definition ex_no_evidence :: evidence_store where
  "ex_no_evidence = \<lparr>es_profiles = [], es_runs = []\<rparr>"

definition run_store :: "(model_qualification \<times> evidence_store) result \<Rightarrow> evidence_store" where
  "run_store r = (case r of Inr (_, S) \<Rightarrow> S | Inl _ \<Rightarrow> ex_no_evidence)"

definition ex_begun :: evidence_store where
  "ex_begun = (case begin_run ex_qual_lib ex_pydantic ex_probe ''i'' ''a'' 0 ex_no_evidence of Inr (_, S) \<Rightarrow> S | Inl _ \<Rightarrow> ex_no_evidence)"

definition ex_recorded :: evidence_store where
  "ex_recorded = (case append_run ex_qual_lib ex_pydantic ex_completed_run ex_begun of Inr S \<Rightarrow> S | Inl _ \<Rightarrow> ex_no_evidence)"

lemma ex_faithful: "faithful ex_qual_lib ex_pydantic ex_intent_run" "faithful ex_qual_lib ex_pydantic ex_completed_run"
  by (simp_all add: faithful_def ex_qual_lib_def ex_pydantic_def ex_intent_run_def ex_completed_run_def intent_run_def completed_run_def
      split: prod.split)

lemma ex_valid: "valid_run ex_intent_run" "valid_run ex_completed_run" "valid_identity ex_identity"
  by code_simp+

lemma ex_ids: "mq_id ex_intent_run = ''i''" "mq_id ex_completed_run = ''c''" "mq_identity ex_intent_run = ex_identity"
    "mq_identity ex_completed_run = ex_identity" "pr_first ex_probe = Inr ex_identity"
  by (simp_all add: ex_intent_run_def ex_completed_run_def intent_run_def completed_run_def ex_probe_def split: prod.split)

lemma ex_begin: "begin_run ex_qual_lib ex_pydantic ex_probe ''i'' ''a'' 0 ex_no_evidence = Inr (ex_identity, ex_begun)"
proof -
  obtain S where "append_run ex_qual_lib ex_pydantic ex_intent_run ex_no_evidence = Inr S"
    using append_run_ok [OF ex_faithful(1) ex_valid(1), of ex_no_evidence] by (auto simp: ex_no_evidence_def)
  then show ?thesis
    by (simp add: ex_begun_def begin_run_def ex_ids ex_valid checked_by_def flip: ex_intent_run_def)
qed

lemma ex_append: "append_run ex_qual_lib ex_pydantic ex_completed_run ex_begun = Inr ex_recorded"
proof -
  have "append_run ex_qual_lib ex_pydantic ex_intent_run ex_no_evidence = Inr ex_begun"
    using ex_begin by (simp add: begin_run_def ex_ids ex_valid checked_by_def rbind_eq_Inr flip: ex_intent_run_def)
  then obtain x where "es_runs ex_begun = es_runs ex_no_evidence @ [x]" "rr_id x = mq_id ex_intent_run"
    by (rule append_run_Inr [OF _ ex_faithful(1)])
  then have "mq_id ex_completed_run \<notin> rr_id ` set (es_runs ex_begun)" by (simp add: ex_no_evidence_def ex_ids)
  from append_run_ok [OF ex_faithful(2) ex_valid(2) this] show ?thesis by (auto simp: ex_recorded_def)
qed

lemma ex_qualified: "as_state (assess ex_completed_run ex_identity) = QsQualified"
  by code_simp

lemma ex_append_intent: "append_run ex_qual_lib ex_pydantic ex_intent_run ex_no_evidence = Inr ex_begun"
  using ex_begin by (simp add: begin_run_def ex_ids ex_valid checked_by_def rbind_eq_Inr flip: ex_intent_run_def)

lemma ex_status: "qualification_status ex_qual_lib ex_pydantic ex_identity ex_recorded = Inr (assess ex_completed_run ex_identity)"
  using append_status [OF ex_append ex_faithful(2), of ex_identity] by (simp add: ex_ids)

theorem newest_run_decides_witness:
  "qualification_status ex_qual_lib ex_pydantic ex_identity ex_recorded = Inr (assess ex_completed_run ex_identity)
   \<and> qualification_status ex_qual_lib ex_pydantic ex_identity ex_begun = Inr (assess ex_intent_run ex_identity)"
  using newest_run_decides [OF ex_append ex_faithful(2), of ex_identity]
    newest_run_decides [OF ex_append_intent ex_faithful(1), of ex_identity] by (simp add: ex_ids)

theorem probe_earns_verdict_witness:
  "pr_source ex_probe = Hardware \<and> (\<exists>a. qualification_status ex_qual_lib ex_pydantic ex_identity ex_begun = Inr a \<and> as_state a \<noteq> QsQualified)"
  using probe_earns_verdict [OF ex_begin ex_faithful(1) [unfolded ex_intent_run_def] ex_append [unfolded ex_completed_run_def]
      ex_faithful(2) [unfolded ex_completed_run_def] refl] ex_status ex_qualified
  by auto

definition ex_local_model :: model_ref where
  "ex_local_model = (ex_model ''b'' True)\<lparr>local_metadata := Some (ex_metadata\<lparr>runtime_digest := Some ex_sha, quantization := Some ''Q4''\<rparr>)\<rparr>"

definition ex_gated :: model_registry where
  "ex_gated = registry_of [ex_local_model] ''default'' (Some (node_gate ex_qual_lib ex_pydantic ex_recorded (\<lambda>_. Inr ex_identity)))"

lemma ex_gate: "require_automatic ex_qual_lib ex_files ex_gated ex_local_model False = Inr ()"
proof -
  have "\<not> unqualified ''default'' ex_local_model False" "verify_identity ex_qual_lib ex_files ex_local_model = Inr ()"
    "is_local ex_local_model"
    by code_simp+
  moreover have "node_gate ex_qual_lib ex_pydantic ex_recorded (\<lambda>_. Inr ex_identity) ex_local_model False = Inr ()"
  proof -
    have q: "qi_model ex_identity = ''b''" "ro_id (qi_runtime ex_identity) = ''ollama''" "ro_runtime (qi_runtime ex_identity) = ''ollama''"
      "qi_kind ex_identity = ArtManifest" "qi_artifact ex_identity = Some ex_sha" "qi_quantization ex_identity = Some ''Q4''"
      "qi_context ex_identity = Some 4096"
      by (simp_all add: ex_identity_def ex_runtime_def)
    have "require_qualified ex_qual_lib ex_pydantic ex_recorded ex_identity False = Inr ()"
      by (simp add: require_qualified_def ex_status ex_qualified)
    then show ?thesis by (simp add: node_gate_def q ex_local_model_def ex_model_def ex_metadata_def)
  qed
  ultimately show ?thesis by (simp add: require_automatic_def ex_gated_def registry_of_def)
qed

theorem gate_needs_evidence_witness: "\<exists>r. latest ex_qual_lib ex_pydantic ex_identity ex_recorded = Inr (Some r) \<and> as_state (assess r ex_identity) = QsQualified"
proof -
  have "rg_gate ex_gated = Some (node_gate ex_qual_lib ex_pydantic ex_recorded (\<lambda>_. Inr ex_identity))" "is_local ex_local_model"
    by (simp_all add: ex_gated_def registry_of_def ex_local_model_def ex_model_def)
  from gate_needs_evidence [OF this ex_gate] show ?thesis by auto
qed


end
