(* ===== verification/Agent_Host.thy ===== *)
theory Agent_Host imports Continuity Broker_Effects begin

text \<open>
  dante/agent_host.py: the host that starts a task, routes an inference, executes one tool with its
  checkpoint, resumes after a crash and completes against the acceptance contract. Each method is a
  program of transactions; the trace variable and the audit log carry no decision and are left out.
\<close>

section \<open>The host\<close>

text \<open>
  The collaborators of the constructor: the broker's registry, the router's registry and version, the
  gateway at each moment, the optional continuity manager, the flag of the privacy gate, and pydantic's
  text of a tool definition.
\<close>

record agent_host =
  ah_tools :: tool_registry
  ah_registry :: model_registry
  ah_version :: string
  ah_gateway :: "nat \<Rightarrow> gateway"
  ah_continuity :: "continuity_manager option"
  ah_internal_cloud :: bool
  ah_tool_json :: "tool_definition \<Rightarrow> string"

text \<open>A transition with no metadata, as most callers make it.\<close>

definition move ::
  "environment \<Rightarrow> string \<Rightarrow> task_status \<Rightarrow> string option \<Rightarrow> (string \<times> pyval) list \<Rightarrow> task prog" where
  "move E tid tgt step md = transact E (\<lambda>x F db. transition (e_lib E) F x tid tgt step md db)"

definition fetch :: "environment \<Rightarrow> string \<Rightarrow> task prog" where
  "fetch E tid = query E (\<lambda>x F db. get_task db tid)"

definition start_task ::
  "environment \<Rightarrow> string \<Rightarrow> string \<Rightarrow> string \<Rightarrow> string \<Rightarrow> privacy_class \<Rightarrow> acceptance_contract option \<Rightarrow> task prog" where
  "start_task E tid trc g ws pc acc =
     pbind (transact E (\<lambda>x F db. rbind (new_task tid trc (tx_stamp x) g ws pc) (\<lambda>tk. create_task x tk acc db))) (\<lambda>tk.
     pbind (move E (task_id tk) PLANNED (Some ''planned'') []) (\<lambda>_.
     move E (task_id tk) RUNNING (Some ''routing'') []))"

section \<open>Inference\<close>

definition privacy_text :: "agent_host \<Rightarrow> string \<Rightarrow> tool_definition list \<Rightarrow> string" where
  "privacy_text H content ts = content @ [CHR 0x0A] @ join [CHR 0x0A] (map (ah_tool_json H) ts)"

definition wanted :: "string fset \<Rightarrow> tool_definition list \<Rightarrow> string fset" where
  "wanted caps ts = (if ts = [] then caps else finsert ''tool_calling'' caps)"

definition ask_gateway ::
  "environment \<Rightarrow> agent_host \<Rightarrow> route_decision \<Rightarrow> string \<Rightarrow> tool_definition list \<Rightarrow> task \<Rightarrow> inference_response prog" where
  "ask_gateway E H d content ts tk w =
     (let w1 = tick E w in
      (rbind (make_request (selected_model d) [TextMessage ''user'' content] ts 0 None (Some (task_id tk)) (Some (trace_id tk)))
         (gateway_infer (e_lib E) (w_files w1) (ah_gateway H (w_tick w)) d), w1))"

definition routed_infer ::
  "environment \<Rightarrow> agent_host \<Rightarrow> task \<Rightarrow> privacy_decision \<Rightarrow> string \<Rightarrow> string fset \<Rightarrow> tool_definition list
   \<Rightarrow> inference_response prog" where
  "routed_infer E H tk pd content caps ts =
     with_fresh E (\<lambda>rid.
     pbind (query E (\<lambda>x F db. decide_route (e_lib E) F (ah_registry H) (ah_version H) rid tk pd (wanted caps ts))) (\<lambda>d.
     pbind (transact E (\<lambda>x F db. set_route x d db)) (\<lambda>_. ask_gateway E H d content ts tk)))"

text \<open>What a continuation came to: its response, or the signal for the worker.\<close>

definition signalled :: "continuity_outcome option \<Rightarrow> inference_response option option prog" where
  "signalled out =
     (case out of
        None \<Rightarrow> ret None
      | Some c \<Rightarrow>
          if co_disposition c \<noteq> ContinueNow then throw (ContinuitySignal (co_disposition c) (co_reason c) (co_next c))
          else ret (Some (co_response c)))"

text \<open>\<open>infer\<close>; \<open>fuel\<close> bounds the rounds of the continuation, and \<open>None\<close> is running out of it.\<close>

definition host_infer ::
  "nat \<Rightarrow> environment \<Rightarrow> agent_host \<Rightarrow> string \<Rightarrow> string \<Rightarrow> string fset \<Rightarrow> tool_definition list \<Rightarrow> pyval
   \<Rightarrow> inference_response option option prog" where
  "host_infer fuel E H tid content caps ts context =
     pbind (fetch E tid) (\<lambda>tk.
     let pd = classify (ah_internal_cloud H) (privacy_text H content ts) (privacy_class tk) in
     case ah_continuity H of
       Some M \<Rightarrow> pbind (continuity_infer fuel E M tk pd [TextMessage ''user'' content] caps ts context) signalled
     | None \<Rightarrow> pbind (routed_infer E H tk pd content caps ts) (\<lambda>r. ret (Some (Some r))))"

section \<open>Resuming\<close>

text \<open>The first step of the list that was begun and does not verify.\<close>

fun first_unverified :: "environment \<Rightarrow> string \<Rightarrow> step_record list \<Rightarrow> step_record option prog" where
  "first_unverified E tid [] = ret None"
| "first_unverified E tid (s # ss) =
     (if sr_state s = StIntent then first_unverified E tid ss
      else attempt_prog (query E (\<lambda>x F db. verified_step_result (e_lib E) F db tid (step_id s)))
             (\<lambda>e. if e = ReconciliationRequired then ret (Some s) else throw e)
             (\<lambda>_. first_unverified E tid ss))"

definition resume :: "environment \<Rightarrow> string \<Rightarrow> task prog" where
  "resume E tid =
     pbind (fetch E tid) (\<lambda>tk.
     pbind (query E (\<lambda>x F db. Inr (steps db tid))) (\<lambda>ss.
     pbind (first_unverified E tid ss) (\<lambda>bad.
       case bad of
         Some s \<Rightarrow>
           if status tk \<in> {RUNNING, WAITING_TOOL, VERIFYING}
           then move E tid FAILED_RETRYABLE (Some (''reconcile:'' @ step_id s)) [] else ret tk
       | None \<Rightarrow>
           if status tk \<in> {WAITING_TOOL, FAILED_RETRYABLE} then move E tid RUNNING (Some ''resumed'') []
           else ret tk)))"

section \<open>One tool\<close>

text \<open>A task left over from a failure is resumed first; it must come back.\<close>

definition recovered :: "environment \<Rightarrow> string \<Rightarrow> task \<Rightarrow> unit prog" where
  "recovered E tid tk =
     (if status tk = FAILED_RETRYABLE
      then pbind (resume E tid) (\<lambda>tk'. if status tk' = FAILED_RETRYABLE then throw ReconciliationRequired else ret ())
      else ret ())"

definition run_tool_step ::
  "environment \<Rightarrow> agent_host \<Rightarrow> string \<Rightarrow> string \<Rightarrow> pydict \<Rightarrow> bool \<Rightarrow> string option \<Rightarrow> string option \<Rightarrow> string \<Rightarrow> pydict prog" where
  "run_tool_step E H tid tool args stop_after key apid ph =
     pbind (move E tid WAITING_TOOL (Some (''tool:'' @ tool)) []) (\<lambda>tk.
     pbind (invoke E (ah_tools H) (task_id tk) tool args apid ph key) (\<lambda>r.
       if res_status r = UNCERTAIN then throw ReconciliationRequired
       else if res_status r \<noteq> SUCCESS then throw (ToolDenied (res_status r))
       else
         case res_step_id r of
           None \<Rightarrow> throw KeyError
         | Some sid \<Rightarrow>
             pbind (query E (\<lambda>x F db. verified_step_result (e_lib E) F db tid sid)) (\<lambda>d.
             pbind (transact E (\<lambda>x F db. checkpoint_task x tid (''tool:'' @ tool @ '':complete'') [(KStr ''step_id'', PStr sid)] db)) (\<lambda>_.
             pbind (if stop_after then ret () else pbind (move E tid RUNNING (Some ''post-tool'') []) (\<lambda>_. ret ())) (\<lambda>_.
               ret d)))))"

text \<open>What the \<open>except\<close> clause leaves of the task before it raises again.\<close>

definition park :: "environment \<Rightarrow> string \<Rightarrow> exn \<Rightarrow> 'a prog" where
  "park E tid e =
     pbind (fetch E tid) (\<lambda>cur.
     pbind (if status cur \<in> {RUNNING, WAITING_TOOL}
            then pbind (move E tid FAILED_RETRYABLE (Some ''reconcile-or-retry'') []) (\<lambda>_. ret ()) else ret ()) (\<lambda>_.
       throw e))"

definition execute_tool_and_checkpoint ::
  "environment \<Rightarrow> agent_host \<Rightarrow> string \<Rightarrow> string \<Rightarrow> pydict \<Rightarrow> bool \<Rightarrow> string option \<Rightarrow> string option \<Rightarrow> string \<Rightarrow> pydict prog" where
  "execute_tool_and_checkpoint E H tid tool args stop_after key apid ph =
     pbind (fetch E tid) (\<lambda>tk.
     attempt_prog
       (pbind (recovered E tid tk) (\<lambda>_. run_tool_step E H tid tool args stop_after key apid ph))
       (park E tid) ret)"

section \<open>Completion\<close>

definition verify_acceptance ::
  "environment \<Rightarrow> (observed_acceptance \<Rightarrow> string) \<Rightarrow> string \<Rightarrow> acceptance_contract option \<Rightarrow> observed_acceptance option
   \<Rightarrow> acceptance_result prog" where
  "verify_acceptance E dump tid contract observed =
     pbind (case contract of None \<Rightarrow> ret () | Some c \<Rightarrow> commit E (\<lambda>x F db. bind_acceptance tid c db)) (\<lambda>_.
     pbind (case observed of None \<Rightarrow> ret () | Some ob \<Rightarrow> commit E (\<lambda>x F db. record_observations dump x tid ob db)) (\<lambda>_.
     pbind (fetch E tid) (\<lambda>tk.
     pbind (if status tk \<noteq> VERIFYING then pbind (move E tid VERIFYING (Some ''verifying-acceptance'') []) (\<lambda>_. ret ()) else ret ()) (\<lambda>_.
     pbind (transact E (\<lambda>x F db. verify_persistent_acceptance (e_lib E) F x tid db)) (\<lambda>r.
     pbind (transact E (\<lambda>x F db. checkpoint_task x tid ''acceptance:verified'' (map (\<lambda>(k, v). (KStr k, v)) (result_dump r)) db)) (\<lambda>_.
       ret r))))))"

definition complete_task ::
  "environment \<Rightarrow> (observed_acceptance \<Rightarrow> string) \<Rightarrow> string \<Rightarrow> acceptance_contract option \<Rightarrow> observed_acceptance option \<Rightarrow> task prog" where
  "complete_task E dump tid contract observed =
     pbind (fetch E tid) (\<lambda>tk.
       if status tk = COMPLETED then fetch E tid
       else pbind (verify_acceptance E dump tid contract observed) (\<lambda>r.
         if \<not> acceptance_complete r then move E tid FAILED_RETRYABLE (Some ''acceptance-incomplete'') (result_dump r)
         else move E tid COMPLETED (Some ''completed'') []))"

text \<open>\<open>continue_missing\<close> is the caller's function: what it observes, or its exception.\<close>

definition complete_with_one_continuation ::
  "environment \<Rightarrow> (observed_acceptance \<Rightarrow> string) \<Rightarrow> string \<Rightarrow> acceptance_contract \<Rightarrow> observed_acceptance
   \<Rightarrow> (string \<Rightarrow> observed_acceptance prog) \<Rightarrow> (string \<times> string) list option \<Rightarrow> (task \<times> acceptance_result) prog" where
  "complete_with_one_continuation E dump tid contract observed continue_missing known =
     pbind (verify_acceptance E dump tid (Some contract) (Some observed)) (\<lambda>first.
       if acceptance_complete first
       then pbind (move E tid COMPLETED (Some ''completed'') []) (\<lambda>tk. ret (tk, first))
       else
         pbind (move E tid FAILED_RETRYABLE (Some ''acceptance-incomplete'') (result_dump first)) (\<lambda>_.
         pbind (resume E tid) (\<lambda>_.
         pbind (continue_missing (continuation_prompt first known (Some (instructions contract)))) (\<lambda>more.
         pbind (verify_acceptance E dump tid (Some contract) (Some (merged observed more))) (\<lambda>second.
         pbind (if acceptance_complete second
                then move E tid COMPLETED (Some ''completed'') (result_dump second)
                else move E tid FAILED_RETRYABLE (Some ''acceptance-incomplete'') (result_dump second)) (\<lambda>tk.
           ret (tk, second)))))))"

section \<open>What a host does to the world\<close>

lemma single_step: "(\<And>x F db a db'. f x F db = Inr (a, db') \<Longrightarrow> ledger_step L db db') \<Longrightarrow> steps_of_op L f"
  by (auto simp: steps_of_op_def)

context ledger_relation
begin

lemma stays_move: "quiet E \<Longrightarrow> e_lib E = L \<Longrightarrow> stays R (move E tid tgt step md)"
  unfolding move_def by (auto intro!: stays_transact single_step intro: Transition)

lemma stays_fetch: "quiet E \<Longrightarrow> e_lib E = L \<Longrightarrow> stays R (fetch E tid)"
  unfolding fetch_def by (rule stays_read)

lemma stays_checkpoint: "quiet E \<Longrightarrow> e_lib E = L \<Longrightarrow> stays R (transact E (\<lambda>x F db. checkpoint_task x tid step st db))"
  by (auto intro!: stays_transact single_step intro: Checkpoint)

lemma stays_start: "quiet E \<Longrightarrow> e_lib E = L \<Longrightarrow> stays R (start_task E tid trc g ws pc acc)"
  unfolding start_task_def
  by (auto intro!: stays_pbind stays_move stays_transact single_step simp: rbind_eq_Inr intro: Create)

lemma stays_host_infer: "quiet E \<Longrightarrow> e_lib E = L \<Longrightarrow> stays R (host_infer n E H tid content caps ts ctx)"
proof -
  assume q: "quiet E" "e_lib E = L"
  have "stays R (ask_gateway E H d content ts tk)" for d tk
    using q by (simp add: stays_def ask_gateway_def Let_def R_tick)
  then have "stays R (routed_infer E H tk pd content caps ts)" for tk pd
    unfolding routed_infer_def using q by (intro stays_fresh stays_pbind stays_read stays_transact set_route_steps)
  then show ?thesis
    unfolding host_infer_def Let_def using q
    by (auto simp: signalled_def intro!: stays_pbind stays_fetch stays_continuity split: option.split)
qed

lemma stays_first_unverified: "quiet E \<Longrightarrow> e_lib E = L \<Longrightarrow> stays R (first_unverified E tid ss)"
  by (induction ss) (auto intro!: stays_attempt stays_read)

lemma stays_resume: "quiet E \<Longrightarrow> e_lib E = L \<Longrightarrow> stays R (resume E tid)"
  unfolding resume_def
  by (auto intro!: stays_pbind stays_fetch stays_read stays_first_unverified stays_move split: option.split)

lemma stays_recovered: "quiet E \<Longrightarrow> e_lib E = L \<Longrightarrow> stays R (recovered E tid tk)"
  unfolding recovered_def by (auto intro!: stays_pbind stays_resume)

lemma stays_park: "quiet E \<Longrightarrow> e_lib E = L \<Longrightarrow> stays R (park E tid e)"
  unfolding park_def by (auto intro!: stays_pbind stays_fetch stays_move)

lemma stays_verify: "quiet E \<Longrightarrow> e_lib E = L \<Longrightarrow> stays R (verify_acceptance E dump tid c ob)"
  unfolding verify_acceptance_def
  by (auto intro!: stays_pbind stays_commit stays_fetch stays_move stays_checkpoint stays_transact single_step
      intro: Bind Observations Check_Acceptance split: option.split)

lemma stays_complete: "quiet E \<Longrightarrow> e_lib E = L \<Longrightarrow> stays R (complete_task E dump tid c ob)"
  unfolding complete_task_def by (auto intro!: stays_pbind stays_fetch stays_verify stays_move)

lemma stays_continued:
  "quiet E \<Longrightarrow> e_lib E = L \<Longrightarrow> (\<And>p. stays R (go_on p)) \<Longrightarrow> stays R (complete_with_one_continuation E dump tid c ob go_on known)"
  unfolding complete_with_one_continuation_def
  by (auto intro!: stays_pbind stays_verify stays_move stays_resume)

end

text \<open>The contract of the broker towards the hosts and workers: an invocation stays in the relation too.\<close>

locale host_relation = ledger_relation +
  assumes stays_invoke: "quiet E \<Longrightarrow> e_lib E = L \<Longrightarrow> stays R (invoke E reg ti tid args apid ph key)"
begin

lemma stays_tool_step: "quiet E \<Longrightarrow> e_lib E = L \<Longrightarrow> stays R (run_tool_step E H tid tool args stop_after key apid ph)"
  unfolding run_tool_step_def
  by (auto intro!: stays_pbind stays_move stays_invoke stays_read stays_checkpoint split: option.split)

lemma stays_execute: "quiet E \<Longrightarrow> e_lib E = L \<Longrightarrow> stays R (execute_tool_and_checkpoint E H tid tool args stop_after key apid ph)"
  unfolding execute_tool_and_checkpoint_def
  by (auto intro!: stays_pbind stays_attempt stays_fetch stays_recovered stays_tool_step stays_park)

end

interpretation hosted: host_relation "ledger_run L" L
  by unfold_locales (auto intro: invoke_ledger)

end
