(* ===== verification/Worker.thy ===== *)
theory Worker imports Agent_Host begin

text \<open>
  dante/worker.py: one task at a time. The worker recovers expired leases, claims a task, inspects
  every earlier effect, resumes the plan where it stopped and completes or releases the task. The
  heartbeat thread and the stop event are surroundings: the heartbeat is among the actors of the
  environment, and \<open>wk_stop\<close> says when the event is set from outside.
\<close>

record worker =
  wk_host :: "nat \<Rightarrow> task \<Rightarrow> agent_host result"
  wk_id :: string
  wk_poll_s :: rat
  wk_lease_s :: rat
  wk_stop :: "nat \<Rightarrow> bool"

definition worker_of ::
  "(nat \<Rightarrow> task \<Rightarrow> agent_host result) \<Rightarrow> string \<Rightarrow> pyfloat \<Rightarrow> pyfloat \<Rightarrow> (nat \<Rightarrow> bool) \<Rightarrow> worker result" where
  "worker_of host uid poll_s lease_s stopped =
     rbind (positive poll_s) (\<lambda>p. rbind (positive lease_s) (\<lambda>d.
       Inr \<lparr>wk_host = host, wk_id = ''worker_'' @ uid, wk_poll_s = p, wk_lease_s = d, wk_stop = stopped\<rparr>))"

definition stopping :: "worker \<Rightarrow> bool prog" where
  "stopping W w = (Inr (wk_stop W (w_tick w)), w)"

definition call_factory :: "worker \<Rightarrow> task \<Rightarrow> agent_host prog" where
  "call_factory W tk w = (wk_host W (w_tick w) tk, w)"

section \<open>Letting a task go\<close>

definition fail_task :: "environment \<Rightarrow> string \<Rightarrow> unit prog" where
  "fail_task E tid =
     pbind (fetch E tid) (\<lambda>tk.
       if status tk \<in> {RUNNING, WAITING_TOOL, VERIFYING}
       then pbind (move E tid FAILED_RETRYABLE (Some ''worker-blocked'') []) (\<lambda>_. ret ()) else ret ())"

definition let_go :: "environment \<Rightarrow> lease \<Rightarrow> string option \<Rightarrow> rat option \<Rightarrow> unit prog" where
  "let_go E l blocked retry_at = commit E (\<lambda>x F db. release x l blocked (map_option Fin retry_at) db)"

text \<open>\<open>except LeaseLost: self.stop.set()\<close>; the result says whether the event was set.\<close>

definition unless_lost :: "unit prog \<Rightarrow> bool prog" where
  "unless_lost m = attempt_prog m (\<lambda>e. if e = LeaseLost then ret True else throw e) (\<lambda>_. ret False)"

definition release_after_failure :: "environment \<Rightarrow> lease \<Rightarrow> string option \<Rightarrow> bool prog" where
  "release_after_failure E l reason =
     unless_lost (pbind (case reason of None \<Rightarrow> ret () | Some _ \<Rightarrow> fail_task E (l_task_id l)) (\<lambda>_. let_go E l reason None))"

section \<open>Working on a claimed task\<close>

fun inspect_steps :: "environment \<Rightarrow> string \<Rightarrow> step_record list \<Rightarrow> unit prog" where
  "inspect_steps E tid [] = ret ()"
| "inspect_steps E tid (s # ss) =
     (if sr_state s = StIntent then inspect_steps E tid ss
      else pbind (query E (\<lambda>x F db. verified_step_result (e_lib E) F db tid (step_id s))) (\<lambda>_. inspect_steps E tid ss))"

definition check_boundary :: "environment \<Rightarrow> lease \<Rightarrow> unit prog" where
  "check_boundary E l = query E (\<lambda>x F db. boundary x l db)"

definition advance_from :: "environment \<Rightarrow> task_status \<Rightarrow> task_status \<Rightarrow> task \<Rightarrow> task prog" where
  "advance_from E old new tk = (if status tk = old then move E (task_id tk) new None [] else ret tk)"

text \<open>Everything before the first new action.\<close>

definition enter_task :: "worker \<Rightarrow> environment \<Rightarrow> lease \<Rightarrow> (agent_host \<times> task) prog" where
  "enter_task W E l =
     pbind (check_boundary E l) (\<lambda>_.
     pbind (fetch E (l_task_id l)) (\<lambda>tk0.
     pbind (advance_from E CREATED PLANNED tk0) (\<lambda>tk1.
     pbind (advance_from E PLANNED RUNNING tk1) (\<lambda>tk.
     pbind (query E (\<lambda>x F db. Inr (steps db (task_id tk)))) (\<lambda>ss.
     pbind (inspect_steps E (task_id tk) ss) (\<lambda>_.
     pbind (call_factory W tk) (\<lambda>H.
     pbind (resume E (task_id tk)) (\<lambda>tk'. ret (H, tk')))))))))"

text \<open>The actions of the plan from \<open>i\<close> on; \<open>False\<close> when the worker was stopped and let the task go.\<close>

fun run_actions ::
  "worker \<Rightarrow> environment \<Rightarrow> agent_host \<Rightarrow> lease \<Rightarrow> string \<Rightarrow> nat \<Rightarrow> plan_action list \<Rightarrow> bool prog" where
  "run_actions W E H l tid i [] = ret True"
| "run_actions W E H l tid i (a # as) =
     pbind (check_boundary E l) (\<lambda>_.
     pbind (stopping W) (\<lambda>stop.
       if stop then pbind (let_go E l None None) (\<lambda>_. ret False)
       else
         case manifest_of (ah_tools H) (act_tool_id a) of
           Inl e \<Rightarrow> throw e
         | Inr m \<Rightarrow>
             if tm_version m \<noteq> act_version a then throw (ToolDenied POLICY_DENIED)
             else
               pbind (execute_tool_and_checkpoint E H tid (act_tool_id a) (act_arguments a) False
                        (Some (''worker-action:'' @ dec_nat i)) (act_approval_id a) (act_plan_hash a)) (\<lambda>_.
               pbind (commit E (\<lambda>x F db. advance x l i db)) (\<lambda>_. run_actions W E H l tid (Suc i) as))))"

definition finish_task :: "worker \<Rightarrow> environment \<Rightarrow> lease \<Rightarrow> string \<Rightarrow> unit prog" where
  "finish_task W E l tid =
     pbind (check_boundary E l) (\<lambda>_.
     pbind (stopping W) (\<lambda>stop.
       if stop then let_go E l None None
       else
         pbind (complete_task E (\<lambda>_. []) tid None None) (\<lambda>tk.
           let_go E l (if status tk = COMPLETED then None else Some ''acceptance_incomplete'') None)))"

definition work_on :: "worker \<Rightarrow> environment \<Rightarrow> lease \<Rightarrow> unit prog" where
  "work_on W E l =
     pbind (enter_task W E l) (\<lambda>(H, tk).
     pbind (query E (\<lambda>x F db. queue_plan db (task_id tk))) (\<lambda>plan.
     pbind (query E (\<lambda>x F db. queue_status db (task_id tk))) (\<lambda>(row, _).
     pbind (run_actions W E H l (task_id tk) (q_next_action row) (drop (q_next_action row) (plan_actions plan))) (\<lambda>go_on.
       if go_on then finish_task W E l (task_id tk) else ret ()))))"

section \<open>Exceptions\<close>

definition end_for_good :: "environment \<Rightarrow> lease \<Rightarrow> string \<Rightarrow> unit prog" where
  "end_for_good E l reason =
     pbind (fetch E (l_task_id l)) (\<lambda>tk.
     pbind (if status tk = FAILED_RETRYABLE then pbind (move E (l_task_id l) RUNNING None []) (\<lambda>_. ret ()) else ret ()) (\<lambda>_.
     pbind (move E (l_task_id l) FAILED_TERMINAL (Some reason) []) (\<lambda>_. let_go E l None None)))"

text \<open>The \<open>except\<close> clauses, in order; the result says whether the worker is to stop.\<close>

definition handle_failure :: "environment \<Rightarrow> lease \<Rightarrow> exn \<Rightarrow> bool prog" where
  "handle_failure E l e =
     (case e of
        ContinuitySignal d reason retry_at \<Rightarrow>
          if d = RetryLater then unless_lost (pbind (fail_task E (l_task_id l)) (\<lambda>_. let_go E l (Some reason) retry_at))
          else if d = Terminal then unless_lost (end_for_good E l reason)
          else release_after_failure E l (Some ''invalid_continuity_signal'')
      | CancellationRequested \<Rightarrow> release_after_failure E l None
      | ReconciliationRequired \<Rightarrow> release_after_failure E l (Some ''reconciliation_required'')
      | ToolDenied s \<Rightarrow> release_after_failure E l (Some (tool_status_value s))
      | LeaseLost \<Rightarrow> ret True
      | _ \<Rightarrow> release_after_failure E l (Some ''worker_failure''))"

section \<open>The worker\<close>

definition owning :: "environment \<Rightarrow> lease \<Rightarrow> environment" where
  "owning E l = E\<lparr>e_owner := Some l\<rparr>"

text \<open>The result of \<open>run_once\<close>, and whether it set the stop event.\<close>

definition run_once :: "worker \<Rightarrow> environment \<Rightarrow> (bool \<times> bool) prog" where
  "run_once W E =
     pbind (stopping W) (\<lambda>stop.
       if stop then ret (False, False)
       else
         pbind (transact E (\<lambda>x F db. recover_expired x db)) (\<lambda>_.
         pbind (transact E (\<lambda>x F db. claim x (wk_id W) (Fin (wk_lease_s W)) db)) (\<lambda>c.
           case c of
             None \<Rightarrow> ret (False, False)
           | Some l \<Rightarrow>
               attempt_prog (work_on W (owning E l) l)
                 (\<lambda>e. pbind (handle_failure (owning E l) l e) (\<lambda>st. ret (True, st)))
                 (\<lambda>_. ret (True, False)))))"

definition wait_poll :: "environment \<Rightarrow> unit prog" where
  "wait_poll E w = (Inr (), tick E w)"

text \<open>\<open>run\<close> for \<open>n\<close> rounds; \<open>stopped\<close> is the part of the event the worker set itself.\<close>

fun worker_run :: "nat \<Rightarrow> worker \<Rightarrow> environment \<Rightarrow> bool \<Rightarrow> unit option prog" where
  "worker_run 0 W E stopped = ret None"
| "worker_run (Suc n) W E stopped =
     pbind (stopping W) (\<lambda>stop.
       if stop \<or> stopped then ret (Some ())
       else
         pbind (run_once W E) (\<lambda>(worked, st).
         pbind (if worked then ret () else wait_poll E) (\<lambda>_. worker_run n W E st)))"

section \<open>What a worker does to the world\<close>

lemma pickup_steps:
  "steps_of_op L (\<lambda>x F db. recover_expired x db)" "steps_of_op L (\<lambda>x F db. claim x w d db)"
  by (rule single_step, erule Recover) (rule single_step, erule Claim)

context ledger_relation
begin

lemma stays_stopping: "stays R (stopping W)" "stays R (call_factory W tk)"
  by (simp_all add: stays_def stopping_def call_factory_def R_refl)

lemma stays_fail_task: "quiet E \<Longrightarrow> e_lib E = L \<Longrightarrow> stays R (fail_task E tid)"
  unfolding fail_task_def by (auto intro!: stays_pbind stays_fetch stays_move)

lemma stays_let_go: "quiet E \<Longrightarrow> e_lib E = L \<Longrightarrow> stays R (let_go E l b t)"
  unfolding let_go_def by (auto intro!: stays_commit intro: Release)

lemma stays_unless_lost: "stays R m \<Longrightarrow> stays R (unless_lost m)"
  unfolding unless_lost_def by (auto intro!: stays_attempt)

lemma stays_handle_failure: "quiet E \<Longrightarrow> e_lib E = L \<Longrightarrow> stays R (handle_failure E l e)"
  unfolding handle_failure_def release_after_failure_def end_for_good_def
  by (cases e)
     (auto intro!: stays_unless_lost stays_pbind stays_fail_task stays_let_go stays_fetch stays_move split: option.split)

lemma stays_boundary: "quiet E \<Longrightarrow> e_lib E = L \<Longrightarrow> stays R (check_boundary E l)"
  unfolding check_boundary_def by (rule stays_read)

lemma stays_inspect: "quiet E \<Longrightarrow> e_lib E = L \<Longrightarrow> stays R (inspect_steps E tid ss)"
  by (induction ss) (auto intro!: stays_pbind stays_read)

lemma stays_enter: "quiet E \<Longrightarrow> e_lib E = L \<Longrightarrow> stays R (enter_task W E l)"
  unfolding enter_task_def advance_from_def
  by (auto intro!: stays_pbind stays_boundary stays_fetch stays_move stays_read stays_inspect stays_stopping stays_resume)

end

context host_relation
begin

lemma stays_actions: "quiet E \<Longrightarrow> e_lib E = L \<Longrightarrow> stays R (run_actions W E H l tid i as)"
  by (induction as arbitrary: i)
     (auto intro!: stays_pbind stays_boundary stays_stopping stays_let_go stays_execute stays_commit
       intro: Advance split: sum.split)

lemma stays_work: "quiet E \<Longrightarrow> e_lib E = L \<Longrightarrow> stays R (work_on W E l)"
  unfolding work_on_def finish_task_def
  by (auto intro!: stays_pbind stays_enter stays_read stays_actions stays_boundary stays_stopping stays_let_go
      stays_complete split: prod.split)

lemma stays_run_once: "quiet E \<Longrightarrow> e_lib E = L \<Longrightarrow> stays R (run_once W E)"
proof -
  assume q: "quiet E" "e_lib E = L"
  then have own: "quiet (owning E l)" "e_lib (owning E l) = L" for l by (simp_all add: quiet_def owning_def)
  show ?thesis
    unfolding run_once_def
    by (auto intro!: stays_pbind stays_stopping stays_transact q own stays_attempt stays_work stays_handle_failure
        pickup_steps split: option.split)
qed

lemma stays_worker_run: "quiet E \<Longrightarrow> e_lib E = L \<Longrightarrow> stays R (worker_run n W E st)"
proof (induction n arbitrary: st)
  case (Suc n)
  then have "stays R (wait_poll E)" by (simp add: stays_def wait_poll_def R_tick)
  with Suc show ?case by (auto intro!: stays_pbind stays_stopping stays_run_once split: prod.split)
qed simp

end

end
