(* ===== verification/Host_Effects.thy ===== *)
theory Host_Effects imports Worker Program_Examples begin

text \<open>
  What hosts and workers guarantee beyond the single invocation: every handler call is paid for by a
  journalled step that left its intent for good, and no new action starts before every earlier effect
  of the task has been verified.
\<close>

section \<open>Calls and spent steps\<close>

definition spent_ids :: "db \<Rightarrow> string set" where
  "spent_ids db = {sid. \<exists>s. t_get (execution_steps db) sid = Some s \<and> sr_state s \<noteq> StIntent}"

definition spent_count :: "db \<Rightarrow> nat" where
  "spent_count db = length (filter (\<lambda>s. sr_state s \<noteq> StIntent) (t_rows (execution_steps db)))"

lemma spent_ids_set: "t_wf (execution_steps db) \<Longrightarrow> spent_ids db = fst ` set (filter (\<lambda>r. sr_state (snd r) \<noteq> StIntent) (execution_steps db))"
  unfolding spent_ids_def by (force dest: t_get_in_set t_wf_get)

lemma spent_count_card:
  assumes "t_wf (execution_steps db)"
  shows "spent_count db = card (spent_ids db)"
proof -
  let ?xs = "filter (\<lambda>r. sr_state (snd r) \<noteq> StIntent) (execution_steps db)"
  have "distinct (map fst ?xs)" using assms by (simp add: t_wf_def distinct_map_filter)
  then have "card (fst ` set ?xs) = length ?xs" using distinct_card [of "map fst ?xs"] by simp
  with assms show ?thesis
    by (simp add: spent_ids_set spent_count_def t_rows_def filter_map comp_def)
qed

lemma spent_ids_finite: "t_wf (execution_steps db) \<Longrightarrow> finite (spent_ids db)"
  by (simp add: spent_ids_set)

lemma spent_ids_moves: "journal_moves db db' \<Longrightarrow> spent_ids db \<subseteq> spent_ids db'"
  unfolding spent_ids_def journal_moves_def using budget_spent by blast

lemma sound_wf: "sound L db \<Longrightarrow> t_wf (execution_steps db)"
  by (simp add: sound_def journal_ok_def)

lemma spent_count_mono:
  assumes "sound L db" "sound L db'" "journal_moves db db'"
  shows "spent_count db \<le> spent_count db'"
  using assms by (simp add: spent_count_card sound_wf card_mono spent_ids_finite spent_ids_moves)

lemma spent_count_grows:
  assumes "sound L db" "sound L db'" "journal_moves db db'" "\<not> spent db t k" "spent db' t k"
  shows "spent_count db < spent_count db'"
proof -
  from assms(2,5) obtain sid s' where s': "t_get (execution_steps db') sid = Some s'" "sr_task_id s' = t"
      "idempotency_key s' = k" "sr_state s' \<noteq> StIntent"
    by (auto simp: sound_def spent_iff)
  have "sid \<notin> spent_ids db"
  proof
    assume "sid \<in> spent_ids db"
    then obtain s where s: "t_get (execution_steps db) sid = Some s" "sr_state s \<noteq> StIntent" by (auto simp: spent_ids_def)
    with assms(3) s'(1) have "same_step s s'" by (fastforce simp: journal_moves_def step_moves_def)
    with s s' assms(1,4) show False by (auto simp: sound_def spent_iff same_step_def)
  qed
  moreover have "sid \<in> spent_ids db'" using s' by (auto simp: spent_ids_def)
  ultimately have "spent_ids db \<subset> spent_ids db'" using spent_ids_moves [OF assms(3)] by blast
  with assms(1,2) show ?thesis by (simp add: spent_count_card sound_wf psubset_card_mono spent_ids_finite)
qed

text \<open>No call without a step that left its intent.\<close>

definition paid :: "pylib \<Rightarrow> world \<Rightarrow> world \<Rightarrow> bool" where
  "paid L w w' \<longleftrightarrow> (sound L (w_db w) \<longrightarrow>
     sound L (w_db w') \<and> journal_moves (w_db w) (w_db w')
     \<and> length (w_runs w') + spent_count (w_db w) \<le> length (w_runs w) + spent_count (w_db w'))"

lemma paid_once:
  assumes "once L t k w w'"
  shows "paid L w w'"
  unfolding paid_def
proof
  assume sd: "sound L (w_db w)"
  with assms have s: "sound L (w_db w')" "journal_moves (w_db w) (w_db w')" by (auto simp: once_def)
  from assms sd consider "no_call w w'"
    | "\<not> spent (w_db w) t k" "spent (w_db w') t k" "length (w_runs w') = Suc (length (w_runs w))"
    by (auto simp: once_def)
  then show "sound L (w_db w') \<and> journal_moves (w_db w) (w_db w')
     \<and> length (w_runs w') + spent_count (w_db w) \<le> length (w_runs w) + spent_count (w_db w')"
    by cases (use s spent_count_mono [OF sd s] spent_count_grows [OF sd s, of t k] in \<open>auto simp: no_call_def\<close>)
qed

lemma paid_trans: "paid L w1 w2 \<Longrightarrow> paid L w2 w3 \<Longrightarrow> paid L w1 w3"
  unfolding paid_def using journal_moves_trans by fastforce

interpretation paying: ledger_relation "paid L" L
proof unfold_locales
  show "paid L w w" for w by (simp add: paid_def)
  show "paid L w1 w3" if "paid L w1 w2" "paid L w2 w3" for w1 w2 w3 using that by (rule paid_trans)
  show "paid L w w'" if "ledger_run L w w'" "no_call w w'" for w w' using that by (rule paid_once [OF once_silent])
qed

text \<open>An invocation whose key does not exist prepares no step and runs nothing.\<close>

lemma attempt_never:
  assumes "gives (\<lambda>_. False) m" "stays R m" "\<And>e. stays R (h e)" "world_relation R"
  shows "stays R (attempt_prog m h k)"
  unfolding stays_def
proof
  fix w
  obtain r w1 where m: "m w = (r, w1)" by (cases "m w")
  with assms(1) obtain e where "r = Inl e" by (cases r) (auto simp: gives_def)
  have "R w w1" "R w1 (snd (h e w1))"
    using assms(2,3) m by (auto simp: stays_def dest: spec [of _ w])
  then have "R w (snd (h e w1))" by (rule world_relation.R_trans [OF assms(4)])
  then show "R w (snd (attempt_prog m h k w))" using m \<open>r = Inl e\<close> by (simp add: attempt_prog_def)
qed

lemma escape_silent: "stays no_call (escape E tk step e)"
  by (auto simp: escape_def intro!: silent.stays_if silent.stays_option silent.stays_pbind)

lemma invoke_keyless:
  assumes "invocation_key (e_lib E) reg tid args0 key = Inl err"
  shows "stays no_call (invoke E reg ti tid args0 apid ph key)"
proof -
  have rec: "stays no_call (record_outcome E tk tid r sid)" for tk r sid by (simp add: record_outcome_def)
  have fin: "stays no_call (finish_invoke E tk tid r step)" for tk r step
    unfolding finish_invoke_def Let_def by (auto intro!: silent.stays_pbind rec)
  have "stays no_call (journalled E reg tk m tid args apid ph key step)"
    if "json_copy (PDict args0) = PDict args" "manifest_of reg tid = Inr m" for tk m args step
  proof -
    have "gives (\<lambda>_. False) (with_fresh E (\<lambda>sid. transact E (\<lambda>x F db.
        prepare_step (e_lib E) x sid (task_id tk) tid (tm_version m) args key db)))"
      using assms that
      by (auto simp: gives_def with_fresh_def invocation_key_def elim!: transact_Inr dest!: prepare_needs_key)
    then have P: "stays no_call (attempt_prog (with_fresh E (\<lambda>sid. transact E (\<lambda>x F db.
        prepare_step (e_lib E) x sid (task_id tk) tid (tm_version m) args key db))) (escape E tk step) k)" for k
      by (rule attempt_never) (auto intro: silent.stays_fresh escape_silent silent.world_relation_axioms)
    have "stays no_call (attempt_prog (transact E (\<lambda>x F db. authorize (e_lib E) reg tk tid args apid ph db)) (escape E tk step) (\<lambda>denied.
          case denied of
            Some r \<Rightarrow> ret (r, step)
          | None \<Rightarrow>
              attempt_prog (with_fresh E (\<lambda>sid. transact E (\<lambda>x F db.
                  prepare_step (e_lib E) x sid (task_id tk) tid (tm_version m) args key db))) (escape E tk step) (\<lambda>s.
              attempt_prog (perform E reg tk tid args s) (escape E tk (Some s)) (\<lambda>r. ret (r, Some s)))))"
      by (intro silent.stays_attempt [OF transact_silent escape_silent] silent.stays_option P silent.stays_ret)
    then show ?thesis
      unfolding journalled_def Let_def
      by (auto intro!: silent.stays_attempt [OF query_silent escape_silent] split: option.splits step_state.splits)
  qed
  then show ?thesis
    unfolding invoke_def Let_def
    by (auto intro!: silent.stays_pbind silent.stays_attempt rec fin split: sum.split option.split pyval.split)
qed

interpretation paying: host_relation "paid L" L
proof unfold_locales
  show "stays (paid L) (invoke E reg ti tid args apid ph key)" if q: "quiet E" "e_lib E = L" for E reg ti tid args apid ph key
  proof (cases "invocation_key L reg tid args key")
    case (Inl err)
    with q invoke_keyless [of E] invoke_ledger [of E] show ?thesis
      unfolding stays_def by (metis paying.R_ledger)
  next
    case (Inr k)
    with q invoke_once [of E] show ?thesis unfolding stays_def by (metis paid_once)
  qed
qed

interpretation silent: ledger_relation no_call L
  by unfold_locales

section \<open>Earlier effects\<close>

definition settled :: "db \<Rightarrow> string \<Rightarrow> bool" where
  "settled db sid \<longleftrightarrow> (\<exists>s. t_get (execution_steps db) sid = Some s \<and> sr_state s = StSucceeded)"

text \<open>Every step of the task that had begun in \<open>db\<close> has succeeded in \<open>db'\<close>.\<close>

definition effects_settled :: "db \<Rightarrow> string \<Rightarrow> db \<Rightarrow> bool" where
  "effects_settled db tid db' \<longleftrightarrow>
     (\<forall>sid s. t_get (execution_steps db) sid = Some s \<longrightarrow> sr_task_id s = tid \<longrightarrow> sr_state s \<noteq> StIntent \<longrightarrow> settled db' sid)"

lemma settled_moves: "settled db sid \<Longrightarrow> journal_moves db db' \<Longrightarrow> settled db' sid"
  unfolding settled_def journal_moves_def step_moves_def by blast

lemma effects_settled_moves: "effects_settled db tid db1 \<Longrightarrow> journal_moves db1 db' \<Longrightarrow> effects_settled db tid db'"
  by (auto simp: effects_settled_def intro: settled_moves)

lemma effects_settled_earlier: "journal_moves db db1 \<Longrightarrow> effects_settled db1 tid db' \<Longrightarrow> effects_settled db tid db'"
  unfolding effects_settled_def
proof (intro allI impI)
  fix sid s
  assume m: "journal_moves db db1" "\<forall>sid s. t_get (execution_steps db1) sid = Some s \<longrightarrow> sr_task_id s = tid \<longrightarrow> sr_state s \<noteq> StIntent \<longrightarrow> settled db' sid"
    and s: "t_get (execution_steps db) sid = Some s" "sr_task_id s = tid" "sr_state s \<noteq> StIntent"
  from m(1) s(1) obtain s1 where "t_get (execution_steps db1) sid = Some s1" "step_moves s s1" by (auto simp: journal_moves_def)
  with m(2) s budget_spent [of s s1] show "settled db' sid" by (simp add: step_moves_def same_step_def)
qed

lemma run_moves: "ledger_run L w w' \<Longrightarrow> journal_moves (w_db w) (w_db w')"
  unfolding ledger_run_def by (rule claims.run_rel) simp_all

lemma verified_settles:
  assumes "query E (\<lambda>x F db. verified_step_result (e_lib E) F db tid sid) w = (Inr d, w')"
  shows "settled (w_db w') sid"
  using query_Inr [OF assms]
  by (auto simp: verified_step_result_def get_step_Inr verified_receipt_Inr settled_def elim!: rbindE)

lemma inspect_settles:
  assumes "quiet E" "inspect_steps E tid ss w = (Inr u, w')" "s \<in> set ss" "sr_state s \<noteq> StIntent"
  shows "settled (w_db w') (step_id s)"
  using assms(2,3)
proof (induction ss arbitrary: w)
  case (Cons a ss)
  show ?case
  proof (cases "sr_state a = StIntent")
    case True
    with Cons assms(4) show ?thesis by auto
  next
    case False
    with Cons.prems(1) obtain d w1 where w1: "query E (\<lambda>x F db. verified_step_result (e_lib E) F db tid (step_id a)) w = (Inr d, w1)"
        "inspect_steps E tid ss w1 = (Inr u, w')"
      by (auto elim: pbindE)
    have "journal_moves (w_db w1) (w_db w')"
      by (rule run_moves [OF ledger.stays_run [OF running.stays_inspect [OF assms(1) refl] w1(2)]])
    with verified_settles [OF w1(1)] have "settled (w_db w') (step_id a)" by (rule settled_moves)
    with Cons.IH [OF w1(2)] Cons.prems(2) show ?thesis by auto
  qed
qed simp

lemma unverified_settles:
  assumes "quiet E" "first_unverified E tid ss w = (Inr None, w')" "s \<in> set ss" "sr_state s \<noteq> StIntent"
  shows "settled (w_db w') (step_id s)"
  using assms(2,3)
proof (induction ss arbitrary: w)
  case (Cons a ss)
  show ?case
  proof (cases "sr_state a = StIntent")
    case True
    with Cons assms(4) show ?thesis by auto
  next
    case False
    with Cons.prems(1) obtain d w1 where w1: "query E (\<lambda>x F db. verified_step_result (e_lib E) F db tid (step_id a)) w = (Inr d, w1)"
        "first_unverified E tid ss w1 = (Inr None, w')"
      by (auto elim!: attemptE simp: ret_def throw_def split: if_splits)
    have "journal_moves (w_db w1) (w_db w')"
      by (rule run_moves [OF ledger.stays_run [OF running.stays_first_unverified [OF assms(1) refl] w1(2)]])
    with verified_settles [OF w1(1)] have "settled (w_db w') (step_id a)" by (rule settled_moves)
    with Cons.IH [OF w1(2)] Cons.prems(2) show ?thesis by auto
  qed
qed simp

text \<open>The list of steps misses none.\<close>

lemma listed_steps:
  assumes "sound L db" "\<And>s. s \<in> set (steps db tid) \<Longrightarrow> sr_state s \<noteq> StIntent \<Longrightarrow> settled db' (step_id s)"
  shows "effects_settled db tid db'"
  unfolding effects_settled_def
proof (intro allI impI)
  fix sid s
  assume s: "t_get (execution_steps db) sid = Some s" "sr_task_id s = tid" "sr_state s \<noteq> StIntent"
  then have "s \<in> set (steps db tid)"
    by (force simp: steps_def steps_of_def t_rows_def dest: t_get_in_set)
  moreover have "step_id s = sid" using assms(1) s(1) by (auto simp: sound_def journal_ok_def)
  ultimately show "settled db' sid" using assms(2) s(3) by auto
qed

lemma move_Inr:
  assumes "move E tid tgt st md w = (Inr tk, w')"
  shows "status tk = tgt" "\<exists>tk0. task_of (w_db (tick E w)) tid = Some tk0 \<and> task_id tk = task_id tk0"
proof -
  from assms obtain F x db db' where "transition (e_lib E) F x tid tgt st md db = Inr (tk, db')" "db = w_db (tick E w)"
    unfolding move_def by (elim transact_Inr) auto
  then show "status tk = tgt" "\<exists>tk0. task_of (w_db (tick E w)) tid = Some tk0 \<and> task_id tk = task_id tk0"
    by (auto elim!: transition_cases)
qed

lemma sound_tick: "quiet E \<Longrightarrow> sound (e_lib E) (w_db w) \<Longrightarrow> sound (e_lib E) (w_db (tick E w)) \<and> journal_moves (w_db w) (w_db (tick E w))"
  using paying.R_tick [of E "e_lib E" w] by (simp add: paid_def)

lemma sound_after: "stays (ledger_run L) m \<Longrightarrow> m w = (r, w') \<Longrightarrow> sound L (w_db w) \<Longrightarrow> sound L (w_db w') \<and> journal_moves (w_db w) (w_db w')"
  using ledger.stays_run [of L m w r w'] sound_run [of L "w_db w" "w_db w'"] by (simp add: ledger_run_def)

lemma fetch_Inr: "fetch E tid w = (Inr tk, w') \<Longrightarrow> quiet E \<Longrightarrow> sound (e_lib E) (w_db w) \<Longrightarrow> task_id tk = tid \<and> w' = tick E w"
  unfolding fetch_def using query_Inr [of E _ w tk w'] sound_tick [of E w]
  by (force simp: get_task_Inr sound_def tasks_keyed_def)

lemma move_task_id:
  "move E tid tgt st md w = (Inr tk, w') \<Longrightarrow> quiet E \<Longrightarrow> sound (e_lib E) (w_db w) \<Longrightarrow> task_id tk = tid"
  using move_Inr(2) [of E tid tgt st md w tk w'] sound_tick [of E w] by (auto simp: sound_def tasks_keyed_def)

text \<open>A resumed task that runs has no earlier effect left open.\<close>

lemma resume_settles:
  assumes q: "quiet E" and sd: "sound (e_lib E) (w_db w)" and r: "resume E tid w = (Inr tk, w')" "status tk = RUNNING"
  shows "effects_settled (w_db w) tid (w_db w')"
proof -
  from r(1) obtain tk0 w1 ss w2 bad w3 where s: "fetch E tid w = (Inr tk0, w1)"
      "query E (\<lambda>x F db. Inr (steps db tid)) w1 = (Inr ss, w2)" "first_unverified E tid ss w2 = (Inr bad, w3)"
      "(case bad of
         Some s \<Rightarrow>
           if status tk0 \<in> {RUNNING, WAITING_TOOL, VERIFYING}
           then move E tid FAILED_RETRYABLE (Some (''reconcile:'' @ step_id s)) [] else ret tk0
       | None \<Rightarrow>
           if status tk0 \<in> {WAITING_TOOL, FAILED_RETRYABLE} then move E tid RUNNING (Some ''resumed'') []
           else ret tk0) w3 = (Inr tk, w')"
    unfolding resume_def by (elim pbindE)
  have "bad = None"
    using s(4) r(2) move_Inr(1) by (fastforce simp: ret_def split: option.splits if_splits)
  note m1 = sound_after [OF running.stays_fetch [OF q refl] s(1) sd]
  from query_Inr [OF s(2)] have w2: "ss = steps (w_db w2) tid" "w2 = tick E w1" by auto
  from m1 sound_tick [OF q] w2(2) have m2: "sound (e_lib E) (w_db w2)" "journal_moves (w_db w) (w_db w2)"
    using journal_moves_trans by blast+
  have "effects_settled (w_db w2) tid (w_db w3)"
    using unverified_settles [OF q s(3) [unfolded \<open>bad = None\<close>]] w2(1) by (intro listed_steps [OF m2(1)]) auto
  then have "effects_settled (w_db w) tid (w_db w3)" by (rule effects_settled_earlier [OF m2(2)])
  moreover have "ledger_run (e_lib E) w3 w'"
    using s(4) by (rule ledger.stays_run [rotated]) (auto intro!: running.stays_move q split: option.split)
  ultimately show ?thesis by (rule effects_settled_moves [OF _ run_moves])
qed

lemma advance_from_task:
  assumes "advance_from E old new tk w = (Inr tk', w')" "quiet E" "sound (e_lib E) (w_db w)"
  shows "task_id tk' = task_id tk" "sound (e_lib E) (w_db w')" "journal_moves (w_db w) (w_db w')"
proof -
  show "task_id tk' = task_id tk"
    using assms move_task_id by (auto simp: advance_from_def ret_def split: if_splits)
  have "stays (ledger_run (e_lib E)) (advance_from E old new tk)"
    using assms(2) by (auto simp: advance_from_def running.stays_move)
  from sound_after [OF this assms(1,3)] show "sound (e_lib E) (w_db w')" "journal_moves (w_db w) (w_db w')" by auto
qed

lemma enter_settles:
  assumes q: "quiet E" and sd: "sound (e_lib E) (w_db w)" and r: "enter_task W E l w = (Inr Htk, w')"
  shows "effects_settled (w_db w) (l_task_id l) (w_db w')"
proof -
  from r obtain u w1 tk0 w2 tk1 w3 tk w4 ss w5 v w6 H w7 tk' w8 where s: "check_boundary E l w = (Inr u, w1)"
      "fetch E (l_task_id l) w1 = (Inr tk0, w2)" "advance_from E CREATED PLANNED tk0 w2 = (Inr tk1, w3)"
      "advance_from E PLANNED RUNNING tk1 w3 = (Inr tk, w4)" "query E (\<lambda>x F db. Inr (steps db (task_id tk))) w4 = (Inr ss, w5)"
      "inspect_steps E (task_id tk) ss w5 = (Inr v, w6)"
      "call_factory W tk w6 = (Inr H, w7)" "resume E (task_id tk) w7 = (Inr tk', w8)" "ret (H, tk') w8 = (Inr Htk, w')"
    unfolding enter_task_def by (elim pbindE)
  note m1 = sound_after [OF running.stays_boundary [OF q refl] s(1) sd]
  note m2 = sound_after [OF running.stays_fetch [OF q refl] s(2) m1 [THEN conjunct1]]
  note m3 = advance_from_task [OF s(3) q m2 [THEN conjunct1]]
  note m4 = advance_from_task [OF s(4) q m3(2)]
  have tk: "task_id tk = l_task_id l" using fetch_Inr [OF s(2) q m1 [THEN conjunct1]] m3(1) m4(1) by simp
  from query_Inr [OF s(5)] have w5: "ss = steps (w_db w5) (task_id tk)" "w5 = tick E w4" by auto
  have m5: "sound (e_lib E) (w_db w5)" "journal_moves (w_db w) (w_db w5)"
    using m1 m2 m3(3) m4(2,3) sound_tick [OF q, of w4] w5(2) by (meson journal_moves_trans)+
  have "effects_settled (w_db w5) (l_task_id l) (w_db w6)"
    using inspect_settles [OF q s(6)] w5(1) tk by (intro listed_steps [OF m5(1)]) auto
  then have "effects_settled (w_db w) (l_task_id l) (w_db w6)" by (rule effects_settled_earlier [OF m5(2)])
  moreover have "ledger_run (e_lib E) w6 w'"
    using s(7,9) ledger.stays_run [OF running.stays_resume [OF q refl] s(8)] by (simp add: call_factory_def ret_def)
  ultimately show ?thesis by (rule effects_settled_moves [OF _ run_moves])
qed

section \<open>What a failed tool leaves\<close>

lemma transition_fails:
  assumes "transition L F x tid tgt st md db = Inl err" "leases_dated db" "tasks_keyed db" "task_of db tid = Some tk"
    and "tgt \<in> set (TRANSITIONS (status tk))" "tgt \<noteq> COMPLETED"
  shows "err = LeaseLost"
proof (cases "assert_lease x db tid False None")
  case (Inl e)
  with assms(2) have "e = LeaseLost" by (auto simp: assert_lease_def dest: leases_datedD split: option.splits if_splits)
  with assms(1) Inl show ?thesis by (simp add: transition_def)
next
  case (Inr r)
  have k: "task_id tk = tid" "t_get (tasks db) tid \<noteq> None"
    using assms(3,4) task_of_None [of db tid] by (auto simp: tasks_keyed_def)
  have "is_ok (transition L F x tid tgt st md db)"
  proof (cases "status tk = tgt")
    case True
    then show ?thesis by (simp add: transition_def Inr assms(4,6))
  next
    case False
    then show ?thesis by (simp add: transition_def Inr assms(4-6) Let_def add_event_def k)
  qed
  with assms(1) show ?thesis by simp
qed

lemma move_status:
  assumes "move E tid tgt st md w = (Inr tk, w')"
  shows "status_of (w_db w') tid = Some tgt"
proof -
  from assms obtain F x db db' where t: "transition (e_lib E) F x tid tgt st md db = Inr (tk, db')" "w_db w' = db'"
    unfolding move_def by (elim transact_Inr) auto
  from t(1) show ?thesis
    unfolding t(2) by (cases rule: transition_cases) (auto simp: status_of_def add_event_Inr task_of_def put_task_def t_get_upd)
qed

definition queue_sound :: "db \<Rightarrow> bool" where
  "queue_sound db \<longleftrightarrow> t_wf (task_queue db) \<and> leases_dated db"

lemma queue_sound_run: "ledger_run L w w' \<Longrightarrow> queue_sound (w_db w) \<Longrightarrow> queue_sound (w_db w')"
  using queues.run_inv [of L "w_db w" "w_db w'"] ledger_repair by (simp add: queue_sound_def ledger_run_def)

lemma task_tick: "undisturbed E tid \<Longrightarrow> task_of (w_db (tick E w)) tid = task_of (w_db w) tid"
  by (simp add: task_of_def tick_def undisturbed_def)

lemma fetch_fails: "fetch E tid w = (Inl e, w') \<Longrightarrow> e = KeyError"
  by (auto simp: fetch_def query_def transact_def Let_def get_task_def rbind_eq_Inl of_opt_eq_Inl split: sum.splits)

lemma fetch_task: "fetch E tid w = (Inr tk, w') \<Longrightarrow> task_of (w_db w') tid = Some tk"
  using query_Inr [of E "\<lambda>x F db. get_task db tid" w tk w'] by (simp add: fetch_def get_task_Inr)

lemma park_parks:
  assumes "undisturbed E tid" "quiet E" "sound (e_lib E) (w_db w)" "queue_sound (w_db w)"
    and p: "park E tid e0 w = (Inl e, w')" "e \<noteq> KeyError" "e \<noteq> LeaseLost"
  shows "status_of (w_db w') tid \<notin> {Some RUNNING, Some WAITING_TOOL}"
proof -
  obtain r w1 where f: "fetch E tid w = (r, w1)" by (cases "fetch E tid w")
  with p fetch_fails obtain tk where r: "r = Inr tk" by (cases r) (auto simp: park_def pbind_def)
  note tk = fetch_task [OF f [unfolded r]]
  have run: "ledger_run (e_lib E) w w1" using f by (rule ledger.stays_run [OF running.stays_fetch [OF assms(2) refl]])
  show ?thesis
  proof (cases "status tk \<in> {RUNNING, WAITING_TOOL}")
    case False
    with p(1) f r have "w' = w1" by (auto simp: park_def pbind_def ret_def throw_def)
    with tk False show ?thesis by (auto simp: status_of_def)
  next
    case True
    obtain r2 w2 where m: "move E tid FAILED_RETRYABLE (Some ''reconcile-or-retry'') [] w1 = (r2, w2)"
      by (cases "move E tid FAILED_RETRYABLE (Some ''reconcile-or-retry'') [] w1")
    from True p(1) f r m have w': "w' = w2" "r2 = Inl e \<or> (\<exists>a. r2 = Inr a)"
      by (cases r2; auto simp: park_def pbind_def ret_def throw_def)+
    have tick: "ledger_run (e_lib E) w (tick E w1)"
      using run running.R_tick [OF assms(2) refl] by (rule ledger.R_trans)
    with assms(3) have "sound (e_lib E) (w_db (tick E w1))" using sound_run by (auto simp: ledger_run_def)
    moreover have "queue_sound (w_db (tick E w1))" using tick assms(4) by (rule queue_sound_run)
    moreover have "task_of (w_db (tick E w1)) tid = Some tk" using tk task_tick [OF assms(1)] by simp
    moreover have "FAILED_RETRYABLE \<in> set (TRANSITIONS (status tk))" using True by auto
    ultimately have "transition (e_lib E) F x tid FAILED_RETRYABLE (Some ''reconcile-or-retry'') [] (w_db (tick E w1)) = Inl err
        \<Longrightarrow> err = LeaseLost" for F x err
      by (auto simp: sound_def queue_sound_def intro: transition_fails)
    with m p(3) w'(2) obtain a where "r2 = Inr a"
      by (auto simp: move_def transact_def Let_def split: sum.splits)
    with m w'(1) move_status show ?thesis by fastforce
  qed
qed

lemma step_leaves_running:
  assumes "run_tool_step E H tid tool args False key apid ph w = (Inr d, w')"
  shows "status_of (w_db w') tid = Some RUNNING"
  using assms unfolding run_tool_step_def
  by (auto elim!: pbindE simp: ret_def throw_def split: if_splits option.splits) (rule move_status)

section \<open>What escapes a worker\<close>

definition throws_only :: "exn set \<Rightarrow> 'a prog \<Rightarrow> bool" where
  "throws_only S m \<longleftrightarrow> (\<forall>w e w'. m w = (Inl e, w') \<longrightarrow> e \<in> S)"

lemma throws_ret: "throws_only S (ret a)" "throws_only S (stopping W)"
  by (simp_all add: throws_only_def ret_def stopping_def)

lemma throws_throw: "e \<in> S \<Longrightarrow> throws_only S (throw e)"
  by (simp add: throws_only_def throw_def)

lemma throws_pbind: "throws_only S m \<Longrightarrow> (\<And>a. throws_only S (f a)) \<Longrightarrow> throws_only S (pbind m f)"
  unfolding throws_only_def pbind_def by (fastforce split: prod.splits sum.splits)

lemma throws_attempt: "(\<And>e. throws_only S (h e)) \<Longrightarrow> (\<And>a. throws_only S (k a)) \<Longrightarrow> throws_only S (attempt_prog m h k)"
  unfolding throws_only_def attempt_prog_def by (fastforce split: prod.splits sum.splits)

lemma throws_transact: "(\<And>x F db. raises_only S (f x F db)) \<Longrightarrow> throws_only S (transact E f)"
  unfolding throws_only_def transact_def raises_only_def by (auto simp: Let_def split: sum.splits)

lemma raises_events:
  assumes "TypeError \<in> S" "IntegrityError \<in> S"
  shows "raises_only S (queue_event x tid e m db)" "raises_only S (add_event x tk e p m db)"
  unfolding queue_event_def using assms by (auto intro!: raises simp: add_event_def)

lemma recover_raises: 
  assumes "TypeError \<in> S" "IntegrityError \<in> S" "ValueError \<in> S"
  shows "raises_only S (recover_expired x db)"
proof -
  have "raises_only S (recover_row x kr db)" for kr db
    unfolding recover_row_def cancel_task_def Let_def using assms
    by (auto intro!: raises raises_events split: prod.split)
  then have "raises_only S (recover_rows x krs db)" for krs db
    by (induction krs arbitrary: db) (auto intro!: raises)
  then show ?thesis unfolding recover_expired_def Let_def by (auto intro!: raises)
qed

lemma claim_raises:
  assumes "TypeError \<in> S" "IntegrityError \<in> S" "ValueError \<in> S"
  shows "raises_only S (claim x w d db)"
  unfolding claim_def Let_def positive_def using assms
  by (auto intro!: raises raises_events split: pyfloat.split option.split prod.split)

lemma handle_failure_throws: "throws_only (- {LeaseLost}) (handle_failure E l e)"
proof -
  have "throws_only (- {LeaseLost}) (unless_lost m)" for m
    unfolding unless_lost_def by (auto intro!: throws_attempt throws_ret throws_throw)
  then show ?thesis
    unfolding handle_failure_def release_after_failure_def by (auto intro: throws_ret split: exn.split)
qed

section \<open>The properties\<close>

text \<open>
  C29 (effects are paid for). Whatever the workers of other processes do meanwhile, a worker that runs
  for any number of rounds calls a tool handler at most as often as steps of the journal leave their
  intent, and a step that left it never returns: no handler runs without a durable record that it may
  have run.
\<close>

theorem worker_effects_paid:
  assumes "quiet E" "sound (e_lib E) (w_db w)"
  shows "let w' = snd (worker_run n W E stopped w) in
     sound (e_lib E) (w_db w') \<and> journal_moves (w_db w) (w_db w')
     \<and> length (w_runs w') + spent_count (w_db w) \<le> length (w_runs w) + spent_count (w_db w')"
proof -
  have "stays (paid (e_lib E)) (worker_run n W E stopped)" by (rule paying.stays_worker_run [OF assms(1) refl])
  from paying.stays_snd [OF this, of w] assms(2) show ?thesis by (simp add: paid_def Let_def)
qed

text \<open>
  C30 (earlier effects first). When a worker has called a handler for the task it claimed, every step of
  that task which had begun before, in whatever process, has succeeded: started and uncertain effects
  stop the worker before it acts.
\<close>

theorem worker_inspects_first:
  assumes "quiet E" "sound (e_lib E) (w_db w)" "w_runs (snd (work_on W E l w)) \<noteq> w_runs w"
  shows "effects_settled (w_db w) (l_task_id l) (w_db (snd (work_on W E l w)))"
proof -
  obtain r w1 where e: "enter_task W E l w = (r, w1)" by (cases "enter_task W E l w")
  have "no_call w w1" by (rule silent.stays_run [OF silent.stays_enter [OF assms(1) refl] e])
  with assms(3) e obtain H tk where r: "r = Inr (H, tk)"
    by (cases r) (auto simp: work_on_def pbind_def no_call_def)
  have "effects_settled (w_db w) (l_task_id l) (w_db w1)" by (rule enter_settles [OF assms(1,2) e [unfolded r]])
  moreover have "ledger_run (e_lib E) w1 (snd (work_on W E l w))"
    unfolding work_on_def pbind_Inr [where m = "enter_task W E l", OF e [unfolded r]] finish_task_def
    by (rule ledger.stays_snd)
       (auto intro!: ledger.stays_pbind running.stays_read hosted.stays_actions running.stays_boundary running.stays_stopping
          running.stays_let_go running.stays_complete assms(1) split: prod.split)
  ultimately show ?thesis by (rule effects_settled_moves [OF _ run_moves])
qed

text \<open>
  C31 (resuming needs evidence). When \<open>resume\<close> puts or leaves a task in RUNNING, every step of the task
  that had begun before has succeeded, whoever finished it.
\<close>

theorem resume_needs_evidence:
  assumes "quiet E" "sound (e_lib E) (w_db w)" "resume E tid w = (Inr tk, w')" "status tk = RUNNING"
  shows "effects_settled (w_db w) tid (w_db w')"
  by (rule resume_settles [OF assms])

text \<open>
  C32 (a tool step ends the waiting). When nobody else writes to the task, the task is in RUNNING after a
  successful tool step; after any failure but a lost lease or a missing task it is neither in RUNNING nor in
  WAITING\_TOOL, so that whoever picks it up must resume it, which inspects its effects.
\<close>

theorem tool_step_settles_status:
  assumes "undisturbed E tid" "quiet E" "sound (e_lib E) (w_db w)" "queue_sound (w_db w)"
    and "execute_tool_and_checkpoint E H tid tool args False key apid ph w = (r, w')"
    and "r \<noteq> Inl KeyError" "r \<noteq> Inl LeaseLost"
  shows "case r of Inr _ \<Rightarrow> status_of (w_db w') tid = Some RUNNING
    | Inl _ \<Rightarrow> status_of (w_db w') tid \<notin> {Some RUNNING, Some WAITING_TOOL}"
proof -
  let ?body = "\<lambda>tk. pbind (recovered E tid tk) (\<lambda>_. run_tool_step E H tid tool args False key apid ph)"
  obtain f w1 where f: "fetch E tid w = (f, w1)" by (cases "fetch E tid w")
  with assms(5,6) fetch_fails obtain tk where tk: "f = Inr tk"
    by (cases f) (auto simp: execute_tool_and_checkpoint_def pbind_def)
  obtain b w2 where b: "?body tk w1 = (b, w2)" by (cases "?body tk w1")
  have run: "stays (ledger_run (e_lib E)) (recovered E tid tk)" "stays (ledger_run (e_lib E)) (run_tool_step E H tid tool args False key apid ph)"
    using hosted.stays_tool_step running.stays_recovered assms(2) by auto
  have "ledger_run (e_lib E) w w1" using f by (rule ledger.stays_run [OF running.stays_fetch [OF assms(2) refl]])
  moreover have "ledger_run (e_lib E) w1 w2"
    using b by (rule ledger.stays_run [rotated]) (intro ledger.stays_pbind run)
  ultimately have w2: "ledger_run (e_lib E) w w2" by (rule ledger.R_trans)
  with assms(3,4) have ok: "sound (e_lib E) (w_db w2)" "queue_sound (w_db w2)"
    using sound_run queue_sound_run by (auto simp: ledger_run_def)
  show ?thesis
  proof (cases b)
    case (Inr d)
    with assms(5) f tk b have "r = Inr d" "w' = w2"
      by (auto simp: execute_tool_and_checkpoint_def pbind_Inr attempt_Inr [where m = "?body tk"] ret_def)
    with b Inr step_leaves_running show ?thesis by (auto elim!: pbindE)
  next
    case (Inl e0)
    with assms(5) f tk b have p: "park E tid e0 w2 = (r, w')"
      by (auto simp: execute_tool_and_checkpoint_def pbind_Inr attempt_Inl [where m = "?body tk"])
    then obtain e where e: "r = Inl e" by (cases r) (auto simp: park_def throw_def elim!: pbindE)
    from park_parks [OF assms(1,2) ok p [unfolded e]] assms(6,7) show ?thesis unfolding e by simp
  qed
qed

text \<open>
  A lost lease stays inside. Whatever a worker was doing when its lease was taken away, recovering,
  working or handling another failure, the loss never leaves \<open>run_once\<close> as an exception.
\<close>

theorem lost_lease_stays_inside: "fst (run_once W E w) \<noteq> Inl LeaseLost"
proof -
  have "throws_only (- {LeaseLost}) (run_once W E)"
    unfolding run_once_def
    by (auto intro!: throws_pbind throws_ret throws_transact recover_raises claim_raises throws_attempt handle_failure_throws
        split: option.split)
  then show ?thesis unfolding throws_only_def by (metis ComplD insertI1 prod.collapse)
qed

section \<open>Examples\<close>

definition ex_host :: agent_host where
  "ex_host = \<lparr>ah_tools = ex_tools, ah_registry = registry_of [] ''default'' None, ah_version = ''1'',
     ah_gateway = (\<lambda>_. gateway_of (registry_of [] ''default'' None) []), ah_continuity = None, ah_internal_cloud = False,
     ah_tool_json = td_name\<rparr>"

definition ex_worker :: worker where
  "ex_worker = \<lparr>wk_host = (\<lambda>_ _. Inr ex_host), wk_id = ''w1'', wk_poll_s = 1, wk_lease_s = 10, wk_stop = (\<lambda>_. False)\<rparr>"

definition ex_owned :: environment where
  "ex_owned = owning ex_env (ex_lease 1)"

definition ex_worked :: world where
  "ex_worked = snd (work_on ex_worker ex_owned (ex_lease 1) (ex_world ex_claimed))"

lemma ex_worked_runs: "w_runs ex_worked = [(''tool'', [])] \<and> status_of (w_db ex_worked) ''q'' = Some COMPLETED"
  by code_simp

lemma quiet_ex_owned: "quiet ex_owned" "e_lib ex_owned = ex_lib" "undisturbed ex_owned tid"
  using quiet_ex_env by (simp_all add: ex_owned_def owning_def quiet_def undisturbed_def ex_env_def)

lemma ex_sound: "(ledger_step ex_lib)\<^sup>*\<^sup>* empty_db db \<Longrightarrow> sound ex_lib db \<and> queue_sound db"
proof -
  assume run: "(ledger_step ex_lib)\<^sup>*\<^sup>* empty_db db"
  have "sound ex_lib empty_db" "queue_sound empty_db"
    by (simp_all add: sound_def queue_sound_def tasks_keyed_def task_of_def empty_db_def t_get_def t_wf_def
        leases_dated_def journal_ok_def keys_unique_def)
  with run show ?thesis
    using sound_run [of ex_lib empty_db db] queue_sound_run [of ex_lib "ex_world empty_db" "ex_world db"]
    by (simp add: ledger_run_def ex_world_def)
qed

theorem worker_effects_paid_witness:
  "length (w_runs (snd (worker_run 3 ex_worker ex_owned False (ex_world ex_claimed))))
   \<le> spent_count (w_db (snd (worker_run 3 ex_worker ex_owned False (ex_world ex_claimed))))"
proof -
  have "sound (e_lib ex_owned) (w_db (ex_world ex_claimed))"
    using ex_sound [OF ex_queue_run(3)] by (simp add: quiet_ex_owned ex_world_def)
  from worker_effects_paid [OF quiet_ex_owned(1) this, of 3 ex_worker False] show ?thesis
    by (simp add: Let_def ex_world_def)
qed

theorem worker_inspects_first_witness: "effects_settled ex_claimed ''q'' (w_db ex_worked) \<and> w_runs ex_worked \<noteq> []"
proof -
  have s: "sound (e_lib ex_owned) (w_db (ex_world ex_claimed))"
    using ex_sound [OF ex_queue_run(3)] by (simp add: quiet_ex_owned ex_world_def)
  have "w_runs (snd (work_on ex_worker ex_owned (ex_lease 1) (ex_world ex_claimed))) \<noteq> w_runs (ex_world ex_claimed)"
    using ex_worked_runs by (simp add: ex_worked_def ex_world_def)
  from worker_inspects_first [OF quiet_ex_owned(1) s this] show ?thesis
    using ex_worked_runs by (simp add: ex_worked_def ex_world_def ex_lease_def)
qed

definition ex_resumed :: "(exn + task) \<times> world" where
  "ex_resumed = resume ex_env ''a'' (ex_world ex_finished)"

lemma ex_resumed_running: "case ex_resumed of (Inr tk, _) \<Rightarrow> status tk = RUNNING | _ \<Rightarrow> False"
  by code_simp

lemma ex_finished_run: "(ledger_step ex_lib)\<^sup>*\<^sup>* empty_db ex_finished"
proof -
  have "ledger_step ex_lib ex_intent ex_started" "ledger_step ex_lib ex_started ex_finished"
    using after_db_ok [OF ex_direct_ok(5)] after_ok [OF ex_direct_ok(6)] unfolding ex_started_def ex_finished_def
    by (blast intro: Claim_Step Finish)+
  with ex_direct_run(2) show ?thesis by (meson rtranclp.rtrancl_into_rtrancl)
qed

theorem resume_needs_evidence_witness: "\<exists>w'. snd ex_resumed = w' \<and> effects_settled ex_finished ''a'' (w_db w')"
proof -
  obtain tk w' where r: "resume ex_env ''a'' (ex_world ex_finished) = (Inr tk, w')" "status tk = RUNNING"
    using ex_resumed_running by (auto simp: ex_resumed_def split: prod.splits sum.splits)
  have "sound (e_lib ex_env) (w_db (ex_world ex_finished))"
    using ex_sound [OF ex_finished_run] by (simp add: ex_env_def ex_world_def)
  from resume_needs_evidence [OF quiet_ex_env this r] r(1) show ?thesis by (simp add: ex_resumed_def ex_world_def)
qed

definition ex_stepped :: "(exn + pydict) \<times> world" where
  "ex_stepped = execute_tool_and_checkpoint ex_env ex_host ''a'' ''tool'' [] False (Some ''key'') None [] (ex_world ex_running)"

lemma ex_stepped_ok: "is_ok (fst ex_stepped)"
  by code_simp

theorem tool_step_settles_status_witness: "status_of (w_db (snd ex_stepped)) ''a'' = Some RUNNING"
proof -
  obtain d w' where r: "ex_stepped = (Inr d, w')" using ex_stepped_ok by (auto simp: is_ok_iff prod_eq_iff)
  have "(ledger_step ex_lib)\<^sup>*\<^sup>* empty_db ex_running"
    using after_ok [OF ex_direct_ok(2)] after_ok [OF ex_direct_ok(3)] ex_direct_run(6)
    unfolding ex_planned_def ex_running_def by (meson Transition rtranclp.rtrancl_into_rtrancl)
  from ex_sound [OF this] have s: "sound (e_lib ex_env) (w_db (ex_world ex_running))" "queue_sound (w_db (ex_world ex_running))"
    by (simp_all add: ex_env_def ex_world_def)
  have "undisturbed ex_env ''a''" by (simp add: undisturbed_def ex_env_def)
  from tool_step_settles_status [OF this quiet_ex_env s r [unfolded ex_stepped_def]] show ?thesis by (simp add: r)
qed

end
