(* ===== verification/Local_Runtime.thy ===== *)
theory Local_Runtime imports Gateway begin

text \<open>
  dante/local_runtime.py and the runtime profile of dante/contracts/runtime.py: the adapters for a
  local Ollama or llama.cpp server. The exchange with the server is an argument, a function of the
  address and the body sent; the parts \<open>urllib\<close> finds in an address and what \<open>ipaddress\<close> says of a host
  are arguments too. Bodies are text, one character for a byte.
\<close>

section \<open>Runtime profiles\<close>

record url_parts =
  up_scheme :: string
  up_host :: "string option"
  up_user :: "string option"
  up_password :: "string option"
  up_path :: string
  up_query :: string
  up_fragment :: string
  up_port :: "nat option result"

record runtime_profile =
  rp_runtime :: string
  rp_base :: string
  rp_remote :: bool
  rp_timeout :: rat
  rp_limit :: nat

definition set_text :: "string option \<Rightarrow> bool" where
  "set_text s = (case s of None \<Rightarrow> False | Some t \<Rightarrow> t \<noteq> [])"

definition origin :: "string \<Rightarrow> string \<Rightarrow> nat option \<Rightarrow> string" where
  "origin scheme host port =
     scheme @ ''://'' @ (if CHR '':'' \<in> set host then ''['' @ host @ '']'' else host)
     @ (case port of None \<Rightarrow> [] | Some p \<Rightarrow> if p = 0 then [] else '':'' @ dec_nat p)"

text \<open>The validator \<open>endpoint\<close>: a plain HTTP origin, on the loopback interface unless remote access is granted.\<close>

definition endpoint :: "(string \<Rightarrow> url_parts result) \<Rightarrow> (string \<Rightarrow> bool option) \<Rightarrow> runtime_profile \<Rightarrow> runtime_profile result" where
  "endpoint split_url loopback p =
     rbind (split_url (rp_base p)) (\<lambda>u.
     rbind (guard (up_scheme u \<in> {''http'', ''https''} \<and> set_text (up_host u) \<and> \<not> set_text (up_user u)
                   \<and> \<not> set_text (up_password u) \<and> up_query u = [] \<and> up_fragment u = [] \<and> up_path u \<in> {[], ''/''}) ValueError) (\<lambda>_.
     rbind (up_port u) (\<lambda>port.
     let h = the (up_host u); host = (if h = ''localhost'' then ''127.0.0.1'' else h) in
     rbind (guard (loopback host = Some True \<or> rp_remote p) ValueError) (\<lambda>_.
       Inr (p\<lparr>rp_base := origin (up_scheme u) host port\<rparr>)))))"

definition valid_profile :: "runtime_profile \<Rightarrow> bool" where
  "valid_profile p \<longleftrightarrow> rp_runtime p \<in> {''ollama'', ''llamacpp''} \<and> 0 < rp_timeout p \<and> 0 < rp_limit p"

section \<open>The exchange\<close>

text \<open>
  A failure to connect, which may be a timeout, or an answer: its status and headers, the parts of the
  body and how the stream ended. A raised failure carries whether the server was reached
  (\<open>runtime_reachable\<close>).
\<close>

datatype stream_end = StreamDone | StreamTimeout | StreamBroken

datatype reply =
    NoReply bool
  | Reply int "(string \<times> string) list" "string list" stream_end

record local_adapter =
  la_runtime :: string
  la_provider :: string
  la_machine :: string
  la_profile :: runtime_profile

text \<open>\<open>LocalRuntimeAdapter.__init__\<close> for the adapter class of \<open>runtime\<close>.\<close>

definition local_adapter_of ::
  "string \<Rightarrow> runtime_profile \<Rightarrow> string \<Rightarrow> string option \<Rightarrow> local_adapter result" where
  "local_adapter_of name profile machine provider =
     (if rp_runtime profile \<noteq> name then Inl ValueError
      else Inr \<lparr>la_runtime = name, la_provider = (if set_text provider then the provider else name),
                la_machine = machine, la_profile = profile\<rparr>)"

type_synonym 'a contact = "(exn \<times> bool) + 'a"

definition plainly :: "exn \<Rightarrow> 'a contact" where
  "plainly e = Inl (e, False)"

definition outcome_of :: "'a contact \<Rightarrow> 'a result" where
  "outcome_of m = (case m of Inl e \<Rightarrow> Inl (fst e) | Inr a \<Rightarrow> Inr a)"

definition contact_of :: "'a result \<Rightarrow> 'a contact" where
  "contact_of m = (case m of Inl e \<Rightarrow> plainly e | Inr a \<Rightarrow> Inr a)"

fun occurs :: "string \<Rightarrow> string \<Rightarrow> bool" where
  "occurs p [] = (p = [])"
| "occurs p (c # s) = (startswith (c # s) p \<or> occurs p s)"

definition context_markers :: "string list" where
  "context_markers = [''context_length_exceeded'', ''context_window_exceeded'', ''exceeds the available context'',
     ''exceeds the context'', ''context length'', ''context window'']"

definition runtime_failure :: "int \<Rightarrow> string \<Rightarrow> rat option \<Rightarrow> exn" where
  "runtime_failure code raw ra =
     (if code \<in> {408, 504} then failed InferenceTimeout ra None
      else if code = 429 then failed RateLimitUnavailable ra None
      else if code \<in> {401, 403} \<or> 300 \<le> code \<and> code < 400 then fault PolicyDenied
      else if code \<in> {400, 413, 422} \<and> list_ex (\<lambda>k. occurs k (lower raw)) context_markers then fault ContextExceeded
      else if code = 404 \<or> 500 \<le> code then failed AdapterUnavailable ra None
      else fault InvalidRequest)"

definition stream_failure :: "stream_end \<Rightarrow> exn option" where
  "stream_failure e = (case e of StreamDone \<Rightarrow> None | StreamTimeout \<Rightarrow> Some (fault InferenceTimeout)
     | StreamBroken \<Rightarrow> Some (fault AdapterUnavailable))"

text \<open>The body, at most \<open>limit\<close> long.\<close>

fun gather :: "nat \<Rightarrow> string \<Rightarrow> string list \<Rightarrow> string result" where
  "gather limit acc [] = Inr acc"
| "gather limit acc (c # cs) =
     (if limit < length (acc @ c) then Inl (fault InvalidResponse) else gather limit (acc @ c) cs)"

definition envelope :: "string \<Rightarrow> pyval result" where
  "envelope raw =
     (case loads_value (PStr raw) of
        Inl e \<Rightarrow> Inl (if e \<in> {ValueError, TypeError} then fault InvalidResponse else e)
      | Inr v \<Rightarrow> (case v of PDict d \<Rightarrow> if dget d ''error'' \<noteq> None then Inl (fault InvalidResponse) else Inr v
                  | _ \<Rightarrow> Inl (fault InvalidResponse)))"

type_synonym exchange = "string \<Rightarrow> pyval option \<Rightarrow> reply"

definition runtime_json ::
  "(string \<Rightarrow> rat option) \<Rightarrow> rat \<Rightarrow> exchange \<Rightarrow> local_adapter \<Rightarrow> string \<Rightarrow> pyval option \<Rightarrow> bool \<Rightarrow> pyval option contact" where
  "runtime_json parse_date now http A where_to body allow_not_found =
     (case http (rp_base (la_profile A) @ where_to) body of
        NoReply timed_out \<Rightarrow> plainly (fault (if timed_out then InferenceTimeout else AdapterUnavailable))
      | Reply code headers parts ending \<Rightarrow>
          rbind (contact_of (gather (rp_limit (la_profile A)) [] parts)) (\<lambda>raw.
            case stream_failure ending of
              Some x \<Rightarrow> plainly x
            | None \<Rightarrow>
                if code = 404 \<and> allow_not_found then Inr None
                else if code \<noteq> 200
                then Inl (runtime_failure code raw (retry_after_seconds parse_date now (header headers ''Retry-After'')), True)
                else rbind (contact_of (envelope raw)) (\<lambda>v. Inr (Some v))))"

text \<open>The same where a missing path is an error.\<close>

definition ask ::
  "(string \<Rightarrow> rat option) \<Rightarrow> rat \<Rightarrow> exchange \<Rightarrow> local_adapter \<Rightarrow> string \<Rightarrow> pyval option \<Rightarrow> pyval contact" where
  "ask parse_date now http A where_to body =
     rbind (runtime_json parse_date now http A where_to body False) (\<lambda>v. case v of None \<Rightarrow> plainly TypeError | Some w \<Rightarrow> Inr w)"

text \<open>\<open>except (KeyError, TypeError, ValueError, AttributeError): raise InvalidResponse\<close>\<close>

definition shaped :: "'a contact \<Rightarrow> 'a contact" where
  "shaped m = (case m of Inl (e, reached) \<Rightarrow> if e \<in> answer_errors then plainly (fault InvalidResponse) else Inl (e, reached) | Inr a \<Rightarrow> Inr a)"

section \<open>What both adapters share\<close>

definition local_qualified :: "pylib \<Rightarrow> fsys \<Rightarrow> local_adapter \<Rightarrow> inference_request \<Rightarrow> string option result" where
  "local_qualified L F A rq =
     (let m = rq_model rq in
      if \<not> is_local m \<or> runtime m \<noteq> la_runtime A \<or> provider_id m \<noteq> la_provider A then Inl (fault PolicyDenied)
      else
        case require_automatic L F (registry_of [] (la_machine A) None) m (rq_tools rq \<noteq> []) of
          Inl e \<Rightarrow> Inl (if e = ValueError then fault QualificationDenied else e)
        | Inr _ \<Rightarrow>
            (case local_metadata m of
               None \<Rightarrow> Inl AttributeError
             | Some md \<Rightarrow>
                 rbind (case rq_max_output rq of
                          None \<Rightarrow> Inr ()
                        | Some n \<Rightarrow>
                            (case md_context_tokens md of
                               None \<Rightarrow> Inl TypeError
                             | Some k \<Rightarrow> guard (n \<le> k) (fault ContextExceeded)))
                   (\<lambda>_. Inr (runtime_reference md))))"

definition assistant_checked :: "string option \<Rightarrow> tool_call list \<Rightarrow> unit result" where
  "assistant_checked content calls =
     rbind (make_assistant content calls) (\<lambda>_. guard (calls \<noteq> [] \<or> speaks content) ValueError)"

text \<open>Python truth of a decoded value.\<close>

definition py_true :: "pyval \<Rightarrow> bool" where
  "py_true v =
     (case v of PNone \<Rightarrow> False | PBool b \<Rightarrow> b | PInt i \<Rightarrow> i \<noteq> 0 | PFloat f \<Rightarrow> f \<noteq> Fin 0 | PStr s \<Rightarrow> s \<noteq> []
      | PList xs \<Rightarrow> xs \<noteq> [] | PTuple xs \<Rightarrow> xs \<noteq> [] | PDict d \<Rightarrow> d \<noteq> [])"

definition field :: "pydict \<Rightarrow> string \<Rightarrow> pyval" where
  "field d k = (case dget d k of None \<Rightarrow> PNone | Some v \<Rightarrow> v)"

text \<open>A list of objects with a string under \<open>k\<close>.\<close>

definition named_items :: "string \<Rightarrow> pyval \<Rightarrow> pydict list result" where
  "named_items k v =
     (case v of
        PList xs \<Rightarrow>
          map_result (\<lambda>x. case x of
              PDict d \<Rightarrow> (case dget d k of Some (PStr _) \<Rightarrow> Inr d | _ \<Rightarrow> Inl ValueError)
            | _ \<Rightarrow> Inl AttributeError) xs
      | _ \<Rightarrow> Inl ValueError)"

section \<open>Ollama\<close>

definition ollama_version :: "(string \<Rightarrow> rat option) \<Rightarrow> rat \<Rightarrow> exchange \<Rightarrow> local_adapter \<Rightarrow> string contact" where
  "ollama_version pd now http A =
     shaped (rbind (ask pd now http A ''/api/version'' None) (\<lambda>v.
       contact_of (rbind (py_index v ''version'') (\<lambda>x.
         case x of PStr s \<Rightarrow> if strip s = [] then Inl ValueError else Inr (strip s) | _ \<Rightarrow> Inl ValueError))))"

definition ollama_inventory :: "(string \<Rightarrow> rat option) \<Rightarrow> rat \<Rightarrow> exchange \<Rightarrow> local_adapter \<Rightarrow> pydict list contact" where
  "ollama_inventory pd now http A =
     shaped (rbind (ask pd now http A ''/api/tags'' None) (\<lambda>v.
       contact_of (rbind (py_index v ''models'') (\<lambda>ms.
         rbind (named_items ''name'' ms) (\<lambda>ds. Inr (map (\<lambda>d. dict_set (KStr ''id'') (field d ''name'') d) ds))))))"

text \<open>The local entry of the inventory is the very model, stored here, and not a cloud one.\<close>

definition entry_identity :: "string \<Rightarrow> local_model_metadata \<Rightarrow> pydict \<Rightarrow> unit result" where
  "entry_identity ref md entry =
     (case (field entry ''details'', field entry ''digest'') of
        (PDict details, PStr dg) \<Rightarrow>
          guard (\<not> occurs ''cloud'' (lower ref) \<and> \<not> py_true (field entry ''remote_host'') \<and> \<not> py_true (field entry ''remote_model'')
                 \<and> field details ''format'' = PStr ''gguf'' \<and> set_text (runtime_digest md)
                 \<and> Some (removeprefix dg ''sha256:'') = runtime_digest md) (fault PolicyDenied)
      | _ \<Rightarrow> Inl (fault InvalidResponse))"

definition shown_identity :: "pyval \<Rightarrow> unit result" where
  "shown_identity shown =
     (case shown of
        PDict d \<Rightarrow>
          (case (field d ''details'', field d ''model_info'') of
             (PDict details, PDict info) \<Rightarrow>
               guard (\<not> py_true (field d ''remote_host'') \<and> \<not> py_true (field d ''remote_model'')
                      \<and> field details ''format'' = PStr ''gguf'' \<and> info \<noteq> []) (fault PolicyDenied)
           | _ \<Rightarrow> Inl (fault InvalidResponse))
      | _ \<Rightarrow> Inl AttributeError)"

definition ollama_call :: "tool_call \<Rightarrow> pyval" where
  "ollama_call c = PDict [(KStr ''function'', PDict [(KStr ''name'', PStr (call_name c)), (KStr ''arguments'', PDict (call_arguments c))])]"

text \<open>\<open>names\<close> maps the calls made so far to their tools.\<close>

fun ollama_messages :: "(string \<times> string) list \<Rightarrow> message list \<Rightarrow> pyval list result" where
  "ollama_messages names [] = Inr []"
| "ollama_messages names (ToolResultMessage i t # ms) =
     rbind (of_opt KeyError (map_of names i)) (\<lambda>n.
     rbind (ollama_messages names ms) (\<lambda>rest.
       Inr (PDict [(KStr ''role'', PStr ''tool''), (KStr ''tool_name'', PStr n), (KStr ''content'', PStr t)] # rest)))"
| "ollama_messages names (TextMessage r t # ms) =
     rbind (ollama_messages names ms) (\<lambda>rest. Inr (PDict [(KStr ''role'', PStr r), (KStr ''content'', PStr t)] # rest))"
| "ollama_messages names (AssistantMessage c calls # ms) =
     rbind (ollama_messages (fold (\<lambda>k. dict_set (call_id k) (call_name k)) calls names) ms) (\<lambda>rest.
       Inr (PDict ([(KStr ''role'', PStr ''assistant''), (KStr ''content'', PStr (case c of None \<Rightarrow> [] | Some t \<Rightarrow> t))]
                   @ (if calls = [] then [] else [(KStr ''tool_calls'', PList (map ollama_call calls))])) # rest))"

definition ollama_body :: "string \<Rightarrow> local_model_metadata \<Rightarrow> inference_request \<Rightarrow> pyval list \<Rightarrow> pyval" where
  "ollama_body ref md rq messages = PDict
     ([(KStr ''model'', PStr ref), (KStr ''messages'', PList messages), (KStr ''stream'', PBool False),
       (KStr ''options'', PDict
          ([(KStr ''temperature'', PFloat (Fin (rq_temperature rq))),
            (KStr ''num_ctx'', case md_context_tokens md of None \<Rightarrow> PNone | Some n \<Rightarrow> PInt (int n))]
           @ (case rq_max_output rq of None \<Rightarrow> [] | Some n \<Rightarrow> [(KStr ''num_predict'', PInt (int n))])))]
      @ (if rq_tools rq = [] then [] else [(KStr ''tools'', PList (map wire_tool (rq_tools rq)))]))"

text \<open>A call of the answer; \<open>new\<close> is the identifier drawn when the server names none.\<close>

definition read_ollama_call :: "string \<Rightarrow> pyval \<Rightarrow> tool_call result" where
  "read_ollama_call new call =
     rbind (py_index call ''function'') (\<lambda>f.
     rbind (py_index f ''arguments'') (\<lambda>args.
     rbind (case args of PDict d \<Rightarrow> Inr d | _ \<Rightarrow> Inl ValueError) (\<lambda>d.
     rbind (py_get call ''id'' (PStr (''call_'' @ new))) (\<lambda>i.
     rbind (py_index f ''name'') (\<lambda>n. make_tool_call i n d)))))"

fun read_ollama_calls :: "(nat \<Rightarrow> string) \<Rightarrow> nat \<Rightarrow> pyval list \<Rightarrow> tool_call list result" where
  "read_ollama_calls new i [] = Inr []"
| "read_ollama_calls new i (c # cs) =
     rbind (read_ollama_call (new i) c) (\<lambda>k. rbind (read_ollama_calls new (Suc i) cs) (\<lambda>ks. Inr (k # ks)))"

definition as_list :: "pyval \<Rightarrow> pyval list result" where
  "as_list v = (case v of PList xs \<Rightarrow> Inr xs | _ \<Rightarrow> Inl ValueError)"

definition read_ollama :: "(nat \<Rightarrow> string) \<Rightarrow> model_ref \<Rightarrow> string \<Rightarrow> pyval \<Rightarrow> inference_response result" where
  "read_ollama new m ref payload =
     rbind (py_get payload ''done'' PNone) (\<lambda>d.
     rbind (py_get payload ''model'' PNone) (\<lambda>who.
     rbind (guard (d = PBool True \<and> who = PStr ref) ValueError) (\<lambda>_.
     rbind (py_index payload ''message'') (\<lambda>message.
     rbind (py_index message ''role'') (\<lambda>role.
     rbind (guard (role = PStr ''assistant'') ValueError) (\<lambda>_.
     rbind (rbind (py_get message ''tool_calls'' (PList [])) as_list) (\<lambda>raw.
     rbind (read_ollama_calls new 0 raw) (\<lambda>calls.
     rbind (rbind (py_get payload ''done_reason'' PNone) (\<lambda>v. finish_reason v [''stop'', ''length''])) (\<lambda>reason.
     rbind (rbind (py_get message ''content'' PNone) content_field) (\<lambda>content.
     rbind (assistant_checked content calls) (\<lambda>_.
     rbind (rbind (py_get payload ''prompt_eval_count'' PNone) (\<lambda>v. usage_field (Some v))) (\<lambda>i.
     rbind (rbind (py_get payload ''eval_count'' PNone) (\<lambda>v. usage_field (Some v))) (\<lambda>out.
       Inr \<lparr>ir_model = m, ir_content = content, ir_calls = calls,
            ir_finish = (if calls \<noteq> [] \<and> reason = ''stop'' then ''tool_calls'' else reason),
            ir_usage = \<lparr>input_tokens = i, output_tokens = out, total_tokens = None\<rparr>, ir_cost = None, ir_fallback = False\<rparr>)))))))))))))"

definition answered :: "'a result \<Rightarrow> 'a result" where
  "answered r = (case r of Inl e \<Rightarrow> Inl (if e \<in> answer_errors then fault InvalidResponse else e) | Inr a \<Rightarrow> Inr a)"

definition ollama_complete ::
  "pylib \<Rightarrow> fsys \<Rightarrow> (string \<Rightarrow> rat option) \<Rightarrow> rat \<Rightarrow> (nat \<Rightarrow> string) \<Rightarrow> exchange \<Rightarrow> local_adapter \<Rightarrow> inference_request
   \<Rightarrow> inference_response result" where
  "ollama_complete L F pd now new http A rq =
     rbind (local_qualified L F A rq) (\<lambda>r.
     rbind (outcome_of (ollama_inventory pd now http A)) (\<lambda>items.
       case (filter (\<lambda>d. field d ''id'' = opt_str r) items, r, local_metadata (rq_model rq)) of
         ([entry], Some ref, Some md) \<Rightarrow>
           rbind (entry_identity ref md entry) (\<lambda>_.
           rbind (outcome_of (ask pd now http A ''/api/show'' (Some (PDict [(KStr ''model'', PStr ref)])))) (\<lambda>shown.
           rbind (shown_identity shown) (\<lambda>_.
           rbind (ollama_messages [] (rq_messages rq)) (\<lambda>ms.
           rbind (outcome_of (ask pd now http A ''/api/chat'' (Some (ollama_body ref md rq ms)))) (\<lambda>payload.
             answered (read_ollama new (rq_model rq) ref payload))))))
       | _ \<Rightarrow> Inl (fault AdapterUnavailable)))"

section \<open>llama.cpp\<close>

definition llama_properties :: "(string \<Rightarrow> rat option) \<Rightarrow> rat \<Rightarrow> exchange \<Rightarrow> local_adapter \<Rightarrow> pyval option contact" where
  "llama_properties pd now http A = runtime_json pd now http A ''/props'' None True"

definition llama_inventory :: "(string \<Rightarrow> rat option) \<Rightarrow> rat \<Rightarrow> exchange \<Rightarrow> local_adapter \<Rightarrow> pydict list contact" where
  "llama_inventory pd now http A =
     shaped (rbind (ask pd now http A ''/health'' None) (\<lambda>health.
       rbind (contact_of (py_get health ''status'' PNone)) (\<lambda>st.
         if st \<noteq> PStr ''ok'' then Inl (fault AdapterUnavailable, True)
         else rbind (ask pd now http A ''/v1/models'' None) (\<lambda>v.
                contact_of (rbind (py_index v ''data'') (named_items ''id''))))))"

definition llama_body :: "(rat \<Rightarrow> string) \<Rightarrow> string \<Rightarrow> inference_request \<Rightarrow> pyval" where
  "llama_body fr ref rq = PDict
     ([(KStr ''model'', PStr ref), (KStr ''messages'', PList (map (wire_message fr) (rq_messages rq))), (KStr ''stream'', PBool False),
       (KStr ''temperature'', PFloat (Fin (rq_temperature rq)))]
      @ (case rq_max_output rq of None \<Rightarrow> [] | Some n \<Rightarrow> [(KStr ''max_tokens'', PInt (int n))])
      @ (if rq_tools rq = [] then [] else [(KStr ''tools'', PList (map wire_tool (rq_tools rq)))]))"

definition read_llama :: "model_ref \<Rightarrow> string \<Rightarrow> pyval \<Rightarrow> inference_response result" where
  "read_llama m ref payload =
     rbind (py_index payload ''choices'') (\<lambda>choices.
     rbind (case choices of PList [c] \<Rightarrow> Inr c | _ \<Rightarrow> Inl ValueError) (\<lambda>choice.
     rbind (py_index choice ''message'') (\<lambda>message.
     rbind (py_index message ''role'') (\<lambda>role.
     rbind (py_get payload ''model'' (PStr ref)) (\<lambda>who.
     rbind (guard (role = PStr ''assistant'' \<and> who = PStr ref) ValueError) (\<lambda>_.
     rbind (rbind (py_get message ''tool_calls'' (PList [])) as_list) (\<lambda>raw.
     rbind (map_result parse_call raw) (\<lambda>calls.
     rbind (rbind (py_get choice ''finish_reason'' PNone)
              (\<lambda>v. finish_reason v [''stop'', ''length'', ''tool_calls'', ''content_filter''])) (\<lambda>reason.
     rbind (guard (\<not> (reason = ''tool_calls'' \<and> calls = [])) ValueError) (\<lambda>_.
     rbind (rbind (py_get message ''content'' PNone) content_field) (\<lambda>content.
     rbind (assistant_checked content calls) (\<lambda>_.
     rbind (usage_of payload) (\<lambda>u.
       Inr \<lparr>ir_model = m, ir_content = content, ir_calls = calls, ir_finish = reason, ir_usage = u,
            ir_cost = None, ir_fallback = False\<rparr>)))))))))))))"

definition llama_complete ::
  "pylib \<Rightarrow> fsys \<Rightarrow> (string \<Rightarrow> rat option) \<Rightarrow> rat \<Rightarrow> (rat \<Rightarrow> string) \<Rightarrow> exchange \<Rightarrow> local_adapter \<Rightarrow> inference_request
   \<Rightarrow> inference_response result" where
  "llama_complete L F pd now fr http A rq =
     rbind (local_qualified L F A rq) (\<lambda>r.
     rbind (outcome_of (llama_inventory pd now http A)) (\<lambda>items.
       case r of
         None \<Rightarrow> Inl (fault AdapterUnavailable)
       | Some ref \<Rightarrow>
           if \<not> list_ex (\<lambda>d. field d ''id'' = PStr ref) items then Inl (fault AdapterUnavailable)
           else
             rbind (outcome_of (ask pd now http A ''/v1/chat/completions'' (Some (llama_body fr ref rq)))) (\<lambda>payload.
               answered (read_llama (rq_model rq) ref payload))))"

section \<open>Health\<close>

record runtime_health =
  rh_runtime :: string
  rh_reachable :: bool
  rh_present :: "bool option"
  rh_operational :: bool
  rh_error :: "string option"

fun error_name :: "inference_error \<Rightarrow> string" where
  "error_name InferenceError = ''InferenceError''"
| "error_name AdapterUnavailable = ''AdapterUnavailable''"
| "error_name InferenceTimeout = ''InferenceTimeout''"
| "error_name RateQuotaUnavailable = ''RateQuotaUnavailable''"
| "error_name RateLimitUnavailable = ''RateLimitUnavailable''"
| "error_name QuotaExhausted = ''QuotaExhausted''"
| "error_name InvalidResponse = ''InvalidResponse''"
| "error_name InvalidRequest = ''InvalidRequest''"
| "error_name ContextExceeded = ''ContextExceeded''"
| "error_name PolicyDenied = ''PolicyDenied''"
| "error_name QualificationDenied = ''QualificationDenied''"
| "error_name ConfigurationDenied = ''ConfigurationDenied''"

definition runtime_report :: "local_adapter \<Rightarrow> pydict list contact \<Rightarrow> model_ref option \<Rightarrow> runtime_health result" where
  "runtime_report A inventory model =
     (case inventory of
        Inr items \<Rightarrow>
          Inr (case model of
             None \<Rightarrow> \<lparr>rh_runtime = la_runtime A, rh_reachable = True, rh_present = None, rh_operational = True, rh_error = None\<rparr>
           | Some m \<Rightarrow>
               (case (case local_metadata m of None \<Rightarrow> None | Some md \<Rightarrow> runtime_reference md) of
                  None \<Rightarrow> \<lparr>rh_runtime = la_runtime A, rh_reachable = True, rh_present = None, rh_operational = True,
                           rh_error = Some ''model_reference_unknown''\<rparr>
                | Some ref \<Rightarrow>
                    if list_ex (\<lambda>d. field d ''id'' = PStr ref) items
                    then \<lparr>rh_runtime = la_runtime A, rh_reachable = True, rh_present = Some True, rh_operational = True, rh_error = None\<rparr>
                    else \<lparr>rh_runtime = la_runtime A, rh_reachable = True, rh_present = Some False, rh_operational = True,
                          rh_error = Some ''model_not_present''\<rparr>))
      | Inl (InferenceFailed c _ _, reached) \<Rightarrow>
          Inr \<lparr>rh_runtime = la_runtime A,
               rh_reachable = (reached \<or> is_a c InvalidResponse \<or> is_a c PolicyDenied \<or> is_a c RateQuotaUnavailable),
               rh_present = None, rh_operational = False, rh_error = Some (error_name c)\<rparr>
      | Inl (e, _) \<Rightarrow> Inl e)"

text \<open>\<open>health\<close> of the two adapters, by the name of the runtime.\<close>

definition local_health ::
  "(string \<Rightarrow> rat option) \<Rightarrow> rat \<Rightarrow> exchange \<Rightarrow> local_adapter \<Rightarrow> model_ref option \<Rightarrow> runtime_health result" where
  "local_health pd now http A model =
     runtime_report A (if la_runtime A = ''ollama'' then ollama_inventory pd now http A else llama_inventory pd now http A) model"

definition configured_adapters :: "string \<Rightarrow> (string \<times> runtime_profile) list \<Rightarrow> local_adapter list result" where
  "configured_adapters machine profiles =
     map_result (\<lambda>(provider, p).
       if rp_runtime p \<in> {''ollama'', ''llamacpp''} then local_adapter_of (rp_runtime p) p machine (Some provider) else Inl KeyError) profiles"

section \<open>Only typed failures\<close>

definition typed_failures :: "exn set" where
  "typed_failures = {e. \<exists>c ra rt. e = InferenceFailed c ra rt}"

lemma fault_typed [raises]: "fault c \<in> typed_failures" "failed c ra rt \<in> typed_failures" "runtime_failure code raw ra \<in> typed_failures"
  by (auto simp: typed_failures_def fault_def failed_def runtime_failure_def)

text \<open>The same for a contact, whose failure carries more.\<close>

definition meets_only :: "exn set \<Rightarrow> 'a contact \<Rightarrow> bool" where
  "meets_only S m \<longleftrightarrow> (\<forall>e b. m = Inl (e, b) \<longrightarrow> e \<in> S)"

named_theorems meeting

lemma meets_Inr [meeting]: "meets_only S (Inr a)"
  by (simp add: meets_only_def)

lemma meets_Inl [meeting]: "e \<in> S \<Longrightarrow> meets_only S (Inl (e, b))" "e \<in> S \<Longrightarrow> meets_only S (plainly e)"
  by (simp_all add: meets_only_def plainly_def)

lemma meets_rbind [meeting]: "meets_only S m \<Longrightarrow> (\<And>a. meets_only S (f a)) \<Longrightarrow> meets_only S (rbind m f)"
  unfolding meets_only_def rbind_eq_Inl by blast

lemma meets_contact [meeting]: "raises_only S m \<Longrightarrow> meets_only S (contact_of m)"
  by (auto simp: meets_only_def raises_only_def contact_of_def plainly_def split: sum.splits)

lemma meets_mono: "meets_only S m \<Longrightarrow> S \<subseteq> T \<Longrightarrow> meets_only T m"
  by (auto simp: meets_only_def)

lemma raises_mono: "raises_only S m \<Longrightarrow> S \<subseteq> T \<Longrightarrow> raises_only T m"
  by (auto simp: raises_only_def)

lemma meets_outcome: "meets_only S m \<Longrightarrow> raises_only S (outcome_of m)"
  by (auto simp: meets_only_def raises_only_def outcome_of_def split: sum.splits)

lemma gather_raises: "raises_only typed_failures (gather limit acc parts)"
  by (induction limit acc parts rule: gather.induct) (auto intro: raises)

lemma envelope_raises: "raises_only typed_failures (envelope raw)"
  by (auto simp: envelope_def loads_value_def of_opt_def intro!: raises split: option.splits pyval.split)

lemma runtime_json_meets: "meets_only typed_failures (runtime_json pd now http A w body nf)"
  unfolding runtime_json_def stream_failure_def
  by (auto intro!: meeting raises gather_raises envelope_raises split: reply.split stream_end.splits option.splits)

lemma ask_meets: "meets_only typed_failures (ask pd now http A w body)"
proof -
  have "runtime_json pd now http A w body False \<noteq> Inr None"
    by (auto simp: runtime_json_def plainly_def rbind_eq_Inr split: reply.splits option.splits)
  with runtime_json_meets [of pd now http A w body False] show ?thesis
    by (auto simp: ask_def meets_only_def rbind_eq_Inl split: option.splits)
qed

lemma shaped_meets: "meets_only (typed_failures \<union> answer_errors) m \<Longrightarrow> meets_only typed_failures (shaped m)"
  by (auto simp: meets_only_def shaped_def plainly_def intro: raises split: sum.splits prod.splits)

lemma ask_meets_more: "meets_only (typed_failures \<union> answer_errors) (ask pd now http A w body)"
  by (rule meets_mono [OF ask_meets]) blast

lemma named_items_raises: "raises_only (typed_failures \<union> answer_errors) (named_items k v)"
  by (auto simp: named_items_def intro!: raises intro: raises split: pyval.split option.split)

lemma access_raises_more: "raises_only (typed_failures \<union> answer_errors) (py_index v k)" "raises_only (typed_failures \<union> answer_errors) (py_get v k w)"
  by (rule raises_mono [OF access_raises(1)] raises_mono [OF access_raises(2)], blast)+

lemma inventory_meets:
  "meets_only typed_failures (ollama_inventory pd now http A)" "meets_only typed_failures (llama_inventory pd now http A)"
  unfolding ollama_inventory_def llama_inventory_def
  by (auto intro!: shaped_meets meeting raises ask_meets_more named_items_raises access_raises_more)

lemma local_qualified_Inr:
  assumes "local_qualified L F A rq = Inr r"
  obtains md where "is_local (rq_model rq)" "runtime (rq_model rq) = la_runtime A" "provider_id (rq_model rq) = la_provider A"
    "\<not> unqualified (la_machine A) (rq_model rq) (rq_tools rq \<noteq> [])" "verify_identity L F (rq_model rq) = Inr ()"
    "local_metadata (rq_model rq) = Some md" "runtime_reference md = r"
proof -
  from assms have l: "is_local (rq_model rq)" "runtime (rq_model rq) = la_runtime A" "provider_id (rq_model rq) = la_provider A"
    and q: "require_automatic L F (registry_of [] (la_machine A) None) (rq_model rq) (rq_tools rq \<noteq> []) = Inr ()"
    by (auto simp: local_qualified_def Let_def split: if_splits sum.splits)
  from q l(1) have "\<not> unqualified (la_machine A) (rq_model rq) (rq_tools rq \<noteq> [])" "verify_identity L F (rq_model rq) = Inr ()"
    by (auto simp: require_automatic_def registry_of_def rbind_eq_Inr)
  moreover from assms l q obtain md where "local_metadata (rq_model rq) = Some md" "runtime_reference md = r"
    by (auto simp: local_qualified_def Let_def rbind_eq_Inr split: option.splits)
  ultimately show thesis using l that by blast
qed

lemma local_qualified_raises: "raises_only typed_failures (local_qualified L F A rq)"
proof (cases "require_automatic L F (registry_of [] (la_machine A) None) (rq_model rq) (rq_tools rq \<noteq> [])")
  case (Inl e)
  then have "e = ValueError" by (rule require_automatic_error) (simp add: registry_of_def)
  with Inl show ?thesis by (auto simp: local_qualified_def Let_def intro!: raises)
next
  case (Inr u)
  show ?thesis
  proof (cases "is_local (rq_model rq)")
    case True
    with Inr have "\<not> unqualified (la_machine A) (rq_model rq) (rq_tools rq \<noteq> [])"
      by (auto simp: require_automatic_def registry_of_def rbind_eq_Inr guard_eq_Inr)
    then obtain md where "local_metadata (rq_model rq) = Some md" "md_context_tokens md \<noteq> None" by (rule qualified_facts)
    with Inr show ?thesis by (auto simp: local_qualified_def Let_def intro!: raises split: option.split)
  qed (auto simp: local_qualified_def Let_def intro!: raises)
qed

lemma answered_raises: "raises_only answer_errors r \<Longrightarrow> raises_only typed_failures (answered r)"
  by (auto simp: answered_def raises_only_def intro: raises split: sum.splits)

section \<open>The properties\<close>


text \<open>
  Bounded answers. What a runtime answers is read only when its body, however it is cut into parts, is
  no longer than the limit of the profile, arrived completely and with status 200; it is then the value of
  that very text, an object without a member \<open>error\<close>.
\<close>

theorem runtime_answer_bounded:
  assumes "runtime_json pd now http A w body nf = Inr (Some v)"
  shows "\<exists>headers parts d. http (rp_base (la_profile A) @ w) body = Reply 200 headers parts StreamDone
    \<and> (parts = [] \<or> length (concat parts) \<le> rp_limit (la_profile A))
    \<and> loads_strict (concat parts) = Some v \<and> v = PDict d \<and> dget d ''error'' = None"
proof -
  have g: "gather n acc cs = Inr raw \<Longrightarrow> raw = acc @ concat cs \<and> (cs = [] \<or> length raw \<le> n)" for n acc cs raw
    by (induction n acc cs rule: gather.induct) (fastforce split: if_splits)+
  from assms obtain headers parts raw where r: "http (rp_base (la_profile A) @ w) body = Reply 200 headers parts StreamDone"
      "gather (rp_limit (la_profile A)) [] parts = Inr raw" "envelope raw = Inr v"
    by (auto simp: runtime_json_def plainly_def contact_of_def stream_failure_def rbind_eq_Inr
        split: reply.splits stream_end.splits if_splits sum.splits)
  moreover from r(3) obtain d where "loads_strict raw = Some v" "v = PDict d" "dget d ''error'' = None"
    by (auto simp: envelope_def loads_value_def of_opt_def split: option.splits pyval.splits if_splits)
  ultimately show ?thesis using g [OF r(2)] by auto
qed

text \<open>
  Typed failures only. Whatever the server sends, the llama.cpp adapter answers for the model asked, at
  no cost, or raises a typed inference failure.
\<close>

theorem llama_fails_typed:
  "case llama_complete L F pd now fr http A rq of
     Inr r \<Rightarrow> ir_model r = rq_model rq \<and> ir_cost r = None
   | Inl e \<Rightarrow> e \<in> typed_failures"
proof -
  have "raises_only answer_errors (read_llama m ref payload)" for m ref payload
    unfolding read_llama_def assistant_checked_def as_list_def
    by (intro raises; auto intro!: raises split: pyval.split list.split)
  then have "raises_only typed_failures (llama_complete L F pd now fr http A rq)"
    unfolding llama_complete_def
    by (auto intro!: raises local_qualified_raises meets_outcome inventory_meets ask_meets answered_raises split: option.split)
  moreover have "ir_model r = rq_model rq \<and> ir_cost r = None" if "llama_complete L F pd now fr http A rq = Inr r" for r
    using that unfolding llama_complete_def
    by (elim rbindE) (auto simp: answered_def read_llama_def split: option.splits if_splits sum.splits elim!: rbindE)
  ultimately show ?thesis by (auto simp: raises_only_def split: sum.split)
qed

section \<open>Example\<close>

text \<open>A server with one model, and what it answers, as text.\<close>

definition ex_gguf :: pyval where
  "ex_gguf = PDict [(KStr ''format'', PStr ''gguf'')]"

definition ex_said :: "string \<Rightarrow> pyval" where
  "ex_said p =
     (if p = ''/api/tags'' then PDict [(KStr ''models'', PList [PDict [(KStr ''name'', PStr ''m''), (KStr ''digest'', PStr ''d''), (KStr ''details'', ex_gguf)]])]
      else if p = ''/api/show'' then PDict [(KStr ''details'', ex_gguf), (KStr ''model_info'', PDict [(KStr ''n'', PInt 1)])]
      else PDict [(KStr ''model'', PStr ''m''), (KStr ''done'', PBool True),
                  (KStr ''message'', PDict [(KStr ''role'', PStr ''assistant''), (KStr ''content'', PStr ''ok'')])])"

definition ex_exchange :: exchange where
  "ex_exchange url body = Reply 200 [] [json_text toy_repr (ex_said url)] StreamDone"

definition ex_ollama :: local_adapter where
  "ex_ollama = \<lparr>la_runtime = ''ollama'', la_provider = ''ollama'', la_machine = ''default'',
     la_profile = \<lparr>rp_runtime = ''ollama'', rp_base = [], rp_remote = False, rp_timeout = 60, rp_limit = 200\<rparr>\<rparr>"

definition ex_ask_local :: inference_request where
  "ex_ask_local = \<lparr>rq_model = (ex_model ''b'' True)\<lparr>local_metadata := Some (ex_metadata\<lparr>runtime_digest := Some ''d''\<rparr>)\<rparr>,
     rq_messages = [TextMessage ''user'' ''hi''], rq_tools = [], rq_temperature = 0, rq_max_output = None, rq_task_id = None, rq_trace_id = None\<rparr>"

definition ex_local_answer :: inference_response where
  "ex_local_answer = \<lparr>ir_model = rq_model ex_ask_local, ir_content = Some ''ok'', ir_calls = [], ir_finish = ''unknown'', ir_usage = no_usage,
     ir_cost = None, ir_fallback = False\<rparr>"

lemma ex_local_completes:
  "ollama_complete ex_route_lib ex_files (\<lambda>_. None) 0 (\<lambda>_. ''x'') ex_exchange ex_ollama ex_ask_local = Inr ex_local_answer"
  by code_simp


lemma ex_tags: "runtime_json (\<lambda>_. None) 0 ex_exchange ex_ollama ''/api/tags'' None False = Inr (Some (ex_said ''/api/tags''))"
  by code_simp

theorem runtime_answer_bounded_witness: "loads_strict (json_text toy_repr (ex_said ''/api/tags'')) = Some (ex_said ''/api/tags'')"
  using runtime_answer_bounded [OF ex_tags] by (auto simp: ex_exchange_def ex_ollama_def)

end
