(* ===== verification/Workspace_Files.thy ===== *)
theory Workspace_Files imports Local_Runtime "HOL-Library.Sublist" begin

text \<open>
  The file system under tools/ai_cloud_workspace.py, as a POSIX host has it: a tree of directories,
  files and symbolic links, the system calls of \<open>os\<close>, \<open>pathlib\<close> and \<open>tempfile\<close> the tools make, each of
  which can fail, and \<open>_atomic_write\<close>. Every disk the calls leave behind is recorded, so that what
  another process, or the machine after a crash, can find is part of a run's result. No other
  process changes the workspace meanwhile.
\<close>

section \<open>Failures\<close>

text \<open>
  An \<open>OSError\<close> has its class, \<open>errno\<close>, \<open>winerror\<close> and \<open>strerror\<close>. The exceptions of the tools are
  \<open>ToolError\<close>, the \<open>OSError\<close>s, and any other class by its name.
\<close>

datatype os_error = OsFailure string "int option" "int option" "string option"

datatype ws_failure =
    ToolError string
  | SystemError os_error
  | Technical string

definition safe_error :: "ws_failure \<Rightarrow> string" where
  "safe_error e =
     (case e of
        ToolError m \<Rightarrow> m
      | SystemError (OsFailure name errno win message) \<Rightarrow>
          let details = (case errno of None \<Rightarrow> [] | Some n \<Rightarrow> [''errno='' @ dec_int n])
                        @ (case win of None \<Rightarrow> [] | Some n \<Rightarrow> [''winerror='' @ dec_int n])
          in ''Errore filesystem: '' @ (if set_text message then the message else name)
             @ (if details = [] then [] else '' ('' @ join '', '' details @ '')'') @ ''.''
      | Technical name \<Rightarrow> ''Errore tecnico ('' @ name @ '').'')"

definition missing_entry :: ws_failure where
  "missing_entry = SystemError (OsFailure ''FileNotFoundError'' (Some 2) None (Some ''No such file or directory''))"

definition existing_entry :: ws_failure where
  "existing_entry = SystemError (OsFailure ''FileExistsError'' (Some 17) None (Some ''File exists''))"

definition not_directory :: ws_failure where
  "not_directory = SystemError (OsFailure ''NotADirectoryError'' (Some 20) None (Some ''Not a directory''))"

definition is_directory :: ws_failure where
  "is_directory = SystemError (OsFailure ''IsADirectoryError'' (Some 21) None (Some ''Is a directory''))"

definition link_loop :: ws_failure where
  "link_loop = SystemError (OsFailure ''OSError'' (Some 40) None (Some ''Too many levels of symbolic links''))"

text \<open>\<open>except FileNotFoundError\<close>\<close>

fun is_missing :: "ws_failure \<Rightarrow> bool" where
  "is_missing (SystemError (OsFailure name _ _ _)) = (name = ''FileNotFoundError'')"
| "is_missing _ = False"

section \<open>The tree\<close>

text \<open>An absolute path is its components; a link leads to one. The order of a disk is that of \<open>iterdir\<close>.\<close>

type_synonym location = "string list"

datatype node = Directory | File string | Link location

type_synonym disk = "(location \<times> node) list"

definition node_at :: "disk \<Rightarrow> location \<Rightarrow> node option" where
  "node_at d p = (if p = [] then Some Directory else map_of d p)"

text \<open>
  \<open>os.path.realpath\<close>: components that do not exist stay as they are; more than \<open>n\<close> links are a loop.
\<close>

function walk :: "nat \<Rightarrow> disk \<Rightarrow> location \<Rightarrow> location \<Rightarrow> location option" where
  "walk n d p [] = Some p"
| "walk n d p (c # cs) =
     (case node_at d (p @ [c]) of
        Some (Link t) \<Rightarrow> (case n of 0 \<Rightarrow> None | Suc m \<Rightarrow> walk m d [] (t @ cs))
      | _ \<Rightarrow> walk n d (p @ [c]) cs)"
  by pat_completeness auto
termination
  by (relation "measures [\<lambda>(n, d, p, cs). n, \<lambda>(n, d, p, cs). length cs]") auto

definition max_links :: nat where
  "max_links = 40"

definition real_path :: "disk \<Rightarrow> location \<Rightarrow> location option" where
  "real_path d p = walk max_links d [] p"

text \<open>\<open>Path.resolve(strict=False)\<close>\<close>

definition resolve_path :: "disk \<Rightarrow> location \<Rightarrow> ws_failure + location" where
  "resolve_path d p = of_opt (Technical ''RuntimeError'') (real_path d p)"

definition relative_location :: "location \<Rightarrow> location \<Rightarrow> ws_failure + location" where
  "relative_location root_dir p = (if prefix root_dir p then Inr (drop (length root_dir) p) else Inl (Technical ''ValueError''))"

text \<open>What \<open>stat\<close> finds, and \<open>exists\<close>, \<open>is_dir\<close> and \<open>is_regular\<close>.\<close>

definition stat :: "disk \<Rightarrow> location \<Rightarrow> node option" where
  "stat d p = Option.bind (real_path d p) (node_at d)"

definition path_exists :: "disk \<Rightarrow> location \<Rightarrow> bool" where
  "path_exists d p \<longleftrightarrow> stat d p \<noteq> None"

definition is_dir :: "disk \<Rightarrow> location \<Rightarrow> bool" where
  "is_dir d p \<longleftrightarrow> stat d p = Some Directory"

definition is_regular :: "disk \<Rightarrow> location \<Rightarrow> bool" where
  "is_regular d p = (case stat d p of Some (File _) \<Rightarrow> True | _ \<Rightarrow> False)"

definition through_file :: "disk \<Rightarrow> location \<Rightarrow> bool" where
  "through_file d q = list_ex (\<lambda>k. case node_at d (take k q) of Some (File _) \<Rightarrow> True | _ \<Rightarrow> False) [0..<length q]"

text \<open>Where a call that does not follow a final link acts: the real parent and the last name.\<close>

definition entry_of :: "disk \<Rightarrow> location \<Rightarrow> ws_failure + location" where
  "entry_of d p =
     (if p = [] then Inr []
      else case real_path d (butlast p) of
             None \<Rightarrow> Inl link_loop
           | Some q \<Rightarrow>
               (case node_at d q of
                  None \<Rightarrow> Inl (if through_file d q then not_directory else missing_entry)
                | Some Directory \<Rightarrow> Inr (q @ [last p])
                | Some _ \<Rightarrow> Inl not_directory))"

section \<open>System calls\<close>

text \<open>
  The host: the configured root, the failures of the system (by the number of calls made; a write that
  fails may have written part), the names \<open>tempfile\<close> draws, the name of the probe file, and \<open>os.access\<close>.
\<close>

record workspace_host =
  wh_root :: location
  wh_faults :: "nat \<Rightarrow> (os_error \<times> nat) option"
  wh_draws :: "nat \<Rightarrow> string list"
  wh_probe :: string
  wh_readable :: "disk \<Rightarrow> bool"

text \<open>The world: the disk, the calls made, the disks they left (newest first), and the web requests made.\<close>

record fs_world =
  fw_disk :: disk
  fw_calls :: nat
  fw_seen :: "disk list"
  fw_lookups :: nat
  fw_fetched :: "string list"

type_synonym 'a fs_run = "fs_world \<Rightarrow> (ws_failure + 'a) \<times> fs_world"

definition fret :: "'a \<Rightarrow> 'a fs_run" where
  "fret a w = (Inr a, w)"

definition raising :: "ws_failure \<Rightarrow> 'a fs_run" where
  "raising e w = (Inl e, w)"

definition fbind :: "'a fs_run \<Rightarrow> ('a \<Rightarrow> 'b fs_run) \<Rightarrow> 'b fs_run" where
  "fbind m k w = (case m w of (Inl e, w1) \<Rightarrow> (Inl e, w1) | (Inr a, w1) \<Rightarrow> k a w1)"

definition looking :: "(disk \<Rightarrow> ws_failure + 'a) \<Rightarrow> 'a fs_run" where
  "looking f w = (f (fw_disk w), w)"

definition lifted :: "ws_failure + 'a \<Rightarrow> 'a fs_run" where
  "lifted r w = (r, w)"

text \<open>\<open>try: m finally: c\<close> and \<open>try: m except Exception as e: h(e)\<close>\<close>

definition finally_do :: "'a fs_run \<Rightarrow> unit fs_run \<Rightarrow> 'a fs_run" where
  "finally_do m c w = (case m w of (r, w1) \<Rightarrow> (case c w1 of (Inl e, w2) \<Rightarrow> (Inl e, w2) | (Inr _, w2) \<Rightarrow> (r, w2)))"

definition catching :: "'a fs_run \<Rightarrow> (ws_failure \<Rightarrow> 'a fs_run) \<Rightarrow> 'a fs_run" where
  "catching m h w = (case m w of (Inl e, w1) \<Rightarrow> h e w1 | (Inr a, w1) \<Rightarrow> (Inr a, w1))"

definition leave :: "disk \<Rightarrow> fs_world \<Rightarrow> fs_world" where
  "leave d w = w\<lparr>fw_disk := d, fw_calls := Suc (fw_calls w), fw_seen := d # fw_seen w\<rparr>"

definition system :: "workspace_host \<Rightarrow> (disk \<Rightarrow> ws_failure + 'a \<times> disk) \<Rightarrow> 'a fs_run" where
  "system H f w =
     (case wh_faults H (fw_calls w) of
        Some e \<Rightarrow> (Inl (SystemError (fst e)), leave (fw_disk w) w)
      | None \<Rightarrow>
          (case f (fw_disk w) of
             Inl e \<Rightarrow> (Inl e, leave (fw_disk w) w)
           | Inr (a, d) \<Rightarrow> (Inr a, leave d w)))"

definition make_dir :: "workspace_host \<Rightarrow> location \<Rightarrow> unit fs_run" where
  "make_dir H p = system H (\<lambda>d.
     rbind (entry_of d p) (\<lambda>q. if node_at d q \<noteq> None then Inl existing_entry else Inr ((), dict_set q Directory d)))"

text \<open>\<open>mkdir(exist_ok=True)\<close> without and with \<open>parents=True\<close>; the latter takes the reversed components.\<close>

definition ensure_dir :: "workspace_host \<Rightarrow> location \<Rightarrow> unit fs_run" where
  "ensure_dir H p =
     catching (make_dir H p) (\<lambda>e w. if \<not> is_missing e \<and> is_dir (fw_disk w) p then (Inr (), w) else (Inl e, w))"

primrec make_path :: "workspace_host \<Rightarrow> string list \<Rightarrow> unit fs_run" where
  "make_path H [] = ensure_dir H []"
| "make_path H (n # up) =
     catching (make_dir H (rev (n # up))) (\<lambda>e w.
       if is_missing e then fbind (make_path H up) (\<lambda>_. ensure_dir H (rev (n # up))) w
       else if is_dir (fw_disk w) (rev (n # up)) then (Inr (), w)
       else (Inl e, w))"

definition make_dirs :: "workspace_host \<Rightarrow> location \<Rightarrow> unit fs_run" where
  "make_dirs H p = make_path H (rev p)"

text \<open>\<open>NamedTemporaryFile(dir, prefix, suffix, delete=False)\<close>: the first drawn name that is free.\<close>

definition make_temp :: "workspace_host \<Rightarrow> location \<Rightarrow> string \<Rightarrow> string \<Rightarrow> location fs_run" where
  "make_temp H dir opening closing w =
     system H (\<lambda>d.
       case find (\<lambda>x. node_at d (dir @ [opening @ x @ closing]) = None) (wh_draws H (fw_calls w)) of
         None \<Rightarrow> Inl existing_entry
       | Some x \<Rightarrow>
           if node_at d dir = Some Directory
           then Inr (dir @ [opening @ x @ closing], dict_set (dir @ [opening @ x @ closing]) (File []) d)
           else Inl missing_entry) w"

definition content_at :: "disk \<Rightarrow> location \<Rightarrow> string" where
  "content_at d p = (case node_at d p of Some (File s) \<Rightarrow> s | _ \<Rightarrow> [])"

text \<open>A write to the open file at \<open>p\<close>; a failing one leaves what it had written.\<close>

definition append_to :: "workspace_host \<Rightarrow> location \<Rightarrow> string \<Rightarrow> unit fs_run" where
  "append_to H p data w =
     (let d = fw_disk w; now = content_at d p in
      case wh_faults H (fw_calls w) of
        Some (e, n) \<Rightarrow> (Inl (SystemError e), leave (dict_set p (File (now @ take n data)) d) w)
      | None \<Rightarrow> (Inr (), leave (dict_set p (File (now @ data)) d) w))"

definition sync :: "workspace_host \<Rightarrow> unit fs_run" where
  "sync H = system H (\<lambda>d. Inr ((), d))"

text \<open>\<open>os.replace\<close> of the file at \<open>src\<close>.\<close>

definition replace :: "workspace_host \<Rightarrow> location \<Rightarrow> location \<Rightarrow> unit fs_run" where
  "replace H src dst = system H (\<lambda>d.
     rbind (entry_of d dst) (\<lambda>q.
       if node_at d q = Some Directory then Inl is_directory
       else case node_at d src of
              None \<Rightarrow> Inl missing_entry
            | Some x \<Rightarrow> Inr ((), dict_set q x (dict_del src d))))"

definition unlink :: "workspace_host \<Rightarrow> location \<Rightarrow> unit fs_run" where
  "unlink H p = system H (\<lambda>d.
     rbind (entry_of d p) (\<lambda>q.
       case node_at d q of
         None \<Rightarrow> Inl missing_entry
       | Some Directory \<Rightarrow> Inl is_directory
       | Some _ \<Rightarrow> Inr ((), dict_del q d)))"

definition read_bytes :: "workspace_host \<Rightarrow> location \<Rightarrow> string fs_run" where
  "read_bytes H p = system H (\<lambda>d.
     case stat d p of
       None \<Rightarrow> Inl missing_entry
     | Some Directory \<Rightarrow> Inl is_directory
     | Some (File s) \<Rightarrow> Inr (s, d)
     | Some (Link _) \<Rightarrow> Inl link_loop)"

text \<open>\<open>write_bytes\<close> opens the file its path leads to and truncates it, then writes.\<close>

definition open_to_write :: "workspace_host \<Rightarrow> location \<Rightarrow> location fs_run" where
  "open_to_write H p = system H (\<lambda>d.
     case real_path d p of
       None \<Rightarrow> Inl link_loop
     | Some q \<Rightarrow>
         rbind (entry_of d q) (\<lambda>q.
           if node_at d q = Some Directory then Inl is_directory else Inr (q, dict_set q (File []) d)))"

definition write_bytes :: "workspace_host \<Rightarrow> location \<Rightarrow> string \<Rightarrow> unit fs_run" where
  "write_bytes H p data = fbind (open_to_write H p) (\<lambda>q. append_to H q data)"

section \<open>\<open>_atomic_write\<close>\<close>

text \<open>The \<open>finally\<close> clause: \<open>if temp_name and os.path.exists(temp_name): os.unlink(temp_name)\<close>.\<close>

definition discard :: "workspace_host \<Rightarrow> location \<Rightarrow> unit fs_run" where
  "discard H tmp w = (if path_exists (fw_disk w) tmp then unlink H tmp w else (Inr (), w))"

definition fill_and_replace :: "workspace_host \<Rightarrow> location \<Rightarrow> location \<Rightarrow> string \<Rightarrow> unit fs_run" where
  "fill_and_replace H dir dst data =
     fbind (make_temp H dir ''.ai-cloud-'' ''.tmp'') (\<lambda>tmp.
       finally_do
         (fbind (append_to H tmp data) (\<lambda>_. fbind (sync H) (\<lambda>_. replace H tmp dst)))
         (discard H tmp))"

definition within_root :: "workspace_host \<Rightarrow> string \<Rightarrow> location \<Rightarrow> unit fs_run" where
  "within_root H message p = (if prefix (wh_root H) p then fret () else raising (ToolError message))"

definition absent_or :: "bool \<Rightarrow> string \<Rightarrow> location \<Rightarrow> unit fs_run" where
  "absent_or overwrite message dst w =
     (if path_exists (fw_disk w) dst \<and> \<not> overwrite then (Inl (ToolError message), w) else (Inr (), w))"

definition atomic_write :: "workspace_host \<Rightarrow> location \<Rightarrow> string \<Rightarrow> bool \<Rightarrow> unit fs_run" where
  "atomic_write H dst data overwrite =
     fbind (make_dirs H (butlast dst)) (\<lambda>_.
     fbind (looking (\<lambda>d. resolve_path d (butlast dst))) (\<lambda>dir.
     fbind (within_root H ''La cartella di destinazione esce dalla workspace.'' dir) (\<lambda>_.
     fbind (absent_or overwrite ''Il file esiste gia; specificare overwrite=true per sostituirlo.'' dst) (\<lambda>_.
       fill_and_replace H dir dst data))))"

end
