(* ===== verification/Workspace.thy ===== *)
theory Workspace imports Workspace_Files begin

text \<open>
  tools/ai_cloud_workspace.py: the names and paths the tools accept, and the tools that list, read and
  write the workspace. A tool's result is the dictionary it hands to \<open>json.dumps\<close>; the JSONL audit log
  is left out.
\<close>

section \<open>Names\<close>

text \<open>\<open>unicodedata.normalize("NFKD", c).encode("ascii", "ignore")\<close> of one character.\<close>

definition folded :: "(nat \<times> nat \<times> string) list" where
  "folded =
     [(0xA0, 0xA0, '' ''), (0xA8, 0xA8, '' ''), (0xAA, 0xAA, ''a''), (0xAF, 0xAF, '' ''), (0xB2, 0xB2, ''2''), (0xB3, 0xB3, ''3''),
      (0xB4, 0xB4, '' ''), (0xB8, 0xB8, '' ''), (0xB9, 0xB9, ''1''), (0xBA, 0xBA, ''o''), (0xBC, 0xBC, ''14''), (0xBD, 0xBD, ''12''),
      (0xBE, 0xBE, ''34''), (0xC0, 0xC5, ''A''), (0xC7, 0xC7, ''C''), (0xC8, 0xCB, ''E''), (0xCC, 0xCF, ''I''), (0xD1, 0xD1, ''N''),
      (0xD2, 0xD6, ''O''), (0xD9, 0xDC, ''U''), (0xDD, 0xDD, ''Y''), (0xE0, 0xE5, ''a''), (0xE7, 0xE7, ''c''), (0xE8, 0xEB, ''e''),
      (0xEC, 0xEF, ''i''), (0xF1, 0xF1, ''n''), (0xF2, 0xF6, ''o''), (0xF9, 0xFC, ''u''), (0xFD, 0xFD, ''y''), (0xFF, 0xFF, ''y'')]"

definition ascii_fold :: "char \<Rightarrow> string" where
  "ascii_fold c =
     (let n = of_char c in
      if n < (128::nat) then [c]
      else case find (\<lambda>(lo, hi, s). lo \<le> n \<and> n \<le> hi) folded of None \<Rightarrow> [] | Some (lo, hi, s) \<Rightarrow> s)"

text \<open>\<open>re.sub("P+", r, s)\<close>; \<open>inside\<close> is being in a run.\<close>

fun subst_runs :: "(char \<Rightarrow> bool) \<Rightarrow> char \<Rightarrow> bool \<Rightarrow> string \<Rightarrow> string" where
  "subst_runs P r inside [] = []"
| "subst_runs P r inside (c # s) =
     (if P c then (if inside then [] else [r]) @ subst_runs P r True s else c # subst_runs P r False s)"

definition name_char :: "char \<Rightarrow> bool" where
  "name_char c \<longleftrightarrow> is_ascii_alnum c \<or> c \<in> set ''._()-''"

definition edge_char :: "char \<Rightarrow> bool" where
  "edge_char c \<longleftrightarrow> c \<in> set '' ._''"

definition clean_name :: "string \<Rightarrow> string" where
  "clean_name v =
     (let a = subst_runs is_space (CHR ''_'') False (strip (concat (map ascii_fold v)));
          b = map (\<lambda>c. if name_char c then c else CHR ''_'') a
      in strip_by edge_char (subst_runs (\<lambda>c. c = CHR ''_'') (CHR ''_'') False b))"

definition reserved_names :: "string list" where
  "reserved_names = [''CON'', ''PRN'', ''AUX'', ''NUL'']
     @ map (\<lambda>i. ''COM'' @ dec_nat i) [1..<10] @ map (\<lambda>i. ''LPT'' @ dec_nat i) [1..<10]"

definition sanitize_component :: "string \<Rightarrow> ws_failure + string" where
  "sanitize_component v =
     (let n = clean_name v in
      if n = [] then Inl (ToolError ''Il nome del file o della cartella non e valido.'')
      else if upper (takeWhile (\<lambda>c. c \<noteq> CHR ''.'') n) \<in> set reserved_names
      then Inl (ToolError ''Nome riservato da Windows non consentito.'')
      else Inr (take 120 n))"

section \<open>Paths\<close>

fun all_ok :: "('a \<Rightarrow> 'e + 'b) \<Rightarrow> 'a list \<Rightarrow> 'e + 'b list" where
  "all_ok f [] = Inr []"
| "all_ok f (x # xs) = rbind (f x) (\<lambda>y. rbind (all_ok f xs) (\<lambda>ys. Inr (y # ys)))"

text \<open>\<open>re.match("^[A-Za-z]:", s)\<close>\<close>

definition has_drive :: "string \<Rightarrow> bool" where
  "has_drive s = (case s of c # x # _ \<Rightarrow> is_ascii_alpha c \<and> x = CHR '':'' | _ \<Rightarrow> False)"

definition safe_path :: "workspace_host \<Rightarrow> disk \<Rightarrow> bool \<Rightarrow> string \<Rightarrow> ws_failure + location" where
  "safe_path H d allow_root rel =
     (let raw = strip rel;
          s = map (\<lambda>c. if c = CHR 0x5C then CHR ''/'' else c) raw;
          parts = filter (\<lambda>p. p \<noteq> []) (split_on (CHR ''/'') s)
      in if allow_root \<and> raw \<in> {[], ''.''} then Inr (wh_root H)
         else if raw = [] \<or> 240 < length raw then Inl (ToolError ''Percorso relativo vuoto o troppo lungo.'')
         else if startswith s ''/'' \<or> has_drive s
         then Inl (ToolError ''Sono consentiti soltanto percorsi relativi alla workspace.'')
         else if parts = [] \<or> list_ex (\<lambda>p. p \<in> {''.'', ''..''}) parts
         then Inl (ToolError ''Path traversal o percorso non valido bloccato.'')
         else rbind (all_ok sanitize_component parts) (\<lambda>safe.
              rbind (resolve_path d (wh_root H @ safe)) (\<lambda>p.
                if prefix (wh_root H) p then Inr p else Inl (ToolError ''Accesso fuori dalla workspace bloccato.''))))"

definition relative_name :: "workspace_host \<Rightarrow> disk \<Rightarrow> location \<Rightarrow> ws_failure + string" where
  "relative_name H d p =
     rbind (resolve_path d p) (\<lambda>q. rbind (relative_location (wh_root H) q) (\<lambda>r.
       Inr (if r = [] then ''.'' else map (\<lambda>c. if c = CHR 0x5C then CHR ''/'' else c) (join ''/'' r))))"

definition path_text :: "location \<Rightarrow> string" where
  "path_text p = ''/'' @ join ''/'' p"

text \<open>\<open>suffix\<close> and \<open>with_suffix\<close>: the part of a name from its last dot, unless the dot is at an end.\<close>

definition name_suffix :: "string \<Rightarrow> string" where
  "name_suffix n =
     (let tail = takeWhile (\<lambda>c. c \<noteq> CHR ''.'') (rev n) in
      if tail = [] \<or> length n \<le> Suc (length tail) then [] else CHR ''.'' # rev tail)"

definition path_suffix :: "location \<Rightarrow> string" where
  "path_suffix p = (if p = [] then [] else name_suffix (last p))"

definition with_suffix :: "location \<Rightarrow> string \<Rightarrow> ws_failure + location" where
  "with_suffix p s =
     (if p = [] then Inl (Technical ''ValueError'')
      else Inr (butlast p @ [take (length (last p) - length (name_suffix (last p))) (last p) @ s]))"

section \<open>Results\<close>

definition answer :: "(string \<times> pyval) list \<Rightarrow> pyval" where
  "answer kvs = PDict (map (\<lambda>(k, v). (KStr k, v)) kvs)"

definition refused :: "ws_failure \<Rightarrow> pyval fs_run" where
  "refused e = fret (answer [(''ok'', PBool False), (''error'', PStr (safe_error e))])"

definition refused_here :: "workspace_host \<Rightarrow> ws_failure \<Rightarrow> pyval fs_run" where
  "refused_here H e = fret (answer [(''ok'', PBool False), (''workspace'', PStr (path_text (wh_root H))), (''error'', PStr (safe_error e))])"

text \<open>The body of a tool from the path it is given on.\<close>

definition at_path :: "workspace_host \<Rightarrow> bool \<Rightarrow> string \<Rightarrow> (location \<Rightarrow> 'a fs_run) \<Rightarrow> 'a fs_run" where
  "at_path H allow_root rel k = fbind (looking (\<lambda>d. safe_path H d allow_root rel)) k"

section \<open>Encodings\<close>

definition utf8_char :: "char \<Rightarrow> string" where
  "utf8_char c = (let n = of_char c in if n < (128::nat) then [c] else [char_of (192 + n div 64), char_of (128 + n mod 64)])"

definition utf8 :: "string \<Rightarrow> string" where
  "utf8 s = concat (map utf8_char s)"

text \<open>
  \<open>decode("utf-8-sig")\<close>: a byte order mark is skipped. Text of the model has no character above 255;
  \<open>beyond\<close> says what longer sequences decode to (\<open>None\<close> is a \<open>UnicodeDecodeError\<close>).
\<close>

fun utf8_decode :: "(string \<Rightarrow> string option) \<Rightarrow> string \<Rightarrow> string option" where
  "utf8_decode beyond [] = Some []"
| "utf8_decode beyond [c] = (if of_char c < (128::nat) then Some [c] else beyond [c])"
| "utf8_decode beyond (c # x # s) =
     (if of_char c < (128::nat) then map_option (Cons c) (utf8_decode beyond (x # s))
      else if of_char c \<in> {194, 195::nat} \<and> 128 \<le> (of_char x :: nat) \<and> of_char x < (192::nat)
      then map_option (Cons (char_of ((of_char c - 192) * 64 + (of_char x - 128) :: nat))) (utf8_decode beyond s)
      else beyond (c # x # s))"

definition utf8_sig_decode :: "(string \<Rightarrow> string option) \<Rightarrow> string \<Rightarrow> ws_failure + string" where
  "utf8_sig_decode beyond s =
     of_opt (Technical ''UnicodeDecodeError'') (utf8_decode beyond (removeprefix s [CHR 0xEF, CHR 0xBB, CHR 0xBF]))"

section \<open>The tools\<close>

definition max_text_bytes :: nat where
  "max_text_bytes = 1000000"

definition max_read_chars :: nat where
  "max_read_chars = 200000"

definition max_entries :: nat where
  "max_entries = 500"

definition insist :: "bool \<Rightarrow> string \<Rightarrow> unit fs_run" where
  "insist b message = (if b then fret () else raising (ToolError message))"

definition probe_text :: string where
  "probe_text = ''ai-cloud-workspace-ok''"

definition probe_path :: "workspace_host \<Rightarrow> location" where
  "probe_path H = wh_root H @ [wh_probe H]"

text \<open>\<open>ensure_workspace\<close>: what the handler does depends on how far the probe got.\<close>

definition root_ready :: "workspace_host \<Rightarrow> unit fs_run" where
  "root_ready H =
     fbind (make_dirs H (wh_root H)) (\<lambda>_.
     fbind (looking (\<lambda>d. Inr (is_dir d (wh_root H)))) (\<lambda>b. insist b ''Il percorso workspace non e una cartella.''))"

definition probe_root :: "workspace_host \<Rightarrow> bool fs_run" where
  "probe_root H =
     fbind (write_bytes H (probe_path H) probe_text) (\<lambda>_.
     fbind (read_bytes H (probe_path H)) (\<lambda>s.
     fbind (unlink H (probe_path H)) (\<lambda>_. fret (s = probe_text))))"

definition drop_probe :: "workspace_host \<Rightarrow> unit fs_run" where
  "drop_probe H w =
     (if path_exists (fw_disk w) (probe_path H)
      then catching (unlink H (probe_path H)) (\<lambda>_. fret ()) w else (Inr (), w))"

definition unready :: "workspace_host \<Rightarrow> ws_failure \<Rightarrow> pyval fs_run" where
  "unready H e = looking (\<lambda>d. Inr (answer
     [(''ok'', PBool False), (''workspace'', PStr (path_text (wh_root H))), (''exists'', PBool (is_dir d (wh_root H))),
      (''readable'', PBool (wh_readable H d)), (''writable'', PBool False), (''error'', PStr (safe_error e))]))"

definition ensure_workspace :: "workspace_host \<Rightarrow> pyval fs_run" where
  "ensure_workspace H =
     catching
       (fbind (root_ready H) (\<lambda>_.
        fbind (catching (probe_root H) (\<lambda>e. fbind (drop_probe H) (\<lambda>_. raising e))) (\<lambda>readable.
        fbind (insist readable ''La verifica di lettura della workspace non e riuscita.'') (\<lambda>_.
          fret (answer [(''ok'', PBool True), (''workspace'', PStr (path_text (wh_root H))), (''exists'', PBool True),
                        (''readable'', PBool True), (''writable'', PBool True)])))))
       (unready H)"

definition create_directory :: "workspace_host \<Rightarrow> string \<Rightarrow> pyval fs_run" where
  "create_directory H rel =
     catching
       (at_path H False rel (\<lambda>p.
        fbind (make_dirs H p) (\<lambda>_.
        fbind (looking (\<lambda>d. relative_name H d p)) (\<lambda>r.
          fret (answer [(''ok'', PBool True), (''path'', PStr (path_text p)), (''relative_path'', PStr r)])))))
       refused"

text \<open>The entries of a directory, the directories first, then by name without case.\<close>

definition entries_in :: "disk \<Rightarrow> location \<Rightarrow> location list" where
  "entries_in d p = filter (\<lambda>q. q \<noteq> [] \<and> butlast q = p) (map fst d)"

definition listing :: "disk \<Rightarrow> location \<Rightarrow> location list" where
  "listing d p = sort_key (\<lambda>q. (\<not> is_dir d q, lower (last q))) (entries_in d p)"

definition entry_row :: "workspace_host \<Rightarrow> disk \<Rightarrow> location \<Rightarrow> ws_failure + pyval" where
  "entry_row H d q =
     (case stat d q of
        None \<Rightarrow> Inl missing_entry
      | Some x \<Rightarrow>
          rbind (relative_name H d q) (\<lambda>r.
            Inr (answer [(''name'', PStr (last q)), (''type'', PStr (if x = Directory then ''directory'' else ''file'')),
                         (''size_bytes'', case x of File s \<Rightarrow> PInt (int (length s)) | _ \<Rightarrow> PNone), (''relative_path'', PStr r)])))"

definition list_directory :: "workspace_host \<Rightarrow> string \<Rightarrow> pyval fs_run" where
  "list_directory H rel =
     catching
       (at_path H True rel (\<lambda>p.
        fbind (looking (\<lambda>d. Inr (is_dir d p))) (\<lambda>b.
        fbind (insist b ''La cartella richiesta non esiste.'') (\<lambda>_.
        fbind (system H (\<lambda>d.
                 rbind (of_opt link_loop (real_path d p)) (\<lambda>q.
                 rbind (all_ok (entry_row H d) (take max_entries (listing d q))) (\<lambda>rows. Inr (rows, d))))) (\<lambda>rows.
          fret (answer [(''ok'', PBool True), (''path'', PStr (path_text p)), (''entries'', PList rows),
                        (''truncated'', PBool (max_entries \<le> length rows))]))))))
       refused"

definition read_limit :: "int \<Rightarrow> nat" where
  "read_limit n = nat (max 1 (min n (int max_read_chars)))"

definition file_size :: "workspace_host \<Rightarrow> location \<Rightarrow> nat fs_run" where
  "file_size H p = system H (\<lambda>d. case stat d p of Some (File s) \<Rightarrow> Inr (length s, d) | Some _ \<Rightarrow> Inr (0, d) | None \<Rightarrow> Inl missing_entry)"

definition read_file :: "(string \<Rightarrow> string option) \<Rightarrow> workspace_host \<Rightarrow> string \<Rightarrow> int \<Rightarrow> pyval fs_run" where
  "read_file beyond H rel max_chars =
     catching
       (at_path H False rel (\<lambda>p.
        fbind (looking (\<lambda>d. Inr (is_regular d p))) (\<lambda>b.
        fbind (insist b ''Il file richiesto non esiste.'') (\<lambda>_.
        fbind (file_size H p) (\<lambda>size.
        fbind (insist (size \<le> max_text_bytes) ''File troppo grande per la lettura controllata.'') (\<lambda>_.
        fbind (read_bytes H p) (\<lambda>s.
        fbind (insist (CHR 0x00 \<notin> set (take 4096 s)) ''La lettura diretta di file binari non e consentita.'') (\<lambda>_.
        fbind (lifted (utf8_sig_decode beyond s)) (\<lambda>t.
          fret (answer [(''ok'', PBool True), (''path'', PStr (path_text p)), (''content'', PStr (take (read_limit max_chars) t)),
                        (''truncated'', PBool (read_limit max_chars < length t))]))))))))))
       refused"

text \<open>The four tools that write share what follows the choice of the path.\<close>

definition put_file ::
  "workspace_host \<Rightarrow> string \<Rightarrow> location \<Rightarrow> string \<Rightarrow> bool \<Rightarrow> (string \<times> pyval) list \<Rightarrow> pyval fs_run" where
  "put_file H too_large p data overwrite extra =
     fbind (insist (length data \<le> max_text_bytes) too_large) (\<lambda>_.
     fbind (atomic_write H p data overwrite) (\<lambda>_.
     fbind (looking (\<lambda>d. relative_name H d p)) (\<lambda>r.
       fret (answer ([(''ok'', PBool True)] @ extra @
                     [(''path'', PStr (path_text p)), (''relative_path'', PStr r), (''size_bytes'', PInt (int (length data)))])))))"

definition too_large_text :: string where
  "too_large_text = ''Contenuto troppo grande: limite 1 MB.''"

definition write_file :: "workspace_host \<Rightarrow> string \<Rightarrow> string \<Rightarrow> bool \<Rightarrow> pyval fs_run" where
  "write_file H rel content overwrite =
     catching (at_path H False rel (\<lambda>p. put_file H too_large_text p (utf8 content) overwrite [])) refused"

definition write_text_file :: "workspace_host \<Rightarrow> string \<Rightarrow> string \<Rightarrow> pyval fs_run" where
  "write_text_file H rel content =
     catching
       (at_path H False rel (\<lambda>p. put_file H too_large_text p (utf8 content) True [(''workspace'', PStr (path_text (wh_root H)))]))
       (refused_here H)"

definition file_exists :: "workspace_host \<Rightarrow> string \<Rightarrow> pyval fs_run" where
  "file_exists H rel =
     catching
       (at_path H False rel (\<lambda>p.
        fbind (looking (\<lambda>d. rbind (relative_name H d p) (\<lambda>r. Inr (answer
          [(''ok'', PBool True), (''workspace'', PStr (path_text (wh_root H))), (''exists'', PBool (path_exists d p)),
           (''type'', if is_dir d p then PStr ''directory'' else if is_regular d p then PStr ''file'' else PNone),
           (''path'', PStr (path_text p)), (''relative_path'', PStr r)])))) fret))
       (refused_here H)"

definition save_text :: "workspace_host \<Rightarrow> string \<Rightarrow> string \<Rightarrow> bool \<Rightarrow> pyval fs_run" where
  "save_text H rel content overwrite =
     catching
       (at_path H False rel (\<lambda>p.
        fbind (lifted (if lower (path_suffix p) \<notin> {''.txt'', ''.md''} then with_suffix p ''.txt'' else Inr p)) (\<lambda>q.
          put_file H too_large_text q (utf8 content) overwrite [])))
       refused"

text \<open>\<open>dump\<close> is \<open>json.dumps(data, ensure_ascii=False, indent=2)\<close>, which may raise.\<close>

definition save_json :: "(pyval \<Rightarrow> ws_failure + string) \<Rightarrow> workspace_host \<Rightarrow> string \<Rightarrow> pyval \<Rightarrow> bool \<Rightarrow> pyval fs_run" where
  "save_json dump H rel data overwrite =
     catching
       (at_path H False rel (\<lambda>p.
        fbind (lifted (if lower (path_suffix p) \<noteq> ''.json'' then with_suffix p ''.json'' else Inr p)) (\<lambda>q.
        fbind (lifted (dump data)) (\<lambda>s.
          put_file H ''JSON troppo grande: limite 1 MB.'' q (utf8 (s @ [CHR 0x0A])) overwrite []))))
       refused"

end
