(* ===== verification/Workspace_Download.thy ===== *)
theory Workspace_Download imports Workspace begin

text \<open>
  tools/ai_cloud_workspace.py: the tools that reach the public web. What \<open>urllib.parse\<close> finds in an
  address, the name service, what \<open>ipaddress\<close> says of an address and the servers are arguments; the
  name service and the servers may answer differently each time.
\<close>

section \<open>The web\<close>

record ip_facts =
  ip_private :: bool
  ip_loopback :: bool
  ip_link_local :: bool
  ip_multicast :: bool
  ip_reserved :: bool
  ip_unspecified :: bool

text \<open>\<open>getaddrinfo\<close>: a \<open>gaierror\<close>, another exception by its class, or the addresses.\<close>

datatype name_lookup = Unknown | Illegal string | Found "string list"

text \<open>A request raises an exception of a class, or gives status, headers, the body's chunks and what broke it off.\<close>

datatype web_reply = WebError string | WebReply int "(string \<times> string) list" "string list" "string option"

record web =
  wb_split :: "string \<Rightarrow> url_parts option"
  wb_text :: "string \<Rightarrow> string"
  wb_join :: "string \<Rightarrow> string \<Rightarrow> string option"
  wb_unquote :: "string \<Rightarrow> string"
  wb_names :: "nat \<Rightarrow> string \<Rightarrow> nat \<Rightarrow> name_lookup"
  wb_ip :: "string \<Rightarrow> ip_facts option"
  wb_fetch :: "nat \<Rightarrow> string \<Rightarrow> web_reply"

abbreviation value_error :: ws_failure where
  "value_error \<equiv> Technical ''ValueError''"

definition local_address :: "ip_facts \<Rightarrow> bool" where
  "local_address f \<longleftrightarrow> ip_private f \<or> ip_loopback f \<or> ip_link_local f \<or> ip_multicast f \<or> ip_reserved f \<or> ip_unspecified f"

definition check_address :: "web \<Rightarrow> string \<Rightarrow> ws_failure + unit" where
  "check_address W a =
     rbind (of_opt value_error (wb_ip W a)) (\<lambda>f.
       guard (\<not> local_address f) (ToolError ''Download da indirizzi locali o riservati bloccato.''))"

definition web_port :: "url_parts \<Rightarrow> nat option \<Rightarrow> nat" where
  "web_port u port =
     (case port of Some (Suc n) \<Rightarrow> Suc n | _ \<Rightarrow> if up_scheme u = ''https'' then 443 else 80)"

text \<open>\<open>_validate_public_url\<close>, the \<open>i\<close>-th name lookup.\<close>

definition validate_public_url :: "web \<Rightarrow> nat \<Rightarrow> string \<Rightarrow> ws_failure + string" where
  "validate_public_url W i url =
     rbind (of_opt value_error (wb_split W (strip url))) (\<lambda>u.
     rbind (guard (up_scheme u \<in> {''http'', ''https''} \<and> set_text (up_host u))
              (ToolError ''Sono consentiti soltanto URL pubblici HTTP o HTTPS.'')) (\<lambda>_.
     rbind (guard (\<not> set_text (up_user u) \<and> \<not> set_text (up_password u))
              (ToolError ''URL con credenziali incorporate non consentiti.'')) (\<lambda>_.
     rbind (case up_port u of Inl _ \<Rightarrow> Inl value_error | Inr p \<Rightarrow> Inr p) (\<lambda>port.
       case wb_names W i (the (up_host u)) (web_port u port) of
         Unknown \<Rightarrow> Inl (ToolError ''Impossibile risolvere il nome host.'')
       | Illegal name \<Rightarrow> Inl (Technical name)
       | Found addresses \<Rightarrow> rbind (all_ok (check_address W) addresses) (\<lambda>_. Inr (wb_text W (strip url)))))))"

definition check_url :: "web \<Rightarrow> string \<Rightarrow> string fs_run" where
  "check_url W url w = (validate_public_url W (fw_lookups w) url, w\<lparr>fw_lookups := Suc (fw_lookups w)\<rparr>)"

definition get_url :: "web \<Rightarrow> string \<Rightarrow> web_reply fs_run" where
  "get_url W url w = (Inr (wb_fetch W (length (fw_fetched w)) url), w\<lparr>fw_fetched := url # fw_fetched w\<rparr>)"

section \<open>What may be stored\<close>

definition max_download_bytes :: nat where
  "max_download_bytes = 10 * 1024 * 1024"

definition mime_extensions :: "(string \<times> string) list" where
  "mime_extensions =
     [(''image/jpeg'', ''.jpg''), (''image/png'', ''.png''), (''image/gif'', ''.gif''), (''image/webp'', ''.webp''),
      (''text/plain'', ''.txt''), (''text/markdown'', ''.md''), (''text/csv'', ''.csv''), (''application/json'', ''.json''),
      (''application/pdf'', ''.pdf'')]"

definition verify_content :: "string \<Rightarrow> string \<Rightarrow> ws_failure + unit" where
  "verify_content ct data =
     (if ct = ''image/jpeg'' \<and> \<not> startswith data [CHR 0xFF, CHR 0xD8, CHR 0xFF]
      then Inl (ToolError (''Il contenuto non corrisponde a un'' @ [CHR 0x27] @ ''immagine JPEG valida.''))
      else if ct = ''image/png'' \<and> \<not> startswith data ([CHR 0x89] @ ''PNG'' @ [CHR 0x0D, CHR 0x0A, CHR 0x1A, CHR 0x0A])
      then Inl (ToolError (''Il contenuto non corrisponde a un'' @ [CHR 0x27] @ ''immagine PNG valida.''))
      else if ct = ''image/gif'' \<and> \<not> (startswith data ''GIF87a'' \<or> startswith data ''GIF89a'')
      then Inl (ToolError (''Il contenuto non corrisponde a un'' @ [CHR 0x27] @ ''immagine GIF valida.''))
      else if ct = ''image/webp'' \<and> \<not> (startswith data ''RIFF'' \<and> take 4 (drop 8 data) = ''WEBP'')
      then Inl (ToolError (''Il contenuto non corrisponde a un'' @ [CHR 0x27] @ ''immagine WebP valida.''))
      else if ct = ''application/pdf'' \<and> \<not> startswith data ''%PDF-''
      then Inl (ToolError ''Il contenuto non corrisponde a un PDF valido.'')
      else if (startswith ct ''text/'' \<or> ct = ''application/json'') \<and> CHR 0x00 \<in> set (take 4096 data)
      then Inl (ToolError ''Payload binario sospetto rifiutato.'')
      else Inr ())"

definition content_type_of :: "(string \<times> string) list \<Rightarrow> string" where
  "content_type_of headers =
     (let t = lower (strip (takeWhile (\<lambda>c. c \<noteq> CHR '';'') (case header headers ''content-type'' of None \<Rightarrow> [] | Some v \<Rightarrow> v)))
      in if t = ''image/jpg'' then ''image/jpeg'' else t)"

text \<open>\<open>int(text)\<close>, with the interpreter's limit of 4300 digits.\<close>

definition py_int :: "string \<Rightarrow> int option" where
  "py_int v =
     (case sign_of (strip v) of (neg, ds) \<Rightarrow>
        if ds = [] \<or> \<not> grouped ds \<or> 4300 < length (ungroup ds) then None
        else Some (if neg then - int (digits_value (ungroup ds)) else int (digits_value (ungroup ds))))"

text \<open>\<open>if declared and int(declared) > _MAX_DOWNLOAD_BYTES\<close>\<close>

definition check_declared :: "(string \<times> string) list \<Rightarrow> ws_failure + unit" where
  "check_declared headers =
     (case header headers ''content-length'' of
        Some (c # s) \<Rightarrow>
          rbind (of_opt value_error (py_int (c # s))) (\<lambda>n.
            guard (n \<le> int max_download_bytes) (ToolError ''File troppo grande: limite 10 MB.''))
      | _ \<Rightarrow> Inr ())"

text \<open>\<open>re.search\<close> of a marker and the run of other characters after it, the names compared without case.\<close>

fun find_group :: "(string \<Rightarrow> 'a option) \<Rightarrow> string \<Rightarrow> 'a option" where
  "find_group f [] = f []"
| "find_group f (c # s) = (case f (c # s) of Some x \<Rightarrow> Some x | None \<Rightarrow> find_group f s)"

definition after_marker :: "string \<Rightarrow> bool \<Rightarrow> string \<Rightarrow> string \<Rightarrow> string option" where
  "after_marker marker quoted stops s =
     (if startswith (lower s) marker
      then let r = drop (length marker) s;
               r = (if quoted \<and> startswith r [CHR 0x22] then tl r else r);
               g = takeWhile (\<lambda>c. c \<notin> set stops) r
           in if g = [] then None else Some g
      else None)"

definition posix_name :: "string \<Rightarrow> string" where
  "posix_name p = (case filter (\<lambda>x. x \<notin> {[], ''.''}) (split_on (CHR ''/'') p) of [] \<Rightarrow> [] | xs \<Rightarrow> last xs)"

definition filename_from_response :: "web \<Rightarrow> (string \<times> string) list \<Rightarrow> string \<Rightarrow> ws_failure + string" where
  "filename_from_response W headers url =
     (let s = (case header headers ''content-disposition'' of None \<Rightarrow> [] | Some v \<Rightarrow> v);
          found = (case find_group (after_marker (''filename*=utf-8'' @ [CHR 0x27, CHR 0x27]) False '';'') s of
                     Some g \<Rightarrow> Some g
                   | None \<Rightarrow> find_group (after_marker ''filename='' True [CHR 0x22, CHR '';'']) s)
      in rbind (case found of
                  Some g \<Rightarrow> Inr (wb_unquote W g)
                | None \<Rightarrow> rbind (of_opt value_error (wb_split W url)) (\<lambda>u. Inr (wb_unquote W (posix_name (up_path u)))))
           (\<lambda>v. sanitize_component (if v = [] then ''download'' else v)))"

section \<open>\<open>download_file\<close>\<close>

text \<open>The request and its redirects; the loop makes at most \<open>n\<close> requests.\<close>

fun follow :: "web \<Rightarrow> nat \<Rightarrow> string \<Rightarrow> (string \<times> web_reply) fs_run" where
  "follow W 0 url = raising (ToolError ''Troppi redirect durante il download.'')"
| "follow W (Suc n) url =
     fbind (check_url W url) (\<lambda>_.
     fbind (get_url W url) (\<lambda>r.
       case r of
         WebError name \<Rightarrow> raising (Technical name)
       | WebReply code headers chunks broken \<Rightarrow>
           if code \<in> {301, 302, 303, 307, 308}
           then (case header headers ''location'' of
                   Some (c # s) \<Rightarrow>
                     fbind (lifted (of_opt value_error (wb_join W url (c # s)))) (\<lambda>to.
                     fbind (check_url W to) (\<lambda>url'. follow W n url'))
                 | _ \<Rightarrow> raising (ToolError ''Redirect privo di destinazione.''))
           else fret (url, r)))"

definition download_target ::
  "web \<Rightarrow> workspace_host \<Rightarrow> disk \<Rightarrow> (string \<times> string) list \<Rightarrow> string \<Rightarrow> string \<Rightarrow> string \<Rightarrow> ws_failure + location" where
  "download_target W H d headers ct url rel =
     rbind (filename_from_response W headers url) (\<lambda>name.
     rbind (if rel \<noteq> []
            then rbind (safe_path H d False rel) (\<lambda>q. Inr (if path_suffix q = [] then q @ [name] else q))
            else safe_path H d False name) (\<lambda>t.
     let ext = the (map_of mime_extensions ct)
     in if lower (path_suffix t) \<in> {ext} \<union> (if ct = ''image/jpeg'' then {''.jpeg''} else {}) then Inr t else with_suffix t ext))"

text \<open>What a download is once its reply is accepted: where it goes, its type, address and body.\<close>

record download_job =
  dj_dir :: location
  dj_target :: location
  dj_type :: string
  dj_url :: string
  dj_chunks :: "string list"
  dj_broken :: "string option"

definition accept_reply :: "web \<Rightarrow> workspace_host \<Rightarrow> string \<Rightarrow> bool \<Rightarrow> string \<times> web_reply \<Rightarrow> download_job fs_run" where
  "accept_reply W H rel overwrite ur =
     (case ur of
        (url, WebError name) \<Rightarrow> raising (Technical name)
      | (url, WebReply code headers chunks broken) \<Rightarrow>
          let ct = content_type_of headers in
          fbind (insist (200 \<le> code \<and> code < 300) (''Download non riuscito: HTTP '' @ dec_int code @ ''.'')) (\<lambda>_.
          fbind (insist (map_of mime_extensions ct \<noteq> None)
                   (''Content-Type non consentito: '' @ (if ct = [] then ''mancante'' else ct) @ ''.'')) (\<lambda>_.
          fbind (lifted (check_declared headers)) (\<lambda>_.
          fbind (looking (\<lambda>d. download_target W H d headers ct url rel)) (\<lambda>target.
          fbind (make_dirs H (butlast target)) (\<lambda>_.
          fbind (looking (\<lambda>d. resolve_path d (butlast target))) (\<lambda>dir.
          fbind (within_root H ''Destinazione fuori dalla workspace bloccata.'' dir) (\<lambda>_.
          fbind (absent_or overwrite ''Il file esiste gia; usare un nuovo nome o overwrite=true.'' target) (\<lambda>_.
            fret \<lparr>dj_dir = dir, dj_target = target, dj_type = ct, dj_url = url, dj_chunks = chunks, dj_broken = broken\<rparr>)))))))))"

definition prepare_download :: "web \<Rightarrow> workspace_host \<Rightarrow> string \<Rightarrow> string \<Rightarrow> bool \<Rightarrow> download_job fs_run" where
  "prepare_download W H url rel overwrite =
     fbind (check_url W url) (\<lambda>u. fbind (follow W 6 u) (accept_reply W H rel overwrite))"

fun receive :: "workspace_host \<Rightarrow> location \<Rightarrow> nat \<Rightarrow> string list \<Rightarrow> nat fs_run" where
  "receive H tmp got [] = fret got"
| "receive H tmp got (c # cs) =
     fbind (insist (got + length c \<le> max_download_bytes) ''File troppo grande: limite 10 MB.'') (\<lambda>_.
     fbind (append_to H tmp c) (\<lambda>_. receive H tmp (got + length c) cs))"

definition place_download :: "workspace_host \<Rightarrow> location \<Rightarrow> download_job \<Rightarrow> nat fs_run" where
  "place_download H tmp j =
     fbind (receive H tmp 0 (dj_chunks j)) (\<lambda>got.
     fbind (case dj_broken j of None \<Rightarrow> fret () | Some name \<Rightarrow> raising (Technical name)) (\<lambda>_.
     fbind (sync H) (\<lambda>_.
     fbind (read_bytes H tmp) (\<lambda>data.
     fbind (insist (data \<noteq> []) ''Il server ha restituito un file vuoto.'') (\<lambda>_.
     fbind (lifted (verify_content (dj_type j) data)) (\<lambda>_.
     fbind (replace H tmp (dj_target j)) (\<lambda>_. fret got)))))))"

definition report_download :: "workspace_host \<Rightarrow> download_job \<Rightarrow> nat \<Rightarrow> pyval fs_run" where
  "report_download H j got =
     fbind (looking (\<lambda>d. relative_name H d (dj_target j))) (\<lambda>r.
       fret (answer [(''ok'', PBool True), (''path'', PStr (path_text (dj_target j))), (''relative_path'', PStr r),
                     (''content_type'', PStr (dj_type j)), (''size_bytes'', PInt (int got)), (''source_url'', PStr (dj_url j)),
                     (''executed'', PBool False)]))"

text \<open>
  The temporary file is there until it has replaced the target; the \<open>finally\<close> clause runs after the
  \<open>except\<close> clause has made the answer, so a failure of its own leaves the tool.
\<close>

definition store_download :: "workspace_host \<Rightarrow> download_job \<Rightarrow> pyval fs_run" where
  "store_download H j w =
     (case make_temp H (dj_dir j) ''.download-'' ''.part'' w of
        (Inl e, w1) \<Rightarrow> refused e w1
      | (Inr tmp, w1) \<Rightarrow>
          (case place_download H tmp j w1 of
             (Inl e, w2) \<Rightarrow> finally_do (refused e) (discard H tmp) w2
           | (Inr got, w2) \<Rightarrow> catching (report_download H j got) refused w2))"

definition download_file :: "web \<Rightarrow> workspace_host \<Rightarrow> string \<Rightarrow> string \<Rightarrow> bool \<Rightarrow> pyval fs_run" where
  "download_file W H url rel overwrite w =
     (case prepare_download W H url rel overwrite w of
        (Inl e, w1) \<Rightarrow> refused e w1
      | (Inr j, w1) \<Rightarrow> store_download H j w1)"

section \<open>Images\<close>

definition answer_field :: "pyval \<Rightarrow> string \<Rightarrow> pyval" where
  "answer_field v k = (case v of PDict d \<Rightarrow> field d k | _ \<Rightarrow> PNone)"

definition text_of :: "pyval \<Rightarrow> string" where
  "text_of v = (case v of PStr s \<Rightarrow> s | _ \<Rightarrow> [])"

text \<open>\<open>Path(text)\<close> of an absolute path as \<open>str\<close> writes it.\<close>

definition location_of :: "string \<Rightarrow> location" where
  "location_of s = filter (\<lambda>c. c \<noteq> []) (split_on (CHR ''/'') s)"

text \<open>\<open>except (OSError, ValueError): pass\<close>\<close>

definition drop_saved :: "workspace_host \<Rightarrow> location \<Rightarrow> unit fs_run" where
  "drop_saved H saved =
     catching
       (fbind (lifted (relative_location (wh_root H) saved)) (\<lambda>_.
        fbind (looking (\<lambda>d. Inr (is_regular d saved))) (\<lambda>b. if b then unlink H saved else fret ())))
       (\<lambda>_. fret ())"

definition download_image :: "web \<Rightarrow> workspace_host \<Rightarrow> string \<Rightarrow> string \<Rightarrow> pyval fs_run" where
  "download_image W H url rel =
     fbind (download_file W H url rel False) (\<lambda>result.
       if \<not> py_true (answer_field result ''ok'') then fret result
       else if startswith (text_of (answer_field result ''content_type'')) ''image/'' then fret result
       else fbind (looking (\<lambda>d. resolve_path d (location_of (text_of (answer_field result ''path''))))) (\<lambda>saved.
            fbind (drop_saved H saved) (\<lambda>_.
              refused_here H (ToolError (''Il contenuto scaricato non e un'' @ [CHR 0x27] @ ''immagine consentita.'')))))"

record image_hit =
  ih_title :: "string option"
  ih_image :: "string option"
  ih_page :: "string option"
  ih_thumbnail :: "string option"

definition hit_row :: "web \<Rightarrow> image_hit \<Rightarrow> ws_failure + pyval list" where
  "hit_row W h =
     (let url = (case ih_image h of None \<Rightarrow> [] | Some s \<Rightarrow> s) in
      rbind (of_opt value_error (wb_split W url)) (\<lambda>u.
        Inr (if up_scheme u \<notin> {''http'', ''https''} then []
             else [answer [(''title'', opt_str (ih_title h)), (''image_url'', PStr url), (''source_page'', opt_str (ih_page h)),
                           (''thumbnail'', opt_str (ih_thumbnail h))]])))"

text \<open>\<open>find_images\<close> is the search service, a package.\<close>

definition search_images :: "web \<Rightarrow> (string \<Rightarrow> nat \<Rightarrow> ws_failure + image_hit list) \<Rightarrow> string \<Rightarrow> int \<Rightarrow> pyval fs_run" where
  "search_images W find_images what wanted_hits =
     (let limit = nat (max 1 (min wanted_hits 8)) in
      catching
        (fbind (lifted (rbind (find_images what limit) (all_ok (hit_row W)))) (\<lambda>rows.
           fret (answer [(''ok'', PBool True), (''results'', PList (take limit (concat rows)))])))
        refused)"

end
