(* ===== verification/Workspace_Safety.thy ===== *)
theory Workspace_Safety imports Workspace_Download begin

text \<open>
  What the workspace tools keep of a disk at every moment of a run. The contract \<open>disk_policy\<close> says
  which entries may be made, filled and dropped; its lemmas hold of every call and of the two ways the
  tools store a file. It is interpreted by the confinement to the workspace and by a file's being
  either what it was or wholly the new content.
\<close>

section \<open>Runs and the disks they leave\<close>

definition always :: "(disk \<Rightarrow> bool) \<Rightarrow> fs_world \<Rightarrow> bool" where
  "always I w \<longleftrightarrow> I (fw_disk w) \<and> list_all I (fw_seen w)"

definition keeps :: "(fs_world \<Rightarrow> bool) \<Rightarrow> 'a fs_run \<Rightarrow> bool" where
  "keeps P m \<longleftrightarrow> (\<forall>w. P w \<longrightarrow> P (snd (m w)))"

named_theorems keeping

lemma keepsD: "keeps P m \<Longrightarrow> P w \<Longrightarrow> m w = (r, w') \<Longrightarrow> P w'"
  unfolding keeps_def by (metis snd_conv)

lemma always_disk: "always I w \<Longrightarrow> I (fw_disk w)"
  by (simp add: always_def)

lemma always_leave [simp]: "always I (leave d w) \<longleftrightarrow> I d \<and> list_all I (fw_seen w)"
  by (auto simp: always_def leave_def)

lemma leave_simps [simp]: "fw_disk (leave d w) = d" "fw_calls (leave d w) = Suc (fw_calls w)" "fw_seen (leave d w) = d # fw_seen w"
  "fw_fetched (leave d w) = fw_fetched w" "fw_lookups (leave d w) = fw_lookups w"
  by (simp_all add: leave_def)

lemma keeps_fret [keeping]: "keeps P (fret a)"
  by (simp add: keeps_def fret_def)

lemma keeps_raising [keeping]: "keeps P (raising e)"
  by (simp add: keeps_def raising_def)

lemma keeps_looking [keeping]: "keeps P (looking f)"
  by (simp add: keeps_def looking_def)

lemma keeps_lifted [keeping]: "keeps P (lifted r)"
  by (simp add: keeps_def lifted_def)

lemma keeps_check [keeping]: "keeps P (insist b m)"
  by (simp add: insist_def keeps_fret keeps_raising)

lemma keeps_within_root [keeping]: "keeps P (within_root H m p)"
  by (simp add: within_root_def keeps_fret keeps_raising)

lemma keeps_absent_or [keeping]: "keeps P (absent_or b m p)"
  by (simp add: keeps_def absent_or_def)

lemma keeps_fbind [keeping]: "keeps P m \<Longrightarrow> (\<And>a. keeps P (k a)) \<Longrightarrow> keeps P (fbind m k)"
  unfolding keeps_def fbind_def by (auto split: prod.splits sum.splits)

lemma keeps_catching [keeping]: "keeps P m \<Longrightarrow> (\<And>e. keeps P (h e)) \<Longrightarrow> keeps P (catching m h)"
  unfolding keeps_def catching_def by (auto split: prod.splits sum.splits)

lemma keeps_finally [keeping]: "keeps P m \<Longrightarrow> keeps P c \<Longrightarrow> keeps P (finally_do m c)"
  unfolding keeps_def finally_do_def by (auto split: prod.splits sum.splits)

lemma keeps_refused [keeping]: "keeps P (refused e)" "keeps P (refused_here H e)"
  by (simp_all add: refused_def refused_here_def keeps_fret)

lemma keeps_conditional: "keeps P (\<lambda>w. if B w then (Inr a, w) else (Inl e, w))"
  by (simp add: keeps_def)

lemma keeps_if: "keeps P f \<Longrightarrow> keeps P g \<Longrightarrow> keeps P (\<lambda>w. if B w then f w else g w)"
  by (simp add: keeps_def)

lemma keeps_system:
  assumes "\<And>d a d'. I d \<Longrightarrow> f d = Inr (a, d') \<Longrightarrow> I d'"
  shows "keeps (always I) (system H f)"
  using assms by (auto simp: keeps_def system_def always_def leave_def split: option.splits sum.splits)

lemma keeps_reading [keeping]: "keeps (always I) (read_bytes H p)" "keeps (always I) (sync H)" "keeps (always I) (file_size H p)"
  unfolding read_bytes_def sync_def file_size_def
  by (auto intro!: keeps_system split: option.splits node.splits)

text \<open>A run that starts with a look at the disk is kept from the disk it sees.\<close>

lemma kept_after_looking:
  assumes "always I w" "\<And>a. f (fw_disk w) = Inr a \<Longrightarrow> keeps (always I) (k a)"
  shows "always I (snd (fbind (looking f) k w))"
  using assms by (auto simp: fbind_def looking_def keeps_def split: sum.splits)

lemma kept_catching: "always I (snd (m w)) \<Longrightarrow> (\<And>e. keeps (always I) (h e)) \<Longrightarrow> always I (snd (catching m h w))"
  by (auto simp: catching_def keeps_def split: prod.splits sum.splits)

lemma kept_fbind:
  assumes "always I (snd (m w))" "\<And>a w1. m w = (Inr a, w1) \<Longrightarrow> always I w1 \<Longrightarrow> always I (snd (k a w1))"
  shows "always I (snd (fbind m k w))"
  using assms by (auto simp: fbind_def split: prod.splits sum.splits)

lemma kept_check: "always I w \<Longrightarrow> (b \<Longrightarrow> always I (snd (k () w))) \<Longrightarrow> always I (snd (fbind (insist b m) k w))"
  by (simp add: fbind_def insist_def fret_def raising_def)

lemma kept_lifted: "always I w \<Longrightarrow> (\<And>a. x = Inr a \<Longrightarrow> always I (snd (k a w))) \<Longrightarrow> always I (snd (fbind (lifted x) k w))"
  by (cases x) (simp_all add: fbind_def lifted_def)

lemma fbind_Inr: "fbind m k w = (Inr b, w') \<longleftrightarrow> (\<exists>a w1. m w = (Inr a, w1) \<and> k a w1 = (Inr b, w'))"
  by (auto simp: fbind_def split: prod.splits sum.splits)

lemma looking_Inr: "looking f w = (Inr a, w') \<longleftrightarrow> f (fw_disk w) = Inr a \<and> w' = w"
  and lifted_Inr: "lifted x w = (Inr a, w') \<longleftrightarrow> x = Inr a \<and> w' = w"
  and check_Inr: "insist b m w = (Inr (), w') \<longleftrightarrow> b \<and> w' = w"
  and within_root_Inr: "within_root H m p w = (Inr (), w') \<longleftrightarrow> prefix (wh_root H) p \<and> w' = w"
  and absent_or_Inr: "absent_or overwrite m p w = (Inr (), w') \<longleftrightarrow> (path_exists (fw_disk w) p \<longrightarrow> overwrite) \<and> w' = w"
  and fret_Inr: "fret c w = (Inr a, w') \<longleftrightarrow> a = c \<and> w' = w"
  and raising_Inr: "raising e w = (Inr a, w') \<longleftrightarrow> False"
  by (auto simp: looking_def lifted_def insist_def within_root_def absent_or_def fret_def raising_def)

lemmas runs = fbind_Inr looking_Inr lifted_Inr check_Inr within_root_Inr absent_or_Inr fret_Inr raising_Inr

lemma kept_finally:
  assumes "always I (snd (m w))" "keeps (always I) c"
  shows "always I (snd (finally_do m c w))"
  using assms by (auto simp: finally_do_def keeps_def split: prod.splits sum.splits)

lemma system_Inr: "system H f w = (Inr a, w') \<longleftrightarrow>
    wh_faults H (fw_calls w) = None \<and> (\<exists>d. f (fw_disk w) = Inr (a, d) \<and> w' = leave d w)"
  by (auto simp: system_def split: option.splits sum.splits)

section \<open>Paths without links\<close>

definition linkless :: "disk \<Rightarrow> location \<Rightarrow> bool" where
  "linkless d p \<longleftrightarrow> (\<forall>q t. prefix q p \<longrightarrow> node_at d q \<noteq> Some (Link t))"

definition no_new_links :: "disk \<Rightarrow> disk \<Rightarrow> bool" where
  "no_new_links d0 d \<longleftrightarrow> (\<forall>q t. node_at d q = Some (Link t) \<longrightarrow> node_at d0 q = Some (Link t))"

lemma plain_prefix: "linkless d p \<Longrightarrow> prefix q p \<Longrightarrow> linkless d q"
  unfolding linkless_def using prefix_order.trans by blast

lemma plain_later: "linkless d0 p \<Longrightarrow> no_new_links d0 d \<Longrightarrow> linkless d p"
  unfolding linkless_def no_new_links_def by blast

lemma plain_Nil [simp]: "linkless d []"
  by (simp add: linkless_def node_at_def)

lemma plain_snoc: "linkless d (p @ [c]) \<longleftrightarrow> linkless d p \<and> (\<forall>t. node_at d (p @ [c]) \<noteq> Some (Link t))"
  by (auto simp: linkless_def prefix_snoc)

lemma walk_plain: "linkless d (p @ cs) \<Longrightarrow> walk n d p cs = Some (p @ cs)"
proof (induction cs arbitrary: p)
  case (Cons c cs)
  have "prefix (p @ [c]) (p @ c # cs)" by (simp add: prefix_def)
  then have "\<forall>t. node_at d (p @ [c]) \<noteq> Some (Link t)" using Cons.prems by (auto simp: linkless_def)
  then show ?case using Cons.IH [of "p @ [c]"] Cons.prems by (auto split: option.split node.split)
qed simp

lemma walk_result_plain: "linkless d p \<Longrightarrow> walk n d p cs = Some q \<Longrightarrow> linkless d q"
  by (induction n d p cs rule: walk.induct) (auto simp: plain_snoc split: option.splits node.splits nat.splits)

lemma real_path_plain: "linkless d p \<Longrightarrow> real_path d p = Some p"
  by (simp add: real_path_def walk_plain)

lemma resolve_plain: "resolve_path d p = Inr q \<Longrightarrow> linkless d q"
  by (auto simp: resolve_path_def real_path_def of_opt_eq_Inr dest: walk_result_plain [rotated])

lemma node_at_put [simp]: "p \<noteq> [] \<Longrightarrow> node_at (dict_set p x d) q = (if q = p then Some x else node_at d q)"
  by (simp add: node_at_def)

lemma node_at_cut [simp]: "node_at (dict_del p d) q = (if q = p \<and> q \<noteq> [] then None else node_at d q)"
  by (simp add: node_at_def map_of_dict_del)

lemma entry_of_plain:
  assumes "linkless d (butlast p)" "entry_of d p = Inr q"
  shows "q = p" "p \<noteq> [] \<Longrightarrow> node_at d (butlast p) = Some Directory"
  using assms by (auto simp: entry_of_def real_path_plain split: if_splits option.splits node.splits)

lemma safe_path_resolved:
  assumes "safe_path H d False rel = Inr p"
  shows "prefix (wh_root H) p" "linkless d p"
  using assms by (auto simp: safe_path_def Let_def rbind_eq_Inr dest: resolve_plain split: if_splits)

section \<open>What a call leaves\<close>

lemma make_temp_Inr:
  assumes "make_temp H dir a b w = (Inr tmp, w')"
  obtains x where "tmp = dir @ [a @ x @ b]" "node_at (fw_disk w) tmp = None" "w' = leave (dict_set tmp (File []) (fw_disk w)) w"
    "node_at (fw_disk w) dir = Some Directory"
proof -
  from assms obtain x where "find (\<lambda>x. node_at (fw_disk w) (dir @ [a @ x @ b]) = None) (wh_draws H (fw_calls w)) = Some x"
    "tmp = dir @ [a @ x @ b]" "w' = leave (dict_set tmp (File []) (fw_disk w)) w" "node_at (fw_disk w) dir = Some Directory"
    by (auto simp: make_temp_def system_Inr split: option.splits if_splits)
  then show thesis using that by (auto simp: find_Some_iff)
qed

lemma make_temp_Inl:
  assumes "make_temp H dir a b w = (Inl e, w')"
  shows "w' = leave (fw_disk w) w"
  using assms by (auto simp: make_temp_def system_def split: option.splits sum.splits if_splits)

lemma append_Inr:
  assumes "append_to H p s w = (Inr u, w')"
  shows "w' = leave (dict_set p (File (content_at (fw_disk w) p @ s)) (fw_disk w)) w"
  using assms by (auto simp: append_to_def Let_def split: option.splits)

lemma sync_Inr: "sync H w = (Inr u, w') \<Longrightarrow> w' = leave (fw_disk w) w"
  by (auto simp: sync_def system_Inr)

lemma replace_Inr:
  assumes "replace H src dst w = (Inr u, w')"
  obtains q x where "entry_of (fw_disk w) dst = Inr q" "node_at (fw_disk w) q \<noteq> Some Directory" "node_at (fw_disk w) src = Some x"
    "w' = leave (dict_set q x (dict_del src (fw_disk w))) w"
  using assms by (auto simp: replace_def system_Inr rbind_eq_Inr split: if_splits option.splits)

lemma receive_Inr:
  assumes "receive H p n cs w = (Inr m, w')" "p \<noteq> []" "node_at (fw_disk w) p = Some (File s)"
  shows "node_at (fw_disk w') p = Some (File (s @ concat cs)) \<and> m = n + length (concat cs) \<and> (cs \<noteq> [] \<longrightarrow> m \<le> max_download_bytes)
    \<and> (\<forall>q. q \<noteq> p \<longrightarrow> node_at (fw_disk w') q = node_at (fw_disk w) q)"
  using assms
proof (induction cs arbitrary: n s w)
  case Nil
  then show ?case by (auto simp: fret_def)
next
  case (Cons c cs)
  then obtain w1 where le: "n + length c \<le> max_download_bytes" and a: "append_to H p c w = (Inr (), w1)"
    and r: "receive H p (n + length c) cs w1 = (Inr m, w')"
    by (auto simp: fbind_Inr insist_def fret_def raising_def split: if_splits)
  have d: "fw_disk w1 = dict_set p (File (s @ c)) (fw_disk w)"
    using append_Inr [OF a] Cons.prems(3) by (simp add: content_at_def)
  have "m = n + length c \<and> m \<le> max_download_bytes" if "cs = []" using r that le by (simp add: fret_def)
  with Cons.IH [OF r Cons.prems(2)] d Cons.prems(2) show ?case by auto
qed

section \<open>The contract\<close>

locale disk_policy =
  fixes I :: "disk \<Rightarrow> bool" and fixed :: "location \<Rightarrow> bool" and may_make :: "location \<Rightarrow> bool"
    and may_fill :: "location \<Rightarrow> string \<Rightarrow> bool" and may_drop :: "location \<Rightarrow> bool"
  assumes fixed_plain: "I d \<Longrightarrow> fixed p \<Longrightarrow> linkless d p"
    and make: "I d \<Longrightarrow> may_make p \<Longrightarrow> p \<noteq> [] \<Longrightarrow> node_at d p = None \<Longrightarrow> I (dict_set p Directory d)"
    and fill: "I d \<Longrightarrow> may_fill p s \<Longrightarrow> p \<noteq> [] \<Longrightarrow> I (dict_set p (File s) d)"
    and drop: "I d \<Longrightarrow> may_drop p \<Longrightarrow> p \<noteq> [] \<Longrightarrow> I (dict_del p d)"
    and fixed_prefix: "fixed p \<Longrightarrow> prefix q p \<Longrightarrow> fixed q"
begin

lemma entry_fixed:
  assumes "I d" "fixed (butlast p)" "entry_of d p = Inr q"
  shows "q = p"
  using entry_of_plain(1) [OF _ assms(3)] fixed_plain [OF assms(1,2)] by blast

lemma keeps_make_dir:
  assumes "fixed (butlast p)" "may_make p"
  shows "keeps (always I) (make_dir H p)"
  unfolding make_dir_def
proof (rule keeps_system)
  fix d a d' assume d: "I d" and "rbind (entry_of d p) (\<lambda>q. if node_at d q \<noteq> None then Inl existing_entry else Inr ((), dict_set q Directory d)) = Inr (a, d')"
  then obtain q where q: "entry_of d p = Inr q" "node_at d q = None" "d' = dict_set q Directory d"
    by (auto simp: rbind_eq_Inr split: if_splits)
  moreover from q(1) d assms(1) have "q = p" by (blast intro: entry_fixed)
  moreover from this q(2) have "p \<noteq> []" by (auto simp: node_at_def)
  ultimately show "I d'" using make d assms(2) by blast
qed

lemma keeps_ensure_dir: "fixed (butlast p) \<Longrightarrow> may_make p \<Longrightarrow> keeps (always I) (ensure_dir H p)"
  unfolding ensure_dir_def by (intro keeps_catching keeps_make_dir keeps_conditional)

lemma keeps_make_path:
  assumes "fixed (rev up)" "\<And>q. prefix q (rev up) \<Longrightarrow> may_make q"
  shows "keeps (always I) (make_path H up)"
  using assms
proof (induction up)
  case Nil
  then show ?case by (auto intro: keeps_ensure_dir)
next
  case (Cons n up)
  have here: "fixed (butlast (rev (n # up)))" "may_make (rev (n # up))"
    using fixed_prefix [OF Cons.prems(1), of "rev up"] Cons.prems(2) by auto
  have "keeps (always I) (make_path H up)"
    by (rule Cons.IH) (use fixed_prefix [OF Cons.prems(1), of "rev up"] Cons.prems(2) in \<open>auto simp: prefix_append\<close>)
  then show ?case
    unfolding make_path.simps
    by (intro keeps_catching keeps_make_dir keeps_if keeps_conditional keeps_fbind keeps_ensure_dir here)
qed

lemma keeps_make_dirs: "fixed p \<Longrightarrow> (\<And>q. prefix q p \<Longrightarrow> may_make q) \<Longrightarrow> keeps (always I) (make_dirs H p)"
  unfolding make_dirs_def by (rule keeps_make_path) auto

lemma keeps_append: "(\<And>s. may_fill p s) \<Longrightarrow> p \<noteq> [] \<Longrightarrow> keeps (always I) (append_to H p s)"
  by (auto simp: keeps_def append_to_def Let_def always_def leave_def intro: fill split: option.splits)

lemma keeps_receive: "(\<And>s. may_fill p s) \<Longrightarrow> p \<noteq> [] \<Longrightarrow> keeps (always I) (receive H p n cs)"
  by (induction cs arbitrary: n) (auto intro!: keeping keeps_append)

lemma kept_unlink:
  assumes "always I w" "linkless (fw_disk w) (butlast p)" "may_drop p"
  shows "always I (snd (unlink H p w))"
proof (cases "unlink H p w")
  case (Pair r w')
  have d: "I (fw_disk w)" "list_all I (fw_seen w)" using assms(1) by (simp_all add: always_def)
  show ?thesis
  proof (cases r)
    case (Inl e)
    then have "w' = leave (fw_disk w) w" using Pair by (auto simp: unlink_def system_def split: option.splits sum.splits)
    then show ?thesis using Pair d by simp
  next
    case (Inr u)
    with Pair obtain q d' where "entry_of (fw_disk w) p = Inr q" "(case node_at (fw_disk w) q of None \<Rightarrow> Inl missing_entry
      | Some Directory \<Rightarrow> Inl is_directory | Some _ \<Rightarrow> Inr ((), dict_del q (fw_disk w))) = Inr ((), d')" "w' = leave d' w"
      by (auto simp: unlink_def system_Inr rbind_eq_Inr)
    then have q: "entry_of (fw_disk w) p = Inr q" "w' = leave (dict_del q (fw_disk w)) w" "node_at (fw_disk w) q \<noteq> Some Directory"
      by (auto split: option.splits node.splits)
    then have "q = p" "q \<noteq> []" using entry_of_plain(1) [OF assms(2)] by (auto simp: node_at_def)
    then show ?thesis using drop [OF d(1)] d(2) q(2) assms(3) Pair by simp
  qed
qed

lemma keeps_unlink: "fixed (butlast p) \<Longrightarrow> may_drop p \<Longrightarrow> keeps (always I) (unlink H p)"
  unfolding keeps_def by (auto intro!: kept_unlink intro: fixed_plain always_disk)

lemma keeps_discard: "fixed (butlast p) \<Longrightarrow> may_drop p \<Longrightarrow> keeps (always I) (discard H p)"
  unfolding discard_def by (intro keeps_if keeps_unlink) (simp_all add: keeps_def)

lemma kept_replace:
  assumes "always I w" "node_at (fw_disk w) src = Some (File s)" "src \<noteq> []" "may_drop src" "fixed (butlast dst)" "may_fill dst s"
  shows "always I (snd (replace H src dst w))"
proof (cases "replace H src dst w")
  case (Pair r w')
  have seen: "list_all I (fw_seen w)" and d: "I (fw_disk w)" using assms(1) by (simp_all add: always_def)
  show ?thesis
  proof (cases r)
    case (Inl e)
    then have "w' = leave (fw_disk w) w" using Pair by (auto simp: replace_def system_def split: option.splits sum.splits)
    then show ?thesis using Pair seen d by simp
  next
    case (Inr u)
    with Pair obtain q x where q: "entry_of (fw_disk w) dst = Inr q" "node_at (fw_disk w) q \<noteq> Some Directory" "node_at (fw_disk w) src = Some x"
      "w' = leave (dict_set q x (dict_del src (fw_disk w))) w" by (auto elim: replace_Inr)
    have "q = dst" "q \<noteq> []" using entry_fixed [OF d assms(5) q(1)] q(2) by (auto simp: node_at_def)
    then have "I (dict_set q x (dict_del src (fw_disk w)))"
      using fill [OF drop [OF d assms(4,3)] assms(6)] q(3) assms(2) by simp
    then show ?thesis using Pair q(4) seen by simp
  qed
qed

lemma fixed_dir: "fixed dir \<Longrightarrow> fixed (butlast (dir @ [x]))"
  by simp

lemma kept_make_temp:
  assumes "always I w" "\<And>x t. may_fill (dir @ [a @ x @ b]) t"
  shows "always I (snd (make_temp H dir a b w))"
proof (cases "make_temp H dir a b w")
  case (Pair r w1)
  have d: "I (fw_disk w)" "list_all I (fw_seen w)" using assms(1) by (simp_all add: always_def)
  show ?thesis
  proof (cases r)
    case (Inl e)
    then show ?thesis using make_temp_Inl Pair d by fastforce
  next
    case (Inr tmp)
    with Pair obtain x where "tmp = dir @ [a @ x @ b]" "w1 = leave (dict_set tmp (File []) (fw_disk w)) w"
      by (auto elim: make_temp_Inr)
    then show ?thesis using fill [OF d(1) assms(2)] d(2) Pair by simp
  qed
qed

lemma kept_through_temp:
  assumes "always I w" "fixed dir" "fixed (butlast dst)" "may_fill dst s"
    "\<And>x t. may_fill (dir @ [a @ x @ b]) t" "\<And>x. may_drop (dir @ [a @ x @ b])"
  shows "always I (snd (fbind (make_temp H dir a b) (\<lambda>tmp. finally_do
    (fbind (append_to H tmp s) (\<lambda>_. fbind (sync H) (\<lambda>_. replace H tmp dst))) (discard H tmp)) w))"
proof (rule kept_fbind, rule kept_make_temp [OF assms(1,5)])
  fix tmp w1 assume m: "make_temp H dir a b w = (Inr tmp, w1)" and w1: "always I w1"
  from m obtain x where x: "tmp = dir @ [a @ x @ b]" "w1 = leave (dict_set tmp (File []) (fw_disk w)) w"
    by (rule make_temp_Inr)
  have tmp: "tmp \<noteq> []" "fixed (butlast tmp)" "may_drop tmp" "\<And>t. may_fill tmp t" using assms(2,5,6) by (simp_all add: x(1))
  have has: "node_at (fw_disk w1) tmp = Some (File [])" using x(2) tmp(1) by simp
  show "always I (snd (finally_do (fbind (append_to H tmp s) (\<lambda>_. fbind (sync H) (\<lambda>_. replace H tmp dst))) (discard H tmp) w1))"
  proof (rule kept_finally [OF _ keeps_discard [OF tmp(2,3)]], rule kept_fbind, goal_cases)
    case 1
    then show ?case using keeps_append [OF tmp(4,1)] w1 by (auto simp: keeps_def)
  next
    case (2 u w2)
    have w2: "node_at (fw_disk w2) tmp = Some (File s)" using append_Inr [OF 2(1)] has tmp(1) by (simp add: content_at_def)
    show ?case
    proof (rule kept_fbind, goal_cases)
      case 1
      then show ?case using keeps_reading(2) 2(2) by (auto simp: keeps_def)
    next
      case (2 v w3)
      then show ?case using sync_Inr [OF 2(1)] w2 by (intro kept_replace [OF _ _ tmp(1,3) assms(3,4)]) auto
    qed
  qed
qed

lemma kept_fill_and_replace:
  assumes "always I w" "fixed dir" "fixed (butlast dst)" "may_fill dst s"
    "\<And>x t. may_fill (dir @ [''.ai-cloud-'' @ x @ ''.tmp'']) t" "\<And>x. may_drop (dir @ [''.ai-cloud-'' @ x @ ''.tmp''])"
  shows "always I (snd (fill_and_replace H dir dst s w))"
  unfolding fill_and_replace_def using assms by (rule kept_through_temp)

lemma kept_atomic_write:
  assumes "always I w" "fixed (butlast dst)" "\<And>q. prefix q (butlast dst) \<Longrightarrow> may_make q" "prefix (wh_root H) (butlast dst) \<Longrightarrow> may_fill dst s"
    "\<And>x t. prefix (wh_root H) (butlast dst) \<Longrightarrow> may_fill (butlast dst @ [''.ai-cloud-'' @ x @ ''.tmp'']) t"
    "\<And>x. prefix (wh_root H) (butlast dst) \<Longrightarrow> may_drop (butlast dst @ [''.ai-cloud-'' @ x @ ''.tmp''])"
  shows "always I (snd (atomic_write H dst s overwrite w))"
  unfolding atomic_write_def
proof (rule kept_fbind, goal_cases)
  case 1
  show ?case using keeps_make_dirs [OF assms(2,3)] assms(1) by (auto simp: keeps_def)
next
  case (2 u w1)
  have I1: "I (fw_disk w1)" using 2(2) by (simp add: always_def)
  show ?case
  proof (rule kept_after_looking [OF 2(2)])
    fix dir assume "resolve_path (fw_disk w1) (butlast dst) = Inr dir"
    then have dir: "dir = butlast dst" using real_path_plain [OF fixed_plain [OF I1 assms(2)]] by (auto simp: resolve_path_def of_opt_eq_Inr)
    show "keeps (always I) (fbind (within_root H ''La cartella di destinazione esce dalla workspace.'' dir) (\<lambda>_.
      fbind (absent_or overwrite ''Il file esiste gia; specificare overwrite=true per sostituirlo.'' dst) (\<lambda>_. fill_and_replace H dir dst s)))"
    proof (cases "prefix (wh_root H) dir")
      case True
      then show ?thesis using assms dir
        by (intro keeping) (auto simp: keeps_def intro!: kept_fill_and_replace)
    next
      case False
      then show ?thesis by (simp add: within_root_def keeps_def fbind_def raising_def)
    qed
  qed
qed

lemma kept_put_file:
  assumes "always I w" "fixed (butlast dst)" "\<And>q. prefix q (butlast dst) \<Longrightarrow> may_make q" "prefix (wh_root H) (butlast dst) \<Longrightarrow> may_fill dst s"
    "\<And>x t. prefix (wh_root H) (butlast dst) \<Longrightarrow> may_fill (butlast dst @ [''.ai-cloud-'' @ x @ ''.tmp'']) t"
    "\<And>x. prefix (wh_root H) (butlast dst) \<Longrightarrow> may_drop (butlast dst @ [''.ai-cloud-'' @ x @ ''.tmp''])"
  shows "always I (snd (put_file H m dst s overwrite extra w))"
  unfolding put_file_def
  by (rule kept_fbind, use keeps_check assms(1) in \<open>auto simp: keeps_def\<close>)
    (rule kept_fbind, rule kept_atomic_write [OF _ assms(2-6)],
      auto simp: insist_def fret_def raising_def keeps_def fbind_def looking_def split: if_splits sum.splits)

lemma kept_place_download:
  assumes "always I w" "node_at (fw_disk w) tmp = Some (File [])" "tmp \<noteq> []" "\<And>t. may_fill tmp t" "may_drop tmp"
    "fixed (butlast (dj_target j))" "may_fill (dj_target j) (concat (dj_chunks j))"
  shows "always I (snd (place_download H tmp j w))"
  unfolding place_download_def
proof (rule kept_fbind, goal_cases)
  case 1
  then show ?case using keeps_receive [OF assms(4,3)] assms(1) by (auto simp: keeps_def)
next
  case (2 n w1)
  have w1: "node_at (fw_disk w1) tmp = Some (File (concat (dj_chunks j)))" using receive_Inr [OF 2(1) assms(3,2)] by simp
  show ?case
  proof (cases "dj_broken j")
    case (Some e)
    then show ?thesis using 2(2) by (simp add: fbind_def raising_def)
  next
    case None
    have "always I (snd (fbind (sync H) (\<lambda>_. fbind (read_bytes H tmp) (\<lambda>data.
      fbind (insist (data \<noteq> []) ''Il server ha restituito un file vuoto.'') (\<lambda>_. fbind (lifted (verify_content (dj_type j) data)) (\<lambda>_.
      fbind (replace H tmp (dj_target j)) (\<lambda>_. fret n))))) w1))"
    proof (rule kept_fbind, goal_cases)
      case 1
      then show ?case using keeps_reading(2) 2(2) by (auto simp: keeps_def)
    next
      case (2 u w2)
      then have w2: "node_at (fw_disk w2) tmp = Some (File (concat (dj_chunks j)))" using w1 sync_Inr by fastforce
      show ?case
      proof (rule kept_fbind, goal_cases)
        case 1
        then show ?case using keeps_reading(1) 2(2) by (auto simp: keeps_def)
      next
        case (2 data w3)
        then have "node_at (fw_disk w3) tmp = Some (File (concat (dj_chunks j)))"
          using w2 by (auto simp: read_bytes_def system_Inr split: option.splits node.splits)
        with 2(2) show ?case
          by (auto simp: fbind_def insist_def fret_def raising_def lifted_def split: sum.splits prod.splits
              dest: arg_cong [where f = "\<lambda>m. always I (snd m)"]
              intro: kept_replace [OF _ _ assms(3,5-7)])
      qed
    qed
    then show ?thesis using None by (simp add: fbind_def fret_def)
  qed
qed

lemma kept_store_download:
  assumes "always I w" "fixed (dj_dir j)" "fixed (butlast (dj_target j))" "may_fill (dj_target j) (concat (dj_chunks j))"
    "\<And>x t. may_fill (dj_dir j @ [''.download-'' @ x @ ''.part'']) t" "\<And>x. may_drop (dj_dir j @ [''.download-'' @ x @ ''.part''])"
  shows "always I (snd (store_download H j w))"
proof (cases "make_temp H (dj_dir j) ''.download-'' ''.part'' w")
  case (Pair r w1)
  have w1: "always I w1" using kept_make_temp [OF assms(1,5)] Pair by (metis snd_conv)
  show ?thesis
  proof (cases r)
    case (Inl e)
    then show ?thesis using Pair w1 by (simp add: store_download_def refused_def fret_def)
  next
    case (Inr tmp)
    with Pair obtain x where x: "tmp = dj_dir j @ [''.download-'' @ x @ ''.part'']"
      "w1 = leave (dict_set tmp (File []) (fw_disk w)) w" by (auto elim: make_temp_Inr)
    have tmp: "tmp \<noteq> []" "fixed (butlast tmp)" "may_drop tmp" "\<And>t. may_fill tmp t" using assms(2,5,6) by (simp_all add: x(1))
    have "node_at (fw_disk w1) tmp = Some (File [])" using x(2) tmp(1) by simp
    then have p: "always I (snd (place_download H tmp j w1))"
      by (intro kept_place_download w1 tmp assms(3,4))
    have "keeps (always I) (finally_do (refused e) (discard H tmp))" "keeps (always I) (catching (report_download H j n) refused)" for e n
      unfolding report_download_def by (intro keeping keeps_discard tmp)+
    then show ?thesis using Pair Inr p
      by (auto simp: store_download_def keeps_def split: prod.splits sum.splits)
  qed
qed

end

section \<open>What a prepared download is\<close>

lemma follow_disk: "fw_disk (snd (follow W n u w)) = fw_disk w \<and> fw_seen (snd (follow W n u w)) = fw_seen w"
proof (induction n arbitrary: u w)
  case (Suc n)
  have "fw_disk (snd (check_url W u w)) = fw_disk w \<and> fw_seen (snd (check_url W u w)) = fw_seen w"
    "fw_disk (snd (get_url W u w)) = fw_disk w \<and> fw_seen (snd (get_url W u w)) = fw_seen w" for u w
    by (simp_all add: check_url_def get_url_def)
  then show ?case
    using Suc by (auto simp: fbind_def lifted_def raising_def fret_def check_url_def get_url_def
        split: prod.splits sum.splits web_reply.splits option.splits list.splits)
qed (simp add: raising_def)

definition inside :: "workspace_host \<Rightarrow> disk \<Rightarrow> location \<Rightarrow> bool" where
  "inside H d p \<longleftrightarrow> linkless d (butlast p) \<and> (prefix (wh_root H) (butlast p) \<or> strict_prefix (butlast p) (wh_root H))"

lemma inside_prefix: "prefix (wh_root H) p \<Longrightarrow> linkless d p \<Longrightarrow> inside H d p"
proof (cases "p = wh_root H")
  case True
  then show "linkless d p \<Longrightarrow> inside H d p"
    using plain_prefix [OF _ prefixeq_butlast, of d p]
    prefixeq_butlast [of p] by (cases p rule: rev_cases) (auto simp: inside_def strict_prefix_def)
next
  case False
  assume "prefix (wh_root H) p" "linkless d p"
  moreover from this False have "prefix (wh_root H) (butlast p)" by (cases p rule: rev_cases) auto
  ultimately show "inside H d p" using plain_prefix [OF _ prefixeq_butlast] by (auto simp: inside_def)
qed

lemma inside_child: "prefix (wh_root H) p \<Longrightarrow> linkless d p \<Longrightarrow> inside H d (p @ [x])"
  by (simp add: inside_def)

lemma inside_suffix: "with_suffix q x = Inr t \<Longrightarrow> inside H d q \<Longrightarrow> inside H d t"
  by (auto simp: with_suffix_def inside_def split: if_splits)

lemma inside_download: "download_target W H d headers ct url rel = Inr t \<Longrightarrow> inside H d t"
proof -
  assume "download_target W H d headers ct url rel = Inr t"
  then obtain q where base: "\<exists>name. (if rel \<noteq> [] then rbind (safe_path H d False rel) (\<lambda>q. Inr (if path_suffix q = [] then q @ [name] else q))
      else safe_path H d False name) = Inr q" and t: "\<exists>b x. (if b then Inr q else with_suffix q x) = Inr t"
    unfolding download_target_def Let_def rbind_eq_Inr by blast
  from base have "inside H d q"
    by (auto simp: rbind_eq_Inr intro: inside_prefix inside_child dest: safe_path_resolved split: if_splits)
  with t show "inside H d t" by (auto intro: inside_suffix split: if_splits)
qed

lemma inside_comparable: "inside H d p \<Longrightarrow> prefix q (butlast p) \<Longrightarrow> prefix q (wh_root H) \<or> prefix (wh_root H) q"
  unfolding inside_def by (metis prefix_order.trans prefix_order.less_imp_le prefix_same_cases)

lemma same_disk_always: "fw_disk w' = fw_disk w \<Longrightarrow> fw_seen w' = fw_seen w \<Longrightarrow> always I w' = always I w"
  by (simp add: always_def)

context disk_policy begin

lemma accepted:
  assumes "always I w" "accept_reply W H rel overwrite ur w = (r, w')" "\<And>t. inside H (fw_disk w) t \<Longrightarrow> fixed (butlast t)"
    "\<And>q. prefix q (wh_root H) \<or> prefix (wh_root H) q \<Longrightarrow> may_make q"
  shows "always I w'"
    "r = Inr j \<Longrightarrow> inside H (fw_disk w) (dj_target j) \<and> dj_dir j = butlast (dj_target j) \<and> prefix (wh_root H) (dj_dir j)"
proof -
  have dirs: "keeps (always I) (make_dirs H (butlast t))" if "inside H (fw_disk w) t" for t
    using inside_comparable [OF that] by (intro keeps_make_dirs assms(3,4) that)
  have "always I (snd (accept_reply W H rel overwrite ur w))"
  proof (cases ur)
    case (Pair url rep)
    show ?thesis
    proof (cases rep)
      case (WebError e)
      then show ?thesis using Pair assms(1) by (simp add: accept_reply_def raising_def)
    next
      case (WebReply code headers chunks broken)
      have step: "always I (snd (fbind (looking (\<lambda>d. download_target W H d headers ct url rel)) k w))"
        if "\<And>t. inside H (fw_disk w) t \<Longrightarrow> keeps (always I) (k t)" for ct and k :: "location \<Rightarrow> download_job fs_run"
        using that by (intro kept_after_looking assms(1)) (auto dest: inside_download)
      show ?thesis
        unfolding accept_reply_def Pair WebReply Let_def prod.case web_reply.case
        by (intro kept_check kept_lifted assms(1) step keeping dirs)
    qed
  qed
  then show "always I w'" using assms(2) by simp
  assume r: "r = Inr j"
  show "inside H (fw_disk w) (dj_target j) \<and> dj_dir j = butlast (dj_target j) \<and> prefix (wh_root H) (dj_dir j)"
  proof -
    from assms(2) obtain u h t w1 dir where
      t: "download_target W H (fw_disk w) h (content_type_of h) u rel = Inr t" and m: "make_dirs H (butlast t) w = (Inr (), w1)"
      and dir: "resolve_path (fw_disk w1) (butlast t) = Inr dir" and root: "prefix (wh_root H) dir"
      and j: "dj_dir j = dir" "dj_target j = t"
      unfolding r accept_reply_def Let_def by (auto simp: runs split: prod.splits web_reply.splits)
    have here: "inside H (fw_disk w) t" using t by (rule inside_download)
    then have "always I w1" "fixed (butlast t)" using dirs m assms(1,3) by (auto dest: keepsD)
    then have "linkless (fw_disk w1) (butlast t)" using fixed_plain by (simp add: always_def)
    then have "dir = butlast t" using dir by (simp add: resolve_path_def real_path_plain)
    with here root j show ?thesis by simp
  qed
qed

lemma prepared:
  assumes "always I w" "prepare_download W H url rel overwrite w = (r, w')" "\<And>t. inside H (fw_disk w) t \<Longrightarrow> fixed (butlast t)"
    "\<And>q. prefix q (wh_root H) \<or> prefix (wh_root H) q \<Longrightarrow> may_make q"
  shows "always I w' \<and> (\<forall>j. r = Inr j \<longrightarrow>
    inside H (fw_disk w) (dj_target j) \<and> dj_dir j = butlast (dj_target j) \<and> prefix (wh_root H) (dj_dir j))"
proof -
  let ?w1 = "snd (check_url W url w)"
  have same: "fw_disk ?w1 = fw_disk w" "fw_seen ?w1 = fw_seen w" by (simp_all add: check_url_def)
  show ?thesis
  proof (cases "fst (check_url W url w)")
    case (Inl e)
    then show ?thesis using assms(2) same_disk_always [OF same] assms(1)
      by (auto simp: prepare_download_def fbind_def split: prod.splits)
  next
    case (Inr u)
    let ?f = "follow W 6 u ?w1"
    have f: "fw_disk (snd ?f) = fw_disk w" "fw_seen (snd ?f) = fw_seen w" using follow_disk same by simp_all
    have "(r, w') = (case ?f of (Inl e, w2) \<Rightarrow> (Inl e, w2) | (Inr a, w2) \<Rightarrow> accept_reply W H rel overwrite a w2)"
      using assms(2) Inr by (auto simp: prepare_download_def fbind_def split: prod.splits)
    moreover have "always I (snd ?f)" using same_disk_always [OF f] assms(1) by simp
    ultimately show ?thesis
      using accepted [of "snd ?f" W H rel overwrite _ r w'] assms(3,4) f
      by (cases ?f; cases "fst ?f") auto
  qed
qed

lemma kept_download_file:
  assumes "always I w" "\<And>t. inside H (fw_disk w) t \<Longrightarrow> fixed (butlast t)"
    "\<And>q. prefix q (wh_root H) \<or> prefix (wh_root H) q \<Longrightarrow> may_make q"
    "\<And>t s. inside H (fw_disk w) t \<Longrightarrow> prefix (wh_root H) (butlast t) \<Longrightarrow> may_fill t s"
    "\<And>p x t. prefix (wh_root H) p \<Longrightarrow> may_fill (p @ [''.download-'' @ x @ ''.part'']) t"
    "\<And>p x. prefix (wh_root H) p \<Longrightarrow> may_drop (p @ [''.download-'' @ x @ ''.part''])"
  shows "always I (snd (download_file W H url rel overwrite w))"
proof (cases "prepare_download W H url rel overwrite w")
  case (Pair r w')
  show ?thesis using Pair prepared [OF assms(1) Pair assms(2,3)] assms(2-6)
    by (auto simp: download_file_def refused_def fret_def split: sum.splits intro!: kept_store_download)
qed

lemma keeps_write_probe:
  assumes "fixed (probe_path H)" "\<And>s. may_fill (probe_path H) s" "may_drop (probe_path H)"
  shows "keeps (always I) (probe_root H)" "keeps (always I) (drop_probe H)"
proof -
  have ne: "probe_path H \<noteq> []" and up: "fixed (butlast (probe_path H))"
    using fixed_prefix [OF assms(1) prefixeq_butlast] by (simp_all add: probe_path_def)
  have o: "keeps (always I) (open_to_write H (probe_path H))"
    unfolding open_to_write_def
  proof (rule keeps_system)
    fix d a d' assume d: "I d" and *: "(case real_path d (probe_path H) of None \<Rightarrow> Inl link_loop
      | Some q \<Rightarrow> rbind (entry_of d q) (\<lambda>q. if node_at d q = Some Directory then Inl is_directory else Inr (q, dict_set q (File []) d))) = Inr (a, d')"
    then have "d' = dict_set (probe_path H) (File []) d"
      using real_path_plain [OF fixed_plain [OF d assms(1)]] entry_fixed [OF d up] by (auto simp: rbind_eq_Inr split: if_splits)
    then show "I d'" using fill [OF d assms(2) ne] by simp
  qed
  have q: "q = probe_path H" if "open_to_write H (probe_path H) w = (Inr q, w')" "always I w" for q w w'
    using that real_path_plain [OF fixed_plain [OF _ assms(1)]] entry_fixed [OF _ up]
    by (auto simp: open_to_write_def system_Inr rbind_eq_Inr dest!: always_disk split: if_splits)
  have w: "keeps (always I) (write_bytes H (probe_path H) s)" for s
    unfolding keeps_def write_bytes_def
  proof (intro allI impI kept_fbind, goal_cases)
    case (1 w)
    then show ?case using o by (simp add: keeps_def)
  next
    case (2 w a w1)
    then show ?case using q [OF 2(2,1)] keeps_append [OF assms(2) ne] by (simp add: keeps_def)
  qed
  show "keeps (always I) (probe_root H)" unfolding probe_root_def by (intro keeping w keeps_unlink up assms(3))
  show "keeps (always I) (drop_probe H)" unfolding drop_probe_def
    by (intro keeps_if keeps_catching keeping keeps_unlink up assms(3)) (simp add: keeps_def)
qed

end

end
