(* ===== verification/Workspace_Confined.thy ===== *)
theory Workspace_Confined imports Workspace_Safety begin

text \<open>
  The tools stay in the workspace, their writes are all or nothing, and the web is asked only for
  public addresses: the contract of \<open>Workspace_Safety\<close> on the model of tools/ai_cloud_workspace.py.
\<close>

section \<open>The tools a model can call\<close>

datatype workspace_call =
    EnsureWorkspace
  | CreateDirectory string
  | ListDirectory string
  | ReadFile string int
  | WriteFile string string bool
  | WriteTextFile string string
  | FileExists string
  | SaveText string string bool
  | SaveJson string pyval bool
  | SearchImages string int
  | DownloadFile string string bool
  | DownloadImage string string

text \<open>The packages and codecs the tools rely on.\<close>

record workspace_lib =
  wl_web :: web
  wl_find :: "string \<Rightarrow> nat \<Rightarrow> ws_failure + image_hit list"
  wl_dump :: "pyval \<Rightarrow> ws_failure + string"
  wl_beyond :: "string \<Rightarrow> string option"

fun run_call :: "workspace_lib \<Rightarrow> workspace_host \<Rightarrow> workspace_call \<Rightarrow> pyval fs_run" where
  "run_call L H EnsureWorkspace = ensure_workspace H"
| "run_call L H (CreateDirectory rel) = create_directory H rel"
| "run_call L H (ListDirectory rel) = list_directory H rel"
| "run_call L H (ReadFile rel n) = read_file (wl_beyond L) H rel n"
| "run_call L H (WriteFile rel s overwrite) = write_file H rel s overwrite"
| "run_call L H (WriteTextFile rel s) = write_text_file H rel s"
| "run_call L H (FileExists rel) = file_exists H rel"
| "run_call L H (SaveText rel s overwrite) = save_text H rel s overwrite"
| "run_call L H (SaveJson rel v overwrite) = save_json (wl_dump L) H rel v overwrite"
| "run_call L H (SearchImages s n) = search_images (wl_web L) (wl_find L) s n"
| "run_call L H (DownloadFile url rel overwrite) = download_file (wl_web L) H url rel overwrite"
| "run_call L H (DownloadImage url rel) = download_image (wl_web L) H url rel"

section \<open>Confinement\<close>

text \<open>
  Of a disk that was \<open>d0\<close>: no link is new, and outside the workspace nothing changed but that missing
  directories above its root are there.
\<close>

definition confined :: "location \<Rightarrow> disk \<Rightarrow> disk \<Rightarrow> bool" where
  "confined dir d0 d \<longleftrightarrow> no_new_links d0 d \<and>
     (\<forall>q. \<not> prefix dir q \<longrightarrow> node_at d q = node_at d0 q
            \<or> strict_prefix q dir \<and> node_at d0 q = None \<and> node_at d q = Some Directory)"

lemma confined_refl: "confined dir d d"
  by (simp add: confined_def no_new_links_def)

lemma confined_put:
  assumes "confined dir d0 d" "p \<noteq> []" "\<And>t. x \<noteq> Link t" "prefix dir p \<or> strict_prefix p dir \<and> node_at d p = None \<and> x = Directory"
  shows "confined dir d0 (dict_set p x d)"
proof -
  have "node_at (dict_set p x d) q = node_at d0 q \<or> strict_prefix q dir \<and> node_at d0 q = None \<and> node_at (dict_set p x d) q = Some Directory"
    if "\<not> prefix dir q" for q
    using assms that unfolding confined_def by (cases "q = p") auto
  then show ?thesis using assms(1-3) by (simp add: confined_def no_new_links_def)
qed

interpretation confining: disk_policy "confined dir d0" "linkless d0" "\<lambda>q. prefix q dir \<or> prefix dir q" "\<lambda>p s. prefix dir p" "prefix dir"
  for dir d0
proof unfold_locales
  fix d p assume d: "confined dir d0 d"
  show "linkless d0 p \<Longrightarrow> linkless d p" using d plain_later by (auto simp: confined_def)
  show "confined dir d0 (dict_set p Directory d)" if "prefix p dir \<or> prefix dir p" "p \<noteq> []" "node_at d p = None"
    using that by (intro confined_put d) (auto simp: strict_prefix_def)
  show "confined dir d0 (dict_set p (File s) d)" if "prefix dir p" "p \<noteq> []" for s
    using that by (intro confined_put d) auto
  show "confined dir d0 (dict_del p d)" if "prefix dir p" "p \<noteq> []"
    using d that by (simp add: confined_def no_new_links_def)
qed (rule plain_prefix)

lemma below_parent: "prefix r (butlast t) \<Longrightarrow> prefix r t"
  using prefix_order.trans [OF _ prefixeq_butlast] .

lemma make_inside: "inside H d t \<Longrightarrow> keeps (always (confined (wh_root H) d)) (make_dirs H (butlast t))"
  by (rule confining.keeps_make_dirs) (simp add: inside_def, rule inside_comparable)

lemma put_inside:
  assumes "inside H d t" "always (confined (wh_root H) d) w"
  shows "always (confined (wh_root H) d) (snd (put_file H m t s overwrite extra w))"
proof (rule confining.kept_put_file [OF assms(2)])
  show "linkless d (butlast t)" using assms(1) by (simp add: inside_def)
  show "prefix q (butlast t) \<Longrightarrow> prefix q (wh_root H) \<or> prefix (wh_root H) q" for q
    using inside_comparable [OF assms(1)] .
  show "prefix (wh_root H) (butlast t) \<Longrightarrow> prefix (wh_root H) t"
    by (rule below_parent)
qed auto

lemma put_inside_keeps: "inside H d t \<Longrightarrow> keeps (always (confined (wh_root H) d)) (put_file H m t s overwrite extra)"
  by (simp add: keeps_def put_inside)

lemma inside_safe: "safe_path H d False rel = Inr p \<Longrightarrow> inside H d p"
  by (auto intro: inside_prefix dest: safe_path_resolved)

lemma make_safe:
  assumes "safe_path H d False rel = Inr p"
  shows "keeps (always (confined (wh_root H) d)) (make_dirs H p)"
proof (rule confining.keeps_make_dirs)
  show "linkless d p" using assms by (rule safe_path_resolved)
  show "prefix q p \<Longrightarrow> prefix q (wh_root H) \<or> prefix (wh_root H) q" for q
    using prefix_same_cases [OF _ safe_path_resolved(1) [OF assms]] .
qed

text \<open>A tool's body starts at the path its disk gives.\<close>

lemma kept_tool:
  assumes "always I w" "\<And>p. safe_path H (fw_disk w) allow_root rel = Inr p \<Longrightarrow> keeps (always I) (k p)" "\<And>e. keeps (always I) (h e)"
  shows "always I (snd (catching (at_path H allow_root rel k) h w))"
  unfolding at_path_def by (rule kept_catching, rule kept_after_looking, rule assms(1), erule assms(2), rule assms(3))

lemma keeps_listing: "keeps (always I) (system H (\<lambda>d. rbind (f d) (\<lambda>q. rbind (g d q) (\<lambda>rows. Inr (rows, d)))))"
  by (rule keeps_system) (auto simp: rbind_eq_Inr)

lemma image_confined:
  assumes "always (confined (wh_root H) d) w"
  shows "always (confined (wh_root H) d) (snd (fbind (looking (\<lambda>d. resolve_path d (f d))) (\<lambda>saved. fbind (drop_saved H saved) (\<lambda>_. fret a)) w))"
proof (cases "resolve_path (fw_disk w) (f (fw_disk w))")
  case (Inr saved)
  then have p: "linkless (fw_disk w) saved" by (rule resolve_plain)
  have "always (confined (wh_root H) d) (snd (drop_saved H saved w))"
  proof (cases "prefix (wh_root H) saved")
    case True
    then have "always (confined (wh_root H) d) (snd (unlink H saved w))"
      by (intro confining.kept_unlink assms plain_prefix [OF p prefixeq_butlast])
    then show ?thesis using assms True
      by (auto simp: drop_saved_def catching_def fbind_def lifted_def relative_location_def looking_def fret_def split: sum.splits prod.splits)
  next
    case False
    then show ?thesis using assms
      by (auto simp: drop_saved_def catching_def fbind_def lifted_def relative_location_def fret_def)
  qed
  then show ?thesis using Inr by (auto simp: fbind_def looking_def fret_def split: prod.splits sum.splits)
next
  case (Inl e)
  then show ?thesis using assms by (simp add: fbind_def looking_def)
qed


section \<open>All or nothing\<close>

text \<open>The entry at \<open>p\<close> is what it was or a file of the new content.\<close>

definition old_or_new :: "location \<Rightarrow> string \<Rightarrow> disk \<Rightarrow> disk \<Rightarrow> bool" where
  "old_or_new p s d0 d \<longleftrightarrow> no_new_links d0 d \<and> (node_at d p = node_at d0 p \<or> node_at d p = Some (File s))"

interpretation replacing: disk_policy "old_or_new p s d0" "linkless d0" "\<lambda>q. q \<noteq> p" "\<lambda>q t. q = p \<longrightarrow> t = s" "\<lambda>q. q \<noteq> p"
  for p s d0
proof unfold_locales
  fix d q assume d: "old_or_new p s d0 d"
  show "linkless d0 q \<Longrightarrow> linkless d q" using d plain_later by (auto simp: old_or_new_def)
  show "old_or_new p s d0 (dict_set q Directory d)" if "q \<noteq> p" "q \<noteq> []"
    using d that by (simp add: old_or_new_def no_new_links_def)
  show "old_or_new p s d0 (dict_set q (File t) d)" if "q = p \<longrightarrow> t = s" "q \<noteq> []" for t
    using d that by (auto simp: old_or_new_def no_new_links_def)
  show "old_or_new p s d0 (dict_del q d)" if "q \<noteq> p" "q \<noteq> []"
    using d that by (simp add: old_or_new_def no_new_links_def)
qed (rule plain_prefix)

text \<open>Only directories at and above \<open>p\<close> that were missing are new.\<close>

definition only_made :: "location \<Rightarrow> disk \<Rightarrow> disk \<Rightarrow> bool" where
  "only_made p d0 d \<longleftrightarrow> (\<forall>q. node_at d q = node_at d0 q \<or> prefix q p \<and> node_at d0 q = None \<and> node_at d q = Some Directory)"

lemma only_made_links: "only_made p d0 d \<Longrightarrow> no_new_links d0 d"
  unfolding only_made_def no_new_links_def by (metis node.distinct(3) option.inject)

interpretation making: disk_policy "only_made p d0" "linkless d0" "\<lambda>q. prefix q p" "\<lambda>_ _. False" "\<lambda>_. False"
  for p d0
proof unfold_locales
  fix d q assume d: "only_made p d0 d"
  show "linkless d0 q \<Longrightarrow> linkless d q" using plain_later only_made_links [OF d] by blast
  show "only_made p d0 (dict_set q Directory d)" if "prefix q p" "q \<noteq> []" "node_at d q = None"
    using d that unfolding only_made_def by (metis node_at_put option.distinct(1))
qed (auto intro: plain_prefix)

lemma made_only:
  assumes "make_dirs H p w = (r, w1)" "linkless (fw_disk w) p" "fw_seen w = []"
  shows "only_made p (fw_disk w) (fw_disk w1)"
proof -
  have "keeps (always (only_made p (fw_disk w))) (make_dirs H p)" by (rule making.keeps_make_dirs [OF assms(2)])
  moreover have "always (only_made p (fw_disk w)) w" by (simp add: always_def only_made_def assms(3))
  ultimately show ?thesis using keepsD assms(1) always_disk by blast
qed

lemma other_name: "\<not> startswith (last p) a \<Longrightarrow> dir @ [a @ x] \<noteq> p"
  by (auto simp: startswith_iff)

lemma fill_and_replace_Inr:
  assumes "fill_and_replace H (butlast p) p s w = (Inr (), w')" "linkless (fw_disk w) (butlast p)" "p \<noteq> []"
    "\<not> startswith (last p) ''.ai-cloud-''"
  shows "node_at (fw_disk w') q = (if q = p then Some (File s) else node_at (fw_disk w) q)"
proof -
  from assms(1) obtain tmp w1 where m: "make_temp H (butlast p) ''.ai-cloud-'' ''.tmp'' w = (Inr tmp, w1)"
    and fin: "finally_do (fbind (append_to H tmp s) (\<lambda>_. fbind (sync H) (\<lambda>_. replace H tmp p))) (discard H tmp) w1 = (Inr (), w')"
    unfolding fill_and_replace_def fbind_Inr by blast
  from m obtain x where x: "tmp = butlast p @ [''.ai-cloud-'' @ x @ ''.tmp'']" "node_at (fw_disk w) tmp = None"
    "w1 = leave (dict_set tmp (File []) (fw_disk w)) w" by (rule make_temp_Inr)
  have tmp: "tmp \<noteq> p" "tmp \<noteq> []" using other_name [OF assms(4)] unfolding x(1) by blast+
  from fin obtain w4 where r: "fbind (append_to H tmp s) (\<lambda>_. fbind (sync H) (\<lambda>_. replace H tmp p)) w1 = (Inr (), w4)"
    and dis: "discard H tmp w4 = (Inr (), w')" by (auto simp: finally_do_def split: prod.splits sum.splits)
  from r obtain w2 w3 where a: "append_to H tmp s w1 = (Inr (), w2)" and y: "sync H w2 = (Inr (), w3)" and z: "replace H tmp p w3 = (Inr (), w4)"
    unfolding fbind_Inr by auto
  have d3: "node_at (fw_disk w3) q = (if q = tmp then Some (File s) else node_at (fw_disk w) q)" for q
    using append_Inr [OF a] sync_Inr [OF y] x(3) tmp(2) by (simp add: content_at_def)
  have up: "linkless d (butlast p)" if "\<And>q t. node_at d q = Some (Link t) \<Longrightarrow> node_at (fw_disk w) q = Some (Link t)" for d
    using plain_later [OF assms(2)] that by (simp add: no_new_links_def)
  from z obtain e n where e: "entry_of (fw_disk w3) p = Inr e" "node_at (fw_disk w3) tmp = Some n"
    "w4 = leave (dict_set e n (dict_del tmp (fw_disk w3))) w3" by (rule replace_Inr)
  have "e = p" by (rule entry_of_plain(1) [OF _ e(1)], rule up) (use d3 in \<open>auto split: if_splits\<close>)
  then have d4: "node_at (fw_disk w4) q = (if q = p then Some (File s) else node_at (fw_disk w) q)" for q
    using e(2,3) d3 tmp x(2) assms(3) by auto
  have "linkless (fw_disk w4) (butlast p)" by (rule up) (simp add: d4 split: if_splits)
  then have "linkless (fw_disk w4) (butlast tmp)" by (simp add: x(1))
  then have "linkless (fw_disk w4) tmp" using d4 tmp x by (simp add: plain_snoc)
  then have "\<not> path_exists (fw_disk w4) tmp" using d4 tmp x(2) by (simp add: path_exists_def stat_def real_path_plain)
  then have "w' = w4" using dis by (simp add: discard_def)
  then show ?thesis using d4 by simp
qed

lemma atomic_write_Inr:
  assumes "atomic_write H p s overwrite w = (Inr (), w')" "linkless (fw_disk w) (butlast p)" "p \<noteq> []"
    "\<not> startswith (last p) ''.ai-cloud-''" "fw_seen w = []"
  shows "node_at (fw_disk w') p = Some (File s)"
    "q \<noteq> p \<Longrightarrow> node_at (fw_disk w') q = node_at (fw_disk w) q
       \<or> prefix q (butlast p) \<and> node_at (fw_disk w) q = None \<and> node_at (fw_disk w') q = Some Directory"
    "prefix (wh_root H) (butlast p)"
proof -
  from assms(1) obtain w1 dir where m: "make_dirs H (butlast p) w = (Inr (), w1)" and dir: "resolve_path (fw_disk w1) (butlast p) = Inr dir"
    and root: "prefix (wh_root H) dir" and f: "fill_and_replace H dir p s w1 = (Inr (), w')"
    by (auto simp: atomic_write_def runs)
  have o: "only_made (butlast p) (fw_disk w) (fw_disk w1)" by (rule made_only [OF m assms(2,5)])
  then have pl: "linkless (fw_disk w1) (butlast p)" using plain_later [OF assms(2)] only_made_links by blast
  then have "dir = butlast p" using dir by (simp add: resolve_path_def real_path_plain)
  with root f show "prefix (wh_root H) (butlast p)"
    "node_at (fw_disk w') p = Some (File s)" "q \<noteq> p \<Longrightarrow> node_at (fw_disk w') q = node_at (fw_disk w) q
       \<or> prefix q (butlast p) \<and> node_at (fw_disk w) q = None \<and> node_at (fw_disk w') q = Some Directory"
    using fill_and_replace_Inr [OF _ pl assms(3,4)] o by (auto simp: only_made_def)
qed

lemma strictly_above: "prefix q (butlast p) \<Longrightarrow> p \<noteq> [] \<Longrightarrow> q \<noteq> p"
  by (cases p rule: rev_cases) (auto dest: prefix_length_le)

lemma put_file_old_or_new:
  assumes "linkless (fw_disk w) (butlast p)" "p \<noteq> []" "\<not> startswith (last p) ''.ai-cloud-''" "fw_seen w = []"
  shows "always (old_or_new p s (fw_disk w)) (snd (put_file H m p s overwrite extra w))"
proof (rule replacing.kept_put_file)
  show "always (old_or_new p s (fw_disk w)) w" using assms(4) by (simp add: always_def old_or_new_def no_new_links_def)
  show "prefix q (butlast p) \<Longrightarrow> q \<noteq> p" for q using strictly_above assms(2) by blast
  show "butlast p @ [''.ai-cloud-'' @ x @ ''.tmp''] = p \<longrightarrow> t = s" "butlast p @ [''.ai-cloud-'' @ x @ ''.tmp''] \<noteq> p" for x t
    using other_name [OF assms(3)] by blast+
qed (use assms in auto)

lemma atomic_write_overwrite:
  assumes "atomic_write H p s False w = (Inr (), w')" "linkless (fw_disk w) p" "p \<noteq> []" "fw_seen w = []"
  shows "node_at (fw_disk w) p = None"
proof -
  from assms(1) obtain w1 where m: "make_dirs H (butlast p) w = (Inr (), w1)" and e: "\<not> path_exists (fw_disk w1) p"
    by (auto simp: atomic_write_def runs)
  have up: "linkless (fw_disk w) (butlast p)" by (rule plain_prefix [OF assms(2) prefixeq_butlast])
  have o: "only_made (butlast p) (fw_disk w) (fw_disk w1)" by (rule made_only [OF m up assms(4)])
  then have "linkless (fw_disk w1) p" using plain_later [OF assms(2)] only_made_links by blast
  then have "node_at (fw_disk w1) p = None" using e by (simp add: path_exists_def stat_def real_path_plain)
  then show ?thesis using o unfolding only_made_def by (metis option.distinct(1))
qed

lemma write_file_run:
  assumes "safe_path H (fw_disk w) False rel = Inr p"
  shows "write_file H rel content overwrite w =
    (case put_file H too_large_text p (utf8 content) overwrite [] w of (Inl e, w1) \<Rightarrow> refused e w1 | (Inr a, w1) \<Rightarrow> (Inr a, w1))"
  by (simp add: write_file_def catching_def at_path_def fbind_def looking_def assms split: prod.splits sum.splits)

lemma write_file_old_or_new:
  assumes "safe_path H (fw_disk w) False rel = Inr p" "p \<noteq> []" "\<not> startswith (last p) ''.ai-cloud-''" "fw_seen w = []"
    "write_file H rel content overwrite w = (Inr ans, w')"
  shows "\<forall>d \<in> set (fw_disk w' # fw_seen w'). node_at d p = node_at (fw_disk w) p \<or> node_at d p = Some (File (utf8 content))"
proof -
  have up: "linkless (fw_disk w) (butlast p)" by (rule plain_prefix [OF safe_path_resolved(2) [OF assms(1)] prefixeq_butlast])
  show ?thesis
    using put_file_old_or_new [OF up assms(2-4), of "utf8 content" H too_large_text overwrite "[]"] assms(5)
    by (auto simp: write_file_run [OF assms(1)] refused_def fret_def always_def old_or_new_def list_all_iff split: prod.splits sum.splits)
qed

lemma write_file_ok:
  assumes "safe_path H (fw_disk w) False rel = Inr p" "p \<noteq> []" "\<not> startswith (last p) ''.ai-cloud-''" "fw_seen w = []"
    "write_file H rel content overwrite w = (Inr ans, w')"
  and ok: "answer_field ans ''ok'' = PBool True"
  shows "node_at (fw_disk w') p = Some (File (utf8 content)) \<and> length (utf8 content) \<le> max_text_bytes
      \<and> (node_at (fw_disk w) p = None \<or> overwrite)
      \<and> (\<forall>q. q = p \<or> node_at (fw_disk w') q = node_at (fw_disk w) q
           \<or> prefix q (butlast p) \<and> node_at (fw_disk w) q = None \<and> node_at (fw_disk w') q = Some Directory)"
proof -
  have p: "linkless (fw_disk w) p" by (rule safe_path_resolved(2) [OF assms(1)])
  have up: "linkless (fw_disk w) (butlast p)" by (rule plain_prefix [OF p prefixeq_butlast])
  have "put_file H too_large_text p (utf8 content) overwrite [] w = (Inr ans, w')" using assms(5) ok
    by (auto simp: write_file_run [OF assms(1)] refused_def fret_def answer_def answer_field_def field_def dget_def split: prod.splits sum.splits)
  then obtain w1 where a: "atomic_write H p (utf8 content) overwrite w = (Inr (), w1)" "fw_disk w' = fw_disk w1"
    "length (utf8 content) \<le> max_text_bytes"
    by (auto simp: put_file_def runs)
  then show ?thesis
    using atomic_write_Inr [OF a(1) up assms(2-4)] atomic_write_overwrite [OF _ p assms(2,4)] by (cases overwrite) auto
qed

text \<open>
  C38 (all or nothing). At every moment of \<open>write_file\<close>, whatever system call fails, the file is what it was or
  wholly the new content. When the tool answers \<open>ok\<close> the content is there, within the limit, nothing was
  overwritten unasked, and nothing else changed but missing directories above the file; no temporary file
  is left.
\<close>

theorem write_file_all_or_nothing:
  assumes "safe_path H (fw_disk w) False rel = Inr p" "p \<noteq> []" "\<not> startswith (last p) ''.ai-cloud-''" "fw_seen w = []"
    "write_file H rel content overwrite w = (Inr ans, w')"
  shows "(\<forall>d \<in> set (fw_disk w' # fw_seen w'). node_at d p = node_at (fw_disk w) p \<or> node_at d p = Some (File (utf8 content)))
    \<and> (answer_field ans ''ok'' = PBool True \<longrightarrow>
      node_at (fw_disk w') p = Some (File (utf8 content)) \<and> length (utf8 content) \<le> max_text_bytes
      \<and> (node_at (fw_disk w) p = None \<or> overwrite)
      \<and> (\<forall>q. q = p \<or> node_at (fw_disk w') q = node_at (fw_disk w) q
           \<or> prefix q (butlast p) \<and> node_at (fw_disk w) q = None \<and> node_at (fw_disk w') q = Some Directory))"
proof (rule conjI, goal_cases)
  case 1
  show ?case using write_file_old_or_new [OF assms] .
next
  case 2
  show ?case using write_file_ok [OF assms] by blast
qed

end
