(* ===== verification/Workspace_Web.thy ===== *)
theory Workspace_Web imports Workspace_Confined begin

text \<open>
  tools/ai_cloud_workspace.py: a download asks only public addresses, at most six times, and what it
  stores was checked. Reading back what a tool wrote.
\<close>

section \<open>Public addresses\<close>

text \<open>The \<open>i\<close>-th name lookup finds only public addresses for the host of \<open>url\<close>.\<close>

definition public_when :: "web \<Rightarrow> nat \<Rightarrow> string \<Rightarrow> bool" where
  "public_when W i url \<longleftrightarrow>
     (\<exists>u h port addresses. wb_split W (strip url) = Some u \<and> up_scheme u \<in> {''http'', ''https''} \<and> up_host u = Some h \<and> h \<noteq> []
        \<and> \<not> set_text (up_user u) \<and> \<not> set_text (up_password u) \<and> up_port u = Inr port
        \<and> wb_names W i h (web_port u port) = Found addresses
        \<and> (\<forall>a \<in> set addresses. \<exists>f. wb_ip W a = Some f \<and> \<not> local_address f))"

lemma all_ok_Inr: "all_ok f xs = Inr ys \<Longrightarrow> x \<in> set xs \<Longrightarrow> \<exists>y. f x = Inr y"
  by (induction xs arbitrary: ys) (auto simp: rbind_eq_Inr)

lemma validated_is_public:
  assumes "validate_public_url W i url = Inr v"
  shows "public_when W i url"
proof -
  from assms obtain u port addresses where u: "wb_split W (strip url) = Some u" "up_scheme u \<in> {''http'', ''https''}" "set_text (up_host u)"
    "\<not> set_text (up_user u)" "\<not> set_text (up_password u)" "up_port u = Inr port"
    and names: "wb_names W i (the (up_host u)) (web_port u port) = Found addresses"
    and all: "\<exists>ys. all_ok (check_address W) addresses = Inr ys"
    unfolding validate_public_url_def
    by (auto elim!: rbindE simp: of_opt_eq_Inr split: sum.split_asm name_lookup.split_asm)
  from all obtain ys where ok: "all_ok (check_address W) addresses = Inr ys" ..
  have "\<exists>f. wb_ip W a = Some f \<and> \<not> local_address f" if "a \<in> set addresses" for a
    using all_ok_Inr [OF ok that] by (auto simp: check_address_def rbind_eq_Inr of_opt_eq_Inr)
  with u names show ?thesis by (auto simp: public_when_def set_text_def split: option.splits)
qed

section \<open>What a run asks\<close>

definition asked :: "web \<Rightarrow> string list \<Rightarrow> nat \<Rightarrow> fs_world \<Rightarrow> bool" where
  "asked W old n w \<longleftrightarrow> (\<exists>us. fw_fetched w = us @ old \<and> length us \<le> n \<and> (\<forall>u \<in> set us. \<exists>i. public_when W i u))"

lemma asked_mono: "asked W us m w \<Longrightarrow> m \<le> n \<Longrightarrow> asked W us n w"
  by (auto simp: asked_def)

lemma asks_nothing: "keeps (asked W us n) (system H f)" "keeps (asked W us n) (append_to H p s)" "keeps (asked W us n) (make_temp H dir a b)"
  by (auto simp: keeps_def asked_def system_def append_to_def make_temp_def Let_def split: option.splits sum.splits)

lemma asks_nothing_dirs: "keeps (asked W us n) (make_path H up)"
  by (induction up) (auto simp: ensure_dir_def make_dir_def intro!: keeping asks_nothing keeps_conditional keeps_if)

lemma asks_nothing_more [keeping]:
  "keeps (asked W us n) (make_dirs H p)" "keeps (asked W us n) (discard H p)" "keeps (asked W us n) (receive H p m cs)"
  "keeps (asked W us n) (replace H p q)" "keeps (asked W us n) (read_bytes H p)" "keeps (asked W us n) (sync H)"
proof -
  show "keeps (asked W us n) (make_dirs H p)" unfolding make_dirs_def by (rule asks_nothing_dirs)
  have "keeps (asked W us n) (unlink H p)" unfolding unlink_def by (rule asks_nothing)
  then show "keeps (asked W us n) (discard H p)"
    unfolding discard_def by (intro keeps_if) (simp_all add: keeps_def)
  show "keeps (asked W us n) (receive H p m cs)"
    by (induction cs arbitrary: m) (auto intro!: keeping asks_nothing)
  show "keeps (asked W us n) (replace H p q)" "keeps (asked W us n) (read_bytes H p)" "keeps (asked W us n) (sync H)"
    unfolding replace_def read_bytes_def sync_def by (rule asks_nothing)+
qed

lemma asks_nothing_accept: "keeps (asked W us n) (accept_reply W' H rel overwrite ur)"
proof (cases ur)
  case (Pair u r)
  then show ?thesis unfolding accept_reply_def by (cases r) (auto simp: Let_def intro!: keeping)
qed

lemma asks_nothing_store: "keeps (asked W us n) (store_download H j)"
proof -
  have place: "keeps (asked W us n) (place_download H tmp j)" for tmp
    unfolding place_download_def by (intro keeping) (auto split: option.splits intro!: keeping)
  have rest: "keeps (asked W us n) (finally_do (refused e) (discard H tmp))" "keeps (asked W us n) (catching (report_download H j m) refused)" for e tmp m
    unfolding report_download_def by (intro keeping)+
  have "asked W us n (snd (store_download H j w))" if w: "asked W us n w" for w
  proof (cases "make_temp H (dj_dir j) ''.download-'' ''.part'' w")
    case (Pair r w1)
    have w1: "asked W us n w1" using keepsD [OF asks_nothing(3) w Pair] .
    show ?thesis
    proof (cases r)
      case (Inl e)
      then show ?thesis using Pair w1 by (simp add: store_download_def refused_def fret_def)
    next
      case (Inr tmp)
      obtain r2 w2 where p: "place_download H tmp j w1 = (r2, w2)" by fastforce
      have w2: "asked W us n w2" using keepsD [OF place w1 p] .
      show ?thesis using rest w2 by (cases r2) (auto simp: store_download_def Pair Inr p keeps_def)
    qed
  qed
  then show ?thesis by (simp add: keeps_def)
qed

lemma check_url_run: "check_url W u w = (r, w') \<Longrightarrow>
    r = validate_public_url W (fw_lookups w) u \<and> fw_fetched w' = fw_fetched w"
  by (auto simp: check_url_def)

lemma follow_asks: "asked W us m w \<Longrightarrow> asked W us (m + n) (snd (follow W n u w))"
proof (induction n arbitrary: u w m)
  case (Suc n)
  obtain r1 w1 where c: "check_url W u w = (r1, w1)" by fastforce
  have w1: "asked W us m w1" using Suc.prems check_url_run [OF c] by (simp add: asked_def)
  show ?case
  proof (cases r1)
    case (Inl e)
    then show ?thesis using c w1 asked_mono by (simp add: fbind_def)
  next
    case (Inr v)
    then have "public_when W (fw_lookups w) u" using check_url_run [OF c] validated_is_public by metis
    moreover obtain r w2 where g: "get_url W u w1 = (Inr r, w2)" "fw_fetched w2 = u # fw_fetched w1"
      by (simp add: get_url_def)
    ultimately have w2: "asked W us (Suc m) w2" using w1 by (auto simp: asked_def intro: exI [of _ "u # _"])
    then have done_now: "asked W us (m + Suc n) w2" by (rule asked_mono) simp
    have next_url: "asked W us (m + Suc n) (snd (fbind (check_url W x) (\<lambda>y. follow W n y) w2))" for x
    proof (cases "check_url W x w2")
      case (Pair r3 w3)
      have "asked W us (Suc m) w3" using w2 check_url_run [OF Pair] by (simp add: asked_def)
      then show ?thesis using Pair Suc.IH [of "Suc m" w3] asked_mono by (cases r3) (auto simp: fbind_def)
    qed
    show ?thesis
      using c Inr g done_now next_url
      by (auto simp: fbind_def raising_def fret_def lifted_def split: web_reply.splits option.splits list.splits sum.splits)
  qed
qed (simp add: raising_def)

lemma download_asks: "fw_fetched w = [] \<Longrightarrow> asked W [] 6 (snd (download_file W H url rel overwrite w))"
proof (cases "prepare_download W H url rel overwrite w")
  case (Pair r w')
  assume w: "fw_fetched w = []"
  obtain r1 w1 where c: "check_url W url w = (r1, w1)" by fastforce
  have w1: "asked W [] 0 w1" using check_url_run [OF c] w by (simp add: asked_def)
  have "asked W [] 6 w'"
  proof (cases r1)
    case (Inl e)
    then show ?thesis using Pair c asked_mono [OF w1] by (auto simp: prepare_download_def fbind_def)
  next
    case (Inr u)
    have "asked W [] 6 (snd (follow W 6 u w1))" using follow_asks [OF w1, of 6 u] by simp
    then show ?thesis using Pair c Inr asks_nothing_accept
      by (cases "follow W 6 u w1") (auto simp: prepare_download_def fbind_def keeps_def split: sum.splits, metis snd_conv)
  qed
  then show ?thesis using Pair asks_nothing_store by (auto simp: download_file_def refused_def fret_def keeps_def split: sum.splits)
qed

section \<open>What a download stores\<close>

lemma refused_not_ok: "refused e w = (Inr ans, w') \<Longrightarrow> answer_field ans ''ok'' \<noteq> PBool True"
  by (auto simp: refused_def fret_def answer_def answer_field_def field_def dget_def)

lemma place_Inr:
  assumes "place_download H tmp j w = (Inr n, w')" "tmp \<noteq> []" "node_at (fw_disk w) tmp = Some (File [])" "linkless (fw_disk w) tmp"
    "linkless (fw_disk w) (butlast (dj_target j))"
  shows "\<exists>data. node_at (fw_disk w') (dj_target j) = Some (File data) \<and> n = length data \<and> 0 < n \<and> n \<le> max_download_bytes
    \<and> verify_content (dj_type j) data = Inr ()"
proof -
  let ?data = "concat (dj_chunks j)"
  from assms(1) obtain w1 w2 data w3 where rc: "receive H tmp 0 (dj_chunks j) w = (Inr n, w1)" and y: "sync H w1 = (Inr (), w2)"
    and b: "read_bytes H tmp w2 = (Inr data, w3)" and ne: "data \<noteq> []" and v: "verify_content (dj_type j) data = Inr ()"
    and z: "replace H tmp (dj_target j) w3 = (Inr (), w')"
    unfolding place_download_def by (auto simp: runs split: option.splits)
  have r: "node_at (fw_disk w1) tmp = Some (File ?data)" "n = length ?data" "dj_chunks j \<noteq> [] \<longrightarrow> n \<le> max_download_bytes"
    "\<And>q. q \<noteq> tmp \<Longrightarrow> node_at (fw_disk w1) q = node_at (fw_disk w) q"
    using receive_Inr [OF rc assms(2,3)] by auto
  have nl: "no_new_links (fw_disk w) (fw_disk w1)"
    unfolding no_new_links_def using r(1,4) by (metis node.distinct(5) option.inject)
  have w2: "fw_disk w2 = fw_disk w1" using sync_Inr [OF y] by simp
  have "data = ?data" "fw_disk w3 = fw_disk w1"
    using b plain_later [OF assms(4) nl] r(1) by (auto simp: read_bytes_def system_Inr w2 stat_def real_path_plain)
  moreover from z obtain e x where e: "entry_of (fw_disk w3) (dj_target j) = Inr e" "node_at (fw_disk w3) e \<noteq> Some Directory"
    "node_at (fw_disk w3) tmp = Some x" "w' = leave (dict_set e x (dict_del tmp (fw_disk w3))) w3" by (rule replace_Inr)
  moreover have "e = dj_target j" using entry_of_plain(1) [OF _ e(1)] plain_later [OF assms(5) nl] calculation(2) by simp
  ultimately show ?thesis using r ne v by (auto simp: node_at_def)
qed

lemma store_ok:
  assumes "store_download H j w = (Inr ans, w')" "answer_field ans ''ok'' = PBool True"
    "linkless (fw_disk w) (dj_dir j)" "dj_dir j = butlast (dj_target j)"
  shows "\<exists>data. answer_field ans ''path'' = PStr (path_text (dj_target j)) \<and> answer_field ans ''content_type'' = PStr (dj_type j)
    \<and> node_at (fw_disk w') (dj_target j) = Some (File data) \<and> 0 < length data \<and> length data \<le> max_download_bytes
    \<and> verify_content (dj_type j) data = Inr ()"
proof -
  from assms(1,2) obtain tmp w1 where m: "make_temp H (dj_dir j) ''.download-'' ''.part'' w = (Inr tmp, w1)"
    by (auto simp: store_download_def dest: refused_not_ok split: prod.splits sum.splits)
  from m obtain x where x: "tmp = dj_dir j @ [''.download-'' @ x @ ''.part'']" "w1 = leave (dict_set tmp (File []) (fw_disk w)) w"
    by (rule make_temp_Inr)
  have ne: "tmp \<noteq> []" by (simp add: x(1))
  have at_tmp: "node_at (fw_disk w1) q = (if q = tmp then Some (File []) else node_at (fw_disk w) q)" for q using x(2) ne by simp
  then have nl: "no_new_links (fw_disk w) (fw_disk w1)" by (simp add: no_new_links_def)
  have pl: "linkless (fw_disk w1) (dj_dir j)" "linkless (fw_disk w1) tmp"
    using plain_later [OF assms(3) nl] at_tmp ne unfolding x(1) plain_snoc by auto
  from assms(1,2) obtain n w2 where p: "place_download H tmp j w1 = (Inr n, w2)" and rep: "catching (report_download H j n) refused w2 = (Inr ans, w')"
    by (auto simp: store_download_def m finally_do_def dest: refused_not_ok split: prod.splits sum.splits)
  from rep assms(2) have "report_download H j n w2 = (Inr ans, w')"
    by (auto simp: catching_def dest: refused_not_ok split: prod.splits sum.splits)
  then have a: "answer_field ans ''path'' = PStr (path_text (dj_target j))" "answer_field ans ''content_type'' = PStr (dj_type j)" "w' = w2"
    by (auto simp: report_download_def runs answer_def answer_field_def field_def dget_def)
  show ?thesis using place_Inr [OF p ne _ pl(2)] at_tmp pl(1) assms(4) a by auto
qed

lemma accepted_type: "accept_reply W H rel overwrite ur w = (Inr j, w') \<Longrightarrow> map_of mime_extensions (dj_type j) \<noteq> None"
  by (auto simp: accept_reply_def Let_def runs split: prod.splits web_reply.splits)

text \<open>
  C40 (bounded, public, checked downloads). A download makes at most six requests, each to an address whose
  host then resolved to public addresses only. When it answers \<open>ok\<close> the file it names is in the workspace,
  is not empty, is no larger than the limit, and its type is allowed and agrees with its content.
\<close>

theorem download_stores_checked:
  assumes "download_file W H url rel overwrite w = (r, w')" "fw_fetched w = []" "fw_seen w = []"
  shows "length (fw_fetched w') \<le> 6 \<and> (\<forall>u \<in> set (fw_fetched w'). \<exists>i. public_when W i u)
    \<and> (\<forall>ans. r = Inr ans \<and> answer_field ans ''ok'' = PBool True \<longrightarrow>
         (\<exists>t ct data. answer_field ans ''path'' = PStr (path_text t) \<and> answer_field ans ''content_type'' = PStr ct
            \<and> prefix (wh_root H) (butlast t) \<and> node_at (fw_disk w') t = Some (File data)
            \<and> map_of mime_extensions ct \<noteq> None \<and> verify_content ct data = Inr ()
            \<and> 0 < length data \<and> length data \<le> max_download_bytes))"
proof -
  have asked: "asked W [] 6 w'" using download_asks [OF assms(2), of W H url rel overwrite] assms(1) by simp
  have "\<exists>t ct data. answer_field ans ''path'' = PStr (path_text t) \<and> answer_field ans ''content_type'' = PStr ct
      \<and> prefix (wh_root H) (butlast t) \<and> node_at (fw_disk w') t = Some (File data) \<and> map_of mime_extensions ct \<noteq> None
      \<and> verify_content ct data = Inr () \<and> 0 < length data \<and> length data \<le> max_download_bytes"
    if r: "r = Inr ans" and ok: "answer_field ans ''ok'' = PBool True" for ans
  proof -
    from assms(1) ok obtain j w1 where p: "prepare_download W H url rel overwrite w = (Inr j, w1)" and st: "store_download H j w1 = (Inr ans, w')"
      by (auto simp: download_file_def r dest: refused_not_ok split: prod.splits sum.splits)
    have w: "always (confined (wh_root H) (fw_disk w)) w" by (simp add: always_def confined_refl assms(3))
    have j: "always (confined (wh_root H) (fw_disk w)) w1" "inside H (fw_disk w) (dj_target j)" "dj_dir j = butlast (dj_target j)"
      "prefix (wh_root H) (dj_dir j)"
      using confining.prepared [OF w p] by (auto simp: inside_def)
    have "no_new_links (fw_disk w) (fw_disk w1)" using always_disk [OF j(1)] by (simp add: confined_def)
    then have "linkless (fw_disk w1) (dj_dir j)" using plain_later [of "fw_disk w"] j(2,3) by (auto simp: inside_def)
    moreover have "map_of mime_extensions (dj_type j) \<noteq> None"
      using p accepted_type by (auto simp: prepare_download_def runs)
    ultimately show ?thesis using store_ok [OF st ok _ j(3)] j(3,4) by auto
  qed
  then show ?thesis using asked by (auto simp: asked_def)
qed

section \<open>Reading back\<close>

lemma latin_bytes:
  assumes "128 \<le> n" "n < (256::nat)"
  shows "192 + n div 64 = 194 \<or> 192 + n div 64 = 195" "128 + n mod 64 < 192" "n div 64 * 64 + n mod 64 = n"
proof -
  have "2 \<le> n div 64" using div_le_mono [OF assms(1), of 64] by simp
  moreover have "n div 64 < 4" using assms(2) by (simp add: less_mult_imp_div_less)
  ultimately show "192 + n div 64 = 194 \<or> 192 + n div 64 = 195" by linarith
  show "128 + n mod 64 < 192" by simp
  show "n div 64 * 64 + n mod 64 = n" by simp
qed

lemma utf8_decode_two:
  assumes "of_char a = (192::nat) + n div 64" "of_char b = (128::nat) + n mod 64" "128 \<le> n" "n < 256"
  shows "utf8_decode beyond (a # b # s) = map_option (Cons (char_of n)) (utf8_decode beyond s)"
  using assms(1,2) latin_bytes [OF assms(3,4)] by auto

lemma utf8_decodes: "utf8_decode beyond (utf8 s) = Some s"
proof (induction s)
  case Nil
  then show ?case by (simp add: utf8_def)
next
  case (Cons c s)
  show ?case
  proof (cases "of_char c < (128::nat)")
    case True
    then have "utf8 (c # s) = c # utf8 s" by (simp add: utf8_def utf8_char_def)
    then show ?thesis using True Cons.IH by (cases "utf8 s") auto
  next
    case False
    let ?n = "of_char c :: nat"
    have n: "128 \<le> ?n" "?n < 256" using False by simp_all
    have "utf8 (c # s) = char_of (192 + ?n div 64) # char_of (128 + ?n mod 64) # utf8 s"
      using False by (simp add: utf8_def utf8_char_def Let_def)
    moreover have "of_char (char_of (192 + ?n div 64) :: char) = (192::nat) + ?n div 64"
      "of_char (char_of (128 + ?n mod 64) :: char) = (128::nat) + ?n mod 64"
      using latin_bytes [OF n] by (auto intro!: of_char_digit)
    ultimately show ?thesis using utf8_decode_two [OF _ _ n] Cons.IH by simp
  qed
qed

lemma utf8_has_no_mark: "\<not> startswith (utf8 s) [CHR 0xEF, CHR 0xBB, CHR 0xBF]"
proof (cases s)
  case (Cons c r)
  show ?thesis
  proof (cases "of_char c < (128::nat)")
    case True
    then have "c \<noteq> CHR 0xEF" by auto
    then show ?thesis using True Cons by (simp add: utf8_def utf8_char_def)
  next
    case False
    let ?b = "char_of (192 + (of_char c :: nat) div 64) :: char"
    have "of_char ?b = (192::nat) + of_char c div 64" "192 + (of_char c :: nat) div 64 = 194 \<or> 192 + (of_char c :: nat) div 64 = 195"
      using latin_bytes(1) [of "of_char c"] False by (auto intro!: of_char_digit)
    then have "of_char ?b \<noteq> (of_char (CHR 0xEF) :: nat)" by auto
    then have "?b \<noteq> CHR 0xEF" by metis
    then show ?thesis using False Cons by (simp add: utf8_def utf8_char_def Let_def)
  qed
qed (simp add: utf8_def)

lemma utf8_sig_decodes: "utf8_sig_decode beyond (utf8 s) = Inr s"
  by (simp add: utf8_sig_decode_def removeprefix_def utf8_has_no_mark utf8_decodes)

lemma walk_no_link: "\<nexists>t. node_at d (p @ [c]) = Some (Link t) \<Longrightarrow> walk n d p (c # cs) = walk n d (p @ [c]) cs"
  by (cases "node_at d (p @ [c])") (auto split: node.split)

lemma walk_same_links:
  assumes same: "\<And>q t. node_at d q = Some (Link t) \<longleftrightarrow> node_at d' q = Some (Link t)"
  shows "walk n d p cs = walk n d' p cs"
proof (induction n arbitrary: p cs rule: less_induct)
  case (less n)
  show ?case
  proof (induction cs arbitrary: p)
    case (Cons c cs)
    show ?case
    proof (cases "\<exists>t. node_at d (p @ [c]) = Some (Link t)")
      case True
      then obtain t where t: "node_at d (p @ [c]) = Some (Link t)" "node_at d' (p @ [c]) = Some (Link t)" using same by blast
      then show ?thesis using less.IH by (cases n) simp_all
    next
      case False
      then have "\<nexists>t. node_at d' (p @ [c]) = Some (Link t)" using same by simp
      then show ?thesis using walk_no_link False Cons.IH by metis
    qed
  qed simp
qed

lemma safe_path_same_links:
  assumes "\<And>q t. node_at d q = Some (Link t) \<longleftrightarrow> node_at d' q = Some (Link t)"
  shows "safe_path H d b rel = safe_path H d' b rel"
proof -
  have "resolve_path d = resolve_path d'" using walk_same_links [OF assms] by (auto simp: resolve_path_def real_path_def)
  then show ?thesis by (simp only: safe_path_def)
qed


end
