(* ===== verification/Workspace_Examples.thy ===== *)
theory Workspace_Examples imports Workspace_Web begin

text \<open>A workspace at \<open>/w\<close>, a file written to it and a page downloaded into it.\<close>

definition ex_box :: workspace_host where
  "ex_box = \<lparr>wh_root = [''w''], wh_faults = (\<lambda>_. None), wh_draws = (\<lambda>_. [''a'']), wh_probe = ''.probe'', wh_readable = (\<lambda>_. True)\<rparr>"

definition ex_dirs :: fs_world where
  "ex_dirs = \<lparr>fw_disk = [([''w''], Directory), ([''etc''], Directory)], fw_calls = 0, fw_seen = [], fw_lookups = 0, fw_fetched = []\<rparr>"

definition ex_site :: web where
  "ex_site =
     \<lparr>wb_split = (\<lambda>u. Some \<lparr>up_scheme = ''http'', up_host = Some ''h'', up_user = None, up_password = None, up_path = ''/n'',
                              up_query = [], up_fragment = [], up_port = Inr None\<rparr>),
      wb_text = id, wb_join = (\<lambda>b u. Some u), wb_unquote = id, wb_names = (\<lambda>i h p. Found [''9'']),
      wb_ip = (\<lambda>a. Some \<lparr>ip_private = False, ip_loopback = False, ip_link_local = False, ip_multicast = False, ip_reserved = False, ip_unspecified = False\<rparr>),
      wb_fetch = (\<lambda>i u. if i = 0 then WebReply 302 [(''location'', ''u'')] [] None
                        else WebReply 200 [(''content-type'', ''text/plain'')] [''c'', ''d''] None)\<rparr>"

definition ex_tools_lib :: workspace_lib where
  "ex_tools_lib = \<lparr>wl_web = ex_site, wl_find = (\<lambda>s n. Inr []), wl_dump = (\<lambda>v. Inr ''{}''), wl_beyond = (\<lambda>_. None)\<rparr>"

abbreviation ex_place :: location where
  "ex_place \<equiv> [''w'', ''d'', ''x'']"

lemma ex_path: "safe_path ex_box (fw_disk ex_dirs) False ''d/x'' = Inr ex_place"
  by code_simp

lemma ex_atomic: "fst (atomic_write ex_box ex_place (utf8 ''hi'') True ex_dirs) = Inr ()"
  "relative_name ex_box (fw_disk (snd (atomic_write ex_box ex_place (utf8 ''hi'') True ex_dirs))) ex_place = Inr ''d/x''"
  by (code_simp, code_simp)

lemma ex_short: "length (utf8 ''hi'') \<le> max_text_bytes"
  by (simp add: utf8_def utf8_char_def max_text_bytes_def)

lemma ex_put: "\<exists>ans w'. write_file ex_box ''d/x'' ''hi'' True ex_dirs = (Inr ans, w') \<and> answer_field ans ''ok'' = PBool True"
proof -
  obtain w1 where w1: "atomic_write ex_box ex_place (utf8 ''hi'') True ex_dirs = (Inr (), w1)"
    using ex_atomic(1) by (cases "atomic_write ex_box ex_place (utf8 ''hi'') True ex_dirs") auto
  then have "relative_name ex_box (fw_disk w1) ex_place = Inr ''d/x''" using ex_atomic(2) by simp
  then show ?thesis using w1 ex_short
    by (simp add: write_file_run [OF ex_path] put_file_def fbind_def insist_def fret_def looking_def answer_def answer_field_def field_def dget_def)
qed

lemma ex_plain: "linkless (fw_disk ex_dirs) [''w'']" "linkless (fw_disk ex_dirs) [''w'', ''.probe'']"
  using plain_snoc [of "fw_disk ex_dirs" "[]" "''w''"] plain_snoc [of "fw_disk ex_dirs" "[''w'']" "''.probe''"]
  by (simp_all add: ex_dirs_def node_at_def)


theorem write_file_all_or_nothing_witness:
  "\<exists>w' :: fs_world. node_at (fw_disk w') ex_place = Some (File (utf8 ''hi''))"
proof -
  obtain ans w' where run: "write_file ex_box ''d/x'' ''hi'' True ex_dirs = (Inr ans, w')" and ok: "answer_field ans ''ok'' = PBool True"
    using ex_put by blast
  have "answer_field ans ''ok'' = PBool True \<longrightarrow> node_at (fw_disk w') ex_place = Some (File (utf8 ''hi''))"
    using write_file_all_or_nothing [OF ex_path _ _ _ run] by (auto simp: ex_dirs_def)
  with ok show ?thesis by blast
qed


definition ex_job :: download_job where
  "ex_job = \<lparr>dj_dir = [''w''], dj_target = [''w'', ''n.txt''], dj_type = ''text/plain'', dj_url = ''u'', dj_chunks = [''c'', ''d''], dj_broken = None\<rparr>"

lemma ex_follow: "follow ex_site 6 ''u'' (snd (check_url ex_site ''u'' ex_dirs))
    = (Inr (''u'', WebReply 200 [(''content-type'', ''text/plain'')] [''c'', ''d''] None),
       ex_dirs\<lparr>fw_lookups := 4, fw_fetched := [''u'', ''u'']\<rparr>)"
  by code_simp

lemma ex_target: "download_target ex_site ex_box (fw_disk ex_dirs) [(''content-type'', ''text/plain'')] ''text/plain'' ''u'' [] = Inr [''w'', ''n.txt'']"
  by code_simp

lemma ex_type: "content_type_of [(''content-type'', ''text/plain'')] = ''text/plain''" "check_declared [(''content-type'', ''text/plain'')] = Inr ()"
  "validate_public_url ex_site 0 ''u'' = Inr ''u''"
  by code_simp+

definition ex_asked :: fs_world where
  "ex_asked = ex_dirs\<lparr>fw_lookups := 4, fw_fetched := [''u'', ''u'']\<rparr>"

lemma ex_dirs_ok: "fst (make_dirs ex_box [''w''] ex_asked) = Inr ()"
  "let w1 = snd (make_dirs ex_box [''w''] ex_asked) in
     resolve_path (fw_disk w1) [''w''] = Inr [''w''] \<and> path_exists (fw_disk w1) [''w'', ''n.txt''] = False"
  by code_simp+

lemma ex_prepare: "prepare_download ex_site ex_box ''u'' [] False ex_dirs = (Inr ex_job, snd (make_dirs ex_box [''w''] ex_asked))"
proof -
  have f: "follow ex_site 6 ''u'' (snd (check_url ex_site ''u'' ex_dirs))
    = (Inr (''u'', WebReply 200 [(''content-type'', ''text/plain'')] [''c'', ''d''] None), ex_asked)"
    unfolding ex_asked_def by (rule ex_follow)
  have c: "check_url ex_site ''u'' ex_dirs = (Inr ''u'', snd (check_url ex_site ''u'' ex_dirs))"
    using ex_type(3) by (simp add: check_url_def ex_dirs_def)
  have d: "make_dirs ex_box [''w''] ex_asked = (Inr (), snd (make_dirs ex_box [''w''] ex_asked))"
    using ex_dirs_ok(1) by (metis prod.collapse)
  have t: "download_target ex_site ex_box (fw_disk ex_asked) [(''content-type'', ''text/plain'')] ''text/plain'' ''u'' [] = Inr [''w'', ''n.txt'']"
    using ex_target by (simp add: ex_asked_def)
  have root: "prefix (wh_root ex_box) [''w'']" by (simp add: ex_box_def)
  have a: "accept_reply ex_site ex_box [] False (''u'', WebReply 200 [(''content-type'', ''text/plain'')] [''c'', ''d''] None) ex_asked
    = (Inr ex_job, snd (make_dirs ex_box [''w''] ex_asked))"
    using d t ex_dirs_ok(2) root by (simp add: accept_reply_def runs ex_type Let_def ex_job_def mime_extensions_def)
  show ?thesis unfolding prepare_download_def runs using c f a by blast
qed

lemma ex_stages:
  "case make_temp ex_box [''w''] ''.download-'' ''.part'' (snd (make_dirs ex_box [''w''] ex_asked)) of (t, w1) \<Rightarrow>
   case append_to ex_box [''w'', ''.download-a.part''] ''c'' w1 of (a, w2) \<Rightarrow>
   case append_to ex_box [''w'', ''.download-a.part''] ''d'' w2 of (b, w3) \<Rightarrow>
   case sync ex_box w3 of (c, w4) \<Rightarrow>
   case read_bytes ex_box [''w'', ''.download-a.part''] w4 of (d, w5) \<Rightarrow>
   case replace ex_box [''w'', ''.download-a.part''] [''w'', ''n.txt''] w5 of (e, w6) \<Rightarrow>
     t = Inr [''w'', ''.download-a.part''] \<and> a = Inr () \<and> b = Inr () \<and> c = Inr () \<and> d = Inr ''cd'' \<and> e = Inr ()
     \<and> relative_name ex_box (fw_disk w6) [''w'', ''n.txt''] = Inr ''n.txt''"
  by code_simp

lemma ex_verified: "verify_content ''text/plain'' ''cd'' = Inr ()"
  by code_simp

lemma ex_got: "\<exists>ans w'. download_file ex_site ex_box ''u'' [] False ex_dirs = (Inr ans, w') \<and> answer_field ans ''ok'' = PBool True"
proof -
  let ?tmp = "[''w'', ''.download-a.part'']"
  obtain w1 w2 w3 w4 w5 w6 where
    run: "make_temp ex_box [''w''] ''.download-'' ''.part'' (snd (make_dirs ex_box [''w''] ex_asked)) = (Inr ?tmp, w1)"
      "append_to ex_box ?tmp ''c'' w1 = (Inr (), w2)" "append_to ex_box ?tmp ''d'' w2 = (Inr (), w3)"
      "sync ex_box w3 = (Inr (), w4)" "read_bytes ex_box ?tmp w4 = (Inr ''cd'', w5)"
      "replace ex_box ?tmp [''w'', ''n.txt''] w5 = (Inr (), w6)"
      and name: "relative_name ex_box (fw_disk w6) [''w'', ''n.txt''] = Inr ''n.txt''"
    using ex_stages by (auto split: prod.splits)
  have "receive ex_box ?tmp 0 [''c'', ''d''] w1 = (Inr 2, w3)"
    using run(2,3) by (simp add: fbind_def insist_def fret_def max_download_bytes_def)
  then have "place_download ex_box ?tmp ex_job w1 = (Inr 2, w6)"
    using run(4-6) ex_verified by (simp add: place_download_def fbind_def insist_def fret_def lifted_def ex_job_def)
  moreover have "dj_dir ex_job = [''w'']" "dj_target ex_job = [''w'', ''n.txt'']" by (simp_all add: ex_job_def)
  ultimately show ?thesis using run(1) name
    by (simp add: download_file_def ex_prepare store_download_def report_download_def catching_def fbind_def looking_def fret_def
        answer_def answer_field_def field_def dget_def)
qed

theorem download_stores_checked_witness:
  "\<exists>t w' data. node_at (fw_disk (w' :: fs_world)) t = Some (File data) \<and> 0 < length data \<and> length (fw_fetched w') \<le> 6"
proof -
  obtain ans w' where run: "download_file ex_site ex_box ''u'' [] False ex_dirs = (Inr ans, w')" and ok: "answer_field ans ''ok'' = PBool True"
    using ex_got by blast
  show ?thesis using download_stores_checked [OF run] ok by (auto simp: ex_dirs_def)
qed

end
