(* ===== verification/Node_Identity.thy ===== *)
theory Node_Identity imports Workspace_Confined Qualification_Store begin

text \<open>
  dante/node_bootstrap.py and dante/node_qualification.py: the identity of a node, published once and
  never replaced, the snapshot of its machine, and the attempt to qualify a tuple on it. Files are
  those of \<open>Workspace_Files\<close>, where every system call can fail; the store is that of \<open>Qualification_Store\<close>.
\<close>

section \<open>The identity file\<close>

definition uuid_char :: "nat \<Rightarrow> char \<Rightarrow> bool" where
  "uuid_char i c =
     (if i \<in> {8, 13, 18, 23} then c = CHR ''-''
      else if i = 14 then c = CHR ''4''
      else if i = 19 then c \<in> set ''89ab''
      else hex_char c)"

text \<open>What \<open>UUID\<close> reads as version 4 and writes as the same text.\<close>

definition canonical_uuid4 :: "string \<Rightarrow> bool" where
  "canonical_uuid4 s \<longleftrightarrow> length s = 36 \<and> list_all (\<lambda>(i, c). uuid_char i c) (enumerate 0 s)"

definition is_link_at :: "disk \<Rightarrow> location \<Rightarrow> bool" where
  "is_link_at d p = (case entry_of d p of Inr q \<Rightarrow> (case node_at d q of Some (Link _) \<Rightarrow> True | _ \<Rightarrow> False) | Inl _ \<Rightarrow> False)"

definition read_node_id :: "workspace_host \<Rightarrow> location \<Rightarrow> string fs_run" where
  "read_node_id H p =
     fbind (looking (\<lambda>d. if is_link_at d p then Inl (Technical ''ValueError'') else Inr ())) (\<lambda>_.
     fbind (read_bytes H p) (\<lambda>s.
       if list_all (\<lambda>c. of_char c < (128::nat)) s \<and> canonical_uuid4 (strip s) then fret (strip s)
       else raising (Technical ''ValueError'')))"

text \<open>\<open>os.link\<close>, which never replaces, and the clause that takes an existing name as published.\<close>

definition make_link :: "workspace_host \<Rightarrow> location \<Rightarrow> location \<Rightarrow> unit fs_run" where
  "make_link H src dst = system H (\<lambda>d.
     rbind (entry_of d dst) (\<lambda>q.
       if node_at d q \<noteq> None then Inl existing_entry
       else case node_at d src of None \<Rightarrow> Inl missing_entry | Some x \<Rightarrow> Inr ((), dict_set q x d)))"

fun is_existing :: "ws_failure \<Rightarrow> bool" where
  "is_existing (SystemError (OsFailure name _ _ _)) = (name = ''FileExistsError'')"
| "is_existing _ = False"

definition link_if_absent :: "workspace_host \<Rightarrow> location \<Rightarrow> location \<Rightarrow> bool fs_run" where
  "link_if_absent H src dst =
     catching (fbind (make_link H src dst) (\<lambda>_. fret True)) (\<lambda>e. if is_existing e then fret False else raising e)"

definition unlink_missing_ok :: "workspace_host \<Rightarrow> location \<Rightarrow> unit fs_run" where
  "unlink_missing_ok H p = catching (unlink H p) (\<lambda>e. if is_missing e then fret () else raising e)"

text \<open>From the point where no identity was found: other nodes may have published one meanwhile.\<close>

definition publish_node_id :: "workspace_host \<Rightarrow> string \<Rightarrow> location \<Rightarrow> (string \<times> bool) fs_run" where
  "publish_node_id H new_id p =
     fbind (looking (\<lambda>d. resolve_path d (butlast p))) (\<lambda>dir.
     fbind (fbind (make_temp H dir ''.dante-node-'' []) (\<lambda>tmp.
              finally_do
                (fbind (append_to H tmp (new_id @ [CHR 0x0A])) (\<lambda>_. fbind (sync H) (\<lambda>_. link_if_absent H tmp p)))
                (unlink_missing_ok H tmp))) (\<lambda>created.
     fbind (read_node_id H p) (\<lambda>persisted.
       if created \<and> persisted \<noteq> new_id then raising (Technical ''RuntimeError'') else fret (persisted, created))))"

definition persistent_node_id :: "workspace_host \<Rightarrow> string \<Rightarrow> location \<Rightarrow> (string \<times> bool) fs_run" where
  "persistent_node_id H new_id p =
     fbind (make_dirs H (butlast p)) (\<lambda>_.
     fbind (looking (\<lambda>d. Inr (path_exists d p \<or> is_link_at d p))) (\<lambda>found.
       if found then fbind (read_node_id H p) (\<lambda>i. fret (i, False)) else publish_node_id H new_id p))"

section \<open>The machine and the report\<close>

definition as_exn :: "ws_failure \<Rightarrow> exn" where
  "as_exn e =
     (case e of
        SystemError _ \<Rightarrow> OSError
      | ToolError _ \<Rightarrow> RuntimeError
      | Technical name \<Rightarrow> if name = ''ValueError'' then ValueError else RuntimeError)"

definition inspect_node ::
  "pylib \<Rightarrow> pydantic \<Rightarrow> (string \<Rightarrow> machine_profile result) \<Rightarrow> string \<Rightarrow> evidence_store
   \<Rightarrow> (string \<times> machine_profile \<times> evidence_store) result" where
  "inspect_node L P machine_probe node S =
     rbind (machine_probe node) (\<lambda>m0.
     rbind (read_machine P (machine_text P m0)) (\<lambda>m.
     rbind (guard (mp_node m = node) ValueError) (\<lambda>_.
     rbind (record_machine L P m S) (\<lambda>(key, S1). Inr (key, m, S1)))))"

record bootstrap_report =
  br_node :: string
  br_created :: bool
  br_snapshot :: string
  br_machine :: machine_profile
  br_state :: qual_state
  br_status :: string
  br_reasons :: "string list"

definition bootstrap_node ::
  "workspace_host \<Rightarrow> pylib \<Rightarrow> pydantic \<Rightarrow> string \<Rightarrow> location \<Rightarrow> (string \<Rightarrow> machine_profile result)
   \<Rightarrow> fs_world \<times> evidence_store \<Rightarrow> bootstrap_report result \<times> fs_world \<times> evidence_store" where
  "bootstrap_node H L P new_id p machine_probe wS =
     (case wS of (w, S) \<Rightarrow>
      (case persistent_node_id H new_id p w of
         (Inl e, w1) \<Rightarrow> (Inl (as_exn e), w1, S)
       | (Inr (node, created), w1) \<Rightarrow>
           (case inspect_node L P machine_probe node S of
              Inl e \<Rightarrow> (Inl e, w1, S)
            | Inr (key, m, S1) \<Rightarrow>
                (Inr \<lparr>br_node = node, br_created = created, br_snapshot = key, br_machine = m, br_state = QsUnknown,
                      br_status = ''NOT_YET_QUALIFIED'', br_reasons = [''hardware_evidence_missing'', ''runtime_evidence_missing'']\<rparr>,
                 w1, S1))))"

section \<open>An attempt to qualify\<close>

definition observation_only :: "qualification_identity \<Rightarrow> probe" where
  "observation_only q =
     \<lparr>pr_source = Synthetic, pr_first = Inr q, pr_again = Inr q,
      pr_run = (\<lambda>c. Inr \<lparr>ce_check = c, ce_outcome = CheckUnknown, ce_evidence = None, ce_failure = None, ce_duration = None\<rparr>),
      pr_performance = Inr no_performance\<rparr>"

record attempt_report =
  ar_node :: string
  ar_created :: bool
  ar_snapshot :: string
  ar_attempt :: string
  ar_qualification :: string
  ar_previous :: qual_state
  ar_state :: qual_state
  ar_reasons :: "string list"

text \<open>Identifiers and times the run draws: intent, attempt, completion, start and end.\<close>

record run_stamps =
  rs_intent :: string
  rs_attempt :: string
  rs_completed :: string
  rs_start :: rat
  rs_end :: rat

text \<open>A run that fails after its intent leaves the intent in the store.\<close>

definition attempt_on ::
  "pylib \<Rightarrow> pydantic \<Rightarrow> (qualification_identity \<Rightarrow> probe) option \<Rightarrow> run_stamps \<Rightarrow> string \<Rightarrow> bool \<Rightarrow> string
   \<Rightarrow> qualification_identity \<Rightarrow> evidence_store \<Rightarrow> attempt_report result \<times> evidence_store" where
  "attempt_on L P factory x node created key current S =
     (case qualification_status L P current S of
        Inl e \<Rightarrow> (Inl e, S)
      | Inr previous \<Rightarrow>
          let pr = (case factory of None \<Rightarrow> observation_only current | Some f \<Rightarrow> f current) in
          (case begin_run L P pr (rs_intent x) (rs_attempt x) (rs_start x) S of
             Inl e \<Rightarrow> (Inl e, S)
           | Inr (_, S1) \<Rightarrow>
               (case run_probe L P pr (rs_intent x) (rs_attempt x) (rs_completed x) (rs_start x) (rs_end x) S of
                  Inl e \<Rightarrow> (Inl e, S1)
                | Inr (r, S2) \<Rightarrow>
                    (case mq_attempt r of
                       None \<Rightarrow> (Inl RuntimeError, S2)
                     | Some att \<Rightarrow>
                         (Inr \<lparr>ar_node = node, ar_created = created, ar_snapshot = key, ar_attempt = att, ar_qualification = mq_id r,
                               ar_previous = as_state previous, ar_state = as_state (assess r current),
                               ar_reasons = as_reasons (assess r current)\<rparr>, S2)))))"

definition qualify_node ::
  "workspace_host \<Rightarrow> pylib \<Rightarrow> pydantic \<Rightarrow> string \<Rightarrow> location \<Rightarrow> (string \<Rightarrow> machine_profile result)
   \<Rightarrow> (qualification_identity \<Rightarrow> probe) option \<Rightarrow> run_stamps \<Rightarrow> qualification_identity
   \<Rightarrow> fs_world \<times> evidence_store \<Rightarrow> attempt_report result \<times> fs_world \<times> evidence_store" where
  "qualify_node H L P new_id p machine_probe factory x requested wS =
     (case wS of (w, S) \<Rightarrow>
      (case persistent_node_id H new_id p w of
         (Inl e, w1) \<Rightarrow> (Inl (as_exn e), w1, S)
       | (Inr (node, created), w1) \<Rightarrow>
           if mp_node (qi_machine requested) \<noteq> node then (Inl ValueError, w1, S)
           else
             (case inspect_node L P machine_probe node S of
                Inl e \<Rightarrow> (Inl e, w1, S)
              | Inr (key, m, S1) \<Rightarrow>
                  (case attempt_on L P factory x node created key (requested\<lparr>qi_machine := m\<rparr>) S1 of
                     (rep, S2) \<Rightarrow> (rep, w1, S2)))))"

section \<open>An identity is published once\<close>

text \<open>
  Of a disk that was \<open>d0\<close>: no link is new, and the identity at \<open>p\<close> is what it was, or was missing and is
  wholly \<open>s\<close>. No call but \<open>make_link\<close> touches \<open>p\<close>.
\<close>

definition published :: "location \<Rightarrow> string \<Rightarrow> disk \<Rightarrow> disk \<Rightarrow> bool" where
  "published p s d0 d \<longleftrightarrow> no_new_links d0 d
     \<and> (node_at d p = node_at d0 p \<or> node_at d0 p = None \<and> node_at d p = Some (File s))"

interpretation publishing: disk_policy "published p s d0" "linkless d0" "\<lambda>q. q \<noteq> p" "\<lambda>q t. q \<noteq> p" "\<lambda>q. q \<noteq> p"
  for p s d0
proof unfold_locales
  fix d q assume d: "published p s d0 d"
  show "linkless d0 q \<Longrightarrow> linkless d q" using d plain_later by (auto simp: published_def)
  show "published p s d0 (dict_set q Directory d)" if "q \<noteq> p" "q \<noteq> []"
    using d that by (simp add: published_def no_new_links_def)
  show "published p s d0 (dict_set q (File t) d)" if "q \<noteq> p" "q \<noteq> []" for t
    using d that by (simp add: published_def no_new_links_def)
  show "published p s d0 (dict_del q d)" if "q \<noteq> p" "q \<noteq> []"
    using d that by (simp add: published_def no_new_links_def)
qed (rule plain_prefix)

lemma published_refl: "published p s d d"
  by (simp add: published_def no_new_links_def)

lemma linked_Inr:
  assumes "make_link H src dst w = (Inr u, w')" "linkless (fw_disk w) (butlast dst)" "node_at (fw_disk w) src = Some x"
  shows "node_at (fw_disk w) dst = None" "w' = leave (dict_set dst x (fw_disk w)) w" "dst \<noteq> []"
proof -
  from assms(1,3) obtain q where q: "entry_of (fw_disk w) dst = Inr q" "node_at (fw_disk w) q = None"
    "w' = leave (dict_set q x (fw_disk w)) w"
    by (auto simp: make_link_def system_Inr rbind_eq_Inr split: if_splits)
  moreover from q(1) assms(2) have "q = dst" by (rule entry_of_plain(1) [rotated])
  ultimately show "node_at (fw_disk w) dst = None" "w' = leave (dict_set dst x (fw_disk w)) w" by simp_all
  then show "dst \<noteq> []" by (auto simp: node_at_def)
qed

lemma make_link_Inl: "make_link H src dst w = (Inl e, w') \<Longrightarrow> w' = leave (fw_disk w) w"
  by (auto simp: make_link_def system_def split: option.splits sum.splits)

lemma kept_link:
  assumes "always (published p s d0) w" "linkless d0 (butlast p)" "node_at (fw_disk w) src = Some (File s)"
  shows "always (published p s d0) (snd (make_link H src p w))"
    "make_link H src p w = (Inr u, w') \<Longrightarrow> node_at d0 p = None"
proof -
  have I: "published p s d0 (fw_disk w)" "list_all (published p s d0) (fw_seen w)" using assms(1) by (simp_all add: always_def)
  have pl: "linkless (fw_disk w) (butlast p)" using publishing.fixed_plain [OF I(1) assms(2)] .
  have new: "node_at d0 p = None" if "node_at (fw_disk w) p = None" using I(1) that by (auto simp: published_def)
  show "make_link H src p w = (Inr u, w') \<Longrightarrow> node_at d0 p = None"
    by (rule new, rule linked_Inr(1) [OF _ pl assms(3)])
  show "always (published p s d0) (snd (make_link H src p w))"
  proof (cases "make_link H src p w")
    case (Pair r w1)
    show ?thesis
    proof (cases r)
      case (Inl e)
      then show ?thesis using make_link_Inl Pair I by fastforce
    next
      case (Inr v)
      note l = linked_Inr [OF Pair [unfolded Inr] pl assms(3)]
      have "published p s d0 (dict_set p (File s) (fw_disk w))"
        using I(1) new [OF l(1)] l(3) by (auto simp: published_def no_new_links_def)
      then show ?thesis using Pair l(2) I by simp
    qed
  qed
qed

text \<open>From the temporary file, wholly written, to the end of the \<open>finally\<close> clause.\<close>

definition link_new :: "workspace_host \<Rightarrow> string \<Rightarrow> location \<Rightarrow> location \<Rightarrow> bool fs_run" where
  "link_new H s p tmp =
     finally_do (fbind (append_to H tmp s) (\<lambda>_. fbind (sync H) (\<lambda>_. link_if_absent H tmp p))) (unlink_missing_ok H tmp)"

lemma keeps_unlink_missing: "keeps (always I) (unlink H q) \<Longrightarrow> keeps (always I) (unlink_missing_ok H q)"
  unfolding unlink_missing_ok_def by (intro keeping) (auto intro!: keeping)

lemma link_if_absent_run:
  "snd (link_if_absent H src dst w) = snd (make_link H src dst w)"
  "link_if_absent H src dst w = (Inr True, w') \<longleftrightarrow> make_link H src dst w = (Inr (), w')"
  by (auto simp: link_if_absent_def catching_def fbind_def fret_def raising_def split: prod.split sum.split)

lemma finally_Inr: "finally_do m c w = (Inr a, w') \<longleftrightarrow> (\<exists>w1 u. m w = (Inr a, w1) \<and> c w1 = (Inr u, w'))"
  by (auto simp: finally_do_def split: prod.split sum.split)

text \<open>The new file is filled whole before it is linked.\<close>

lemma kept_fill_then:
  assumes "always (published p s d0) w" "node_at (fw_disk w) tmp = Some (File [])" "tmp \<noteq> p" "tmp \<noteq> []"
    "\<And>w3. always (published p s d0) w3 \<Longrightarrow> node_at (fw_disk w3) tmp = Some (File t) \<Longrightarrow> always (published p s d0) (snd (k w3))"
  shows "always (published p s d0) (snd (fbind (append_to H tmp t) (\<lambda>_. fbind (sync H) (\<lambda>_. k)) w))"
proof (rule kept_fbind)
  have app: "keeps (always (published p s d0)) (append_to H tmp t)" by (rule publishing.keeps_append) (use assms(3,4) in auto)
  then show "always (published p s d0) (snd (append_to H tmp t w))" using assms(1) by (simp add: keeps_def)
  fix a w1 assume a: "append_to H tmp t w = (Inr a, w1)" "always (published p s d0) w1"
  show "always (published p s d0) (snd (fbind (sync H) (\<lambda>_. k) w1))"
  proof (rule kept_fbind)
    show "always (published p s d0) (snd (sync H w1))" using a(2) keeps_reading(2) by (simp add: keeps_def)
    fix b w2 assume b: "sync H w1 = (Inr b, w2)" "always (published p s d0) w2"
    show "always (published p s d0) (snd (k w2))"
      by (rule assms(5) [OF b(2)]) (use append_Inr [OF a(1)] sync_Inr [OF b(1)] assms(2,4) in \<open>simp add: content_at_def\<close>)
  qed
qed

lemma filled_Inr:
  assumes "fbind (append_to H tmp t) (\<lambda>_. fbind (sync H) (\<lambda>_. k)) w = (Inr b, w')" "node_at (fw_disk w) tmp = Some (File [])"
    "always (published p s d0) w" "tmp \<noteq> p" "tmp \<noteq> []"
  obtains w3 where "always (published p s d0) w3" "node_at (fw_disk w3) tmp = Some (File t)" "k w3 = (Inr b, w')"
proof -
  from assms(1) obtain u v w1 w2 where r: "append_to H tmp t w = (Inr u, w1)" "sync H w1 = (Inr v, w2)" "k w2 = (Inr b, w')"
    unfolding fbind_Inr by blast
  have "keeps (always (published p s d0)) (append_to H tmp t)" by (rule publishing.keeps_append) (use assms(4,5) in auto)
  then have "always (published p s d0) w1" using keepsD assms(3) r(1) by blast
  then show thesis
    using that [OF _ _ r(3)] append_Inr [OF r(1)] sync_Inr [OF r(2)] assms(2,5) by (simp add: content_at_def always_def)
qed

lemma kept_link_new:
  assumes "always (published p s d0) w" "linkless d0 (butlast p)" "node_at (fw_disk w) tmp = Some (File [])"
    "tmp \<noteq> p" "tmp \<noteq> []" "butlast tmp = butlast p"
  shows "always (published p s d0) (snd (link_new H s p tmp w))"
    "link_new H s p tmp w = (Inr True, w') \<Longrightarrow> node_at d0 p = None"
proof -
  show "always (published p s d0) (snd (link_new H s p tmp w))"
    unfolding link_new_def
  proof (rule kept_finally, rule kept_fill_then [OF assms(1,3-5)])
    show "always (published p s d0) (snd (link_if_absent H tmp p w3))"
      if "always (published p s d0) w3" "node_at (fw_disk w3) tmp = Some (File s)" for w3
      unfolding link_if_absent_run using kept_link(1) [OF that(1) assms(2) that(2)] .
    show "keeps (always (published p s d0)) (unlink_missing_ok H tmp)"
      using assms(2,4,6) by (intro keeps_unlink_missing publishing.keeps_unlink) auto
  qed
  show "node_at d0 p = None" if "link_new H s p tmp w = (Inr True, w')"
  proof -
    from that obtain w1 where "fbind (append_to H tmp s) (\<lambda>_. fbind (sync H) (\<lambda>_. link_if_absent H tmp p)) w = (Inr True, w1)"
      unfolding link_new_def finally_Inr by blast
    then obtain w3 where r: "always (published p s d0) w3" "node_at (fw_disk w3) tmp = Some (File s)" "link_if_absent H tmp p w3 = (Inr True, w1)"
      by (rule filled_Inr [OF _ assms(3,1,4,5)])
    then show ?thesis unfolding link_if_absent_run(2) by (blast intro: kept_link(2) [OF _ assms(2)])
  qed
qed

text \<open>The temporary name is not that of \<open>p\<close>.\<close>

lemma kept_temp:
  assumes "always (published p s d0) w" "\<not> startswith (last p) a"
  shows "always (published p s d0) (snd (make_temp H dir a [] w))"
    "make_temp H dir a [] w = (Inr tmp, w1) \<Longrightarrow> always (published p s d0) w1 \<and> node_at (fw_disk w1) tmp = Some (File [])
       \<and> tmp \<noteq> p \<and> tmp \<noteq> [] \<and> butlast tmp = dir"
proof -
  show new: "always (published p s d0) w1 \<and> node_at (fw_disk w1) tmp = Some (File []) \<and> tmp \<noteq> p \<and> tmp \<noteq> [] \<and> butlast tmp = dir"
    if "make_temp H dir a [] w = (Inr tmp, w1)" for tmp w1
  proof -
    from that obtain x where x: "tmp = dir @ [a @ x @ []]" "w1 = leave (dict_set tmp (File []) (fw_disk w)) w" by (rule make_temp_Inr)
    have ne: "tmp \<noteq> p" "tmp \<noteq> []" using other_name [OF assms(2)] unfolding x(1) by blast+
    then have "published p s d0 (dict_set tmp (File []) (fw_disk w))" using publishing.fill always_disk [OF assms(1)] by blast
    then show ?thesis using ne x assms(1) by (simp add: always_def)
  qed
  show "always (published p s d0) (snd (make_temp H dir a [] w))"
  proof (cases "make_temp H dir a [] w")
    case (Pair r w1)
    show ?thesis
    proof (cases r)
      case (Inl e)
      then show ?thesis using make_temp_Inl [OF Pair [unfolded Inl]] Pair assms(1) by (simp add: always_def)
    next
      case (Inr q)
      then show ?thesis using new [OF Pair [unfolded Inr]] Pair by simp
    qed
  qed
qed

lemma keeps_reading_id [keeping]: "keeps (always I) (read_node_id H p)"
  unfolding read_node_id_def by (intro keeping keeps_reading) (auto intro!: keeping)

lemma kept_publish:
  assumes "always (published p (new_id @ [CHR 0x0A]) d0) w" "linkless d0 (butlast p)" "p \<noteq> []" "\<not> startswith (last p) ''.dante-node-''"
  shows "always (published p (new_id @ [CHR 0x0A]) d0) (snd (publish_node_id H new_id p w))"
    "publish_node_id H new_id p w = (Inr (i, c), w') \<Longrightarrow> c \<Longrightarrow> i = new_id \<and> node_at d0 p = None"
proof -
  let ?s = "new_id @ [CHR 0x0A]" let ?I = "published p ?s d0"
  have dir: "resolve_path (fw_disk w) (butlast p) = Inr (butlast p)"
    using publishing.fixed_plain [OF always_disk [OF assms(1)] assms(2)] by (simp add: resolve_path_def real_path_plain)
  note tmp = kept_temp [OF assms(1,4), where dir = "butlast p"]
  have body: "publish_node_id H new_id p w =
      fbind (fbind (make_temp H (butlast p) ''.dante-node-'' []) (link_new H ?s p)) (\<lambda>created.
      fbind (read_node_id H p) (\<lambda>persisted.
        if created \<and> persisted \<noteq> new_id then raising (Technical ''RuntimeError'') else fret (persisted, created))) w"
    unfolding publish_node_id_def link_new_def [abs_def] fbind_def looking_def dir by simp
  show "always ?I (snd (publish_node_id H new_id p w))"
    unfolding body
  proof (rule kept_fbind, rule kept_fbind)
    show "always ?I (snd (make_temp H (butlast p) ''.dante-node-'' [] w))"
      by (rule tmp(1))
    show "always ?I (snd (link_new H ?s p tmp w1))" if "make_temp H (butlast p) ''.dante-node-'' [] w = (Inr tmp, w1)" for tmp w1
      using tmp(2) [OF that] by (blast intro: kept_link_new(1) assms(2))
    show "always ?I w1 \<Longrightarrow> always ?I (snd (fbind (read_node_id H p) (\<lambda>persisted.
        if created \<and> persisted \<noteq> new_id then raising (Technical ''RuntimeError'') else fret (persisted, created)) w1))" for created w1
      by (rule kept_fbind) (use keeps_reading_id in \<open>auto simp: keeps_def raising_def fret_def\<close>)
  qed
  show "i = new_id \<and> node_at d0 p = None" if "publish_node_id H new_id p w = (Inr (i, c), w')" c
  proof -
    from that obtain tm w1 w2 where r: "make_temp H (butlast p) ''.dante-node-'' [] w = (Inr tm, w1)" "link_new H ?s p tm w1 = (Inr True, w2)"
      "i = new_id"
      unfolding body by (auto simp: runs split: if_splits)
    show ?thesis using tmp(2) [OF r(1)] r(2,3) by (blast intro: kept_link_new(2) [OF _ assms(2)])
  qed
qed

lemma read_node_id_Inr:
  assumes "read_node_id H p w = (Inr i, w')" "linkless (fw_disk w) p"
  shows "fw_disk w' = fw_disk w" "canonical_uuid4 i" "\<exists>s. node_at (fw_disk w) p = Some (File s) \<and> strip s = i"
  using assms by (auto simp: read_node_id_def read_bytes_def runs system_Inr stat_def real_path_plain
      split: if_splits option.splits node.splits)

text \<open>The directory above \<open>p\<close> is there or made; then an identity is read or published.\<close>

definition identity_run :: "workspace_host \<Rightarrow> string \<Rightarrow> location \<Rightarrow> bool \<Rightarrow> (string \<times> bool) fs_run" where
  "identity_run H new_id p looked = (if looked then publish_node_id H new_id p else persistent_node_id H new_id p)"

lemma identity_moments:
  assumes "linkless (fw_disk w) p" "p \<noteq> []" "\<not> startswith (last p) ''.dante-node-''" "fw_seen w = []"
  shows "always (published p (new_id @ [CHR 0x0A]) (fw_disk w)) (snd (identity_run H new_id p looked w))"
    "identity_run H new_id p looked w = (Inr (i, True), w') \<Longrightarrow> i = new_id \<and> node_at (fw_disk w) p = None"
proof -
  let ?I = "published p (new_id @ [CHR 0x0A]) (fw_disk w)"
  have up: "linkless (fw_disk w) (butlast p)" by (rule plain_prefix [OF assms(1) prefixeq_butlast])
  have start: "always ?I w" using assms(4) published_refl by (simp add: always_def)
  have dirs: "always ?I (snd (make_dirs H (butlast p) w))"
  proof -
    have "keeps (always ?I) (make_dirs H (butlast p))"
      by (rule publishing.keeps_make_dirs [OF up]) (use strictly_above assms(2) in blast)
    then show ?thesis using start by (simp add: keeps_def)
  qed
  show "always ?I (snd (identity_run H new_id p looked w))"
  proof (cases looked)
    case True
    then show ?thesis using kept_publish(1) [OF start up assms(2,3)] by (simp add: identity_run_def)
  next
    case False
    have "always ?I (snd (persistent_node_id H new_id p w))"
      unfolding persistent_node_id_def
    proof (rule kept_fbind, rule dirs, rule kept_after_looking)
      fix found :: bool
      have "keeps (always ?I) (publish_node_id H new_id p)"
        unfolding keeps_def using kept_publish(1) [OF _ up assms(2,3)] by blast
      then show "keeps (always ?I) (if found then fbind (read_node_id H p) (\<lambda>i. fret (i, False)) else publish_node_id H new_id p)"
        by (auto intro!: keeping)
    qed
    then show ?thesis using False by (simp add: identity_run_def)
  qed
  show "i = new_id \<and> node_at (fw_disk w) p = None" if "identity_run H new_id p looked w = (Inr (i, True), w')"
  proof (cases looked)
    case True
    then show ?thesis using kept_publish(2) [OF start up assms(2,3)] that by (simp add: identity_run_def)
  next
    case False
    with that obtain w1 where "make_dirs H (butlast p) w = (Inr (), w1)" "publish_node_id H new_id p w1 = (Inr (i, True), w')"
      by (auto simp: identity_run_def persistent_node_id_def runs split: if_splits)
    then show ?thesis using kept_publish(2) [OF _ up assms(2,3)] dirs by fastforce
  qed
qed

lemma identity_read:
  assumes "identity_run H new_id p looked w = (Inr (i, c), w')" "always (published p s (fw_disk w)) w'" "linkless (fw_disk w) p"
  shows "canonical_uuid4 i \<and> (\<exists>t. node_at (fw_disk w') p = Some (File t) \<and> strip t = i)"
proof -
  from assms(1) obtain w2 where r: "read_node_id H p w2 = (Inr i, w')"
    by (auto simp: identity_run_def persistent_node_id_def publish_node_id_def runs split: if_splits)
  have "fw_disk w' = fw_disk w2"
    using r by (auto simp: read_node_id_def read_bytes_def runs system_Inr split: if_splits option.splits node.splits)
  moreover from this have "linkless (fw_disk w2) p"
    using publishing.fixed_plain [OF always_disk [OF assms(2)] assms(3)] by simp
  ultimately show ?thesis using read_node_id_Inr [OF r] by simp
qed

text \<open>
  C35 (an identity is published once). Whatever call fails, with \<open>looked\<close> also when another node published
  between the look and the link: at every moment the identity file is what it was, or was missing and
  is wholly the new identity, so an existing one is never replaced. A run that returns, returns the
  canonical identity the file now has, and says it created it only if it did.
\<close>

theorem node_identity_published_once:
  assumes "linkless (fw_disk w) p" "p \<noteq> []" "\<not> startswith (last p) ''.dante-node-''" "fw_seen w = []"
    "identity_run H new_id p looked w = (r, w')"
  shows "(\<forall>d \<in> set (fw_disk w' # fw_seen w'). node_at d p = node_at (fw_disk w) p
      \<or> node_at (fw_disk w) p = None \<and> node_at d p = Some (File (new_id @ [CHR 0x0A])))
    \<and> (\<forall>i c. r = Inr (i, c) \<longrightarrow> canonical_uuid4 i \<and> (\<exists>s. node_at (fw_disk w') p = Some (File s) \<and> strip s = i)
      \<and> (c \<longrightarrow> i = new_id \<and> node_at (fw_disk w) p = None))"
proof (rule conjI, goal_cases)
  case 1
  show ?case using identity_moments(1) [OF assms(1-4), of new_id H looked] assms(5)
    by (auto simp: always_def published_def list_all_iff)
next
  case 2
  have a: "always (published p (new_id @ [CHR 0x0A]) (fw_disk w)) w'"
    using identity_moments(1) [OF assms(1-4), of new_id H looked] assms(5) by simp
  show ?case
  proof (intro allI impI, goal_cases)
    case (1 i c)
    then have run: "identity_run H new_id p looked w = (Inr (i, c), w')" using assms(5) by simp
    show ?case using identity_read [OF run a assms(1)] identity_moments(2) [OF assms(1-4), of H new_id looked i w'] run by simp
  qed
qed

section \<open>An attempt earns what it reports\<close>

lemma attempt_on_Inr:
  assumes "attempt_on L P factory x node created key cur S = (Inr rep, S2)"
  obtains pr r identity S1 where "pr = (case factory of None \<Rightarrow> observation_only cur | Some f \<Rightarrow> f cur)" "pr_first pr = Inr identity"
    "r = completed_run pr identity (rs_completed x) (rs_attempt x) (rs_start x) (rs_end x)" "append_run L P r S1 = Inr S2"
    "ar_state rep = as_state (assess r cur)" "ar_node rep = node"
proof -
  from assms obtain r S1 identity where
    "begin_run L P (case factory of None \<Rightarrow> observation_only cur | Some f \<Rightarrow> f cur) (rs_intent x) (rs_attempt x) (rs_start x) S = Inr (identity, S1)"
    "r = completed_run (case factory of None \<Rightarrow> observation_only cur | Some f \<Rightarrow> f cur) identity (rs_completed x) (rs_attempt x) (rs_start x) (rs_end x)"
    "append_run L P r S1 = Inr S2" "ar_state rep = as_state (assess r cur)" "ar_node rep = node"
    by (auto simp: attempt_on_def run_probe_def Let_def rbind_eq_Inr split: sum.split_asm option.split_asm)
  then show thesis using that by (auto simp: begin_run_def checked_by_def rbind_eq_Inr split: if_splits)
qed

lemma completed_earned:
  assumes "as_state (assess (completed_run pr identity i att s e) cur) = QsQualified"
  shows "pr_source pr = Hardware \<and> changed_inputs identity cur = []
    \<and> (\<exists>again. pr_again pr = Inr again \<and> changed_inputs identity again = [])
    \<and> (\<forall>c. c \<notin> {StructuredOutput, ToolCalling} \<longrightarrow> (\<exists>v. pr_run pr c = Inr v \<and> ce_outcome v = CheckPassed))"
proof -
  obtain es pf intr where m: "measure_probe pr identity = (es, pf, intr)" by (metis prod.collapse)
  show ?thesis using assms m measured_evidence [OF m] measured_unchanged [of pr identity es pf]
    unfolding qualified_verdict by (auto simp: completed_run_def)
qed

lemma inspect_node_Inr:
  "inspect_node L P mp node S = Inr (key, m, S1) \<Longrightarrow>
     mp_node m = node \<and> (\<exists>m0. mp node = Inr m0 \<and> read_machine P (machine_text P m0) = Inr m)"
  by (auto simp: inspect_node_def rbind_eq_Inr guard_def split: if_splits)

text \<open>
  C36 (an attempt earns what it reports). An attempt is made for the tuple of this node only, with the
  machine as its probe finds it now in place of what was asked. It reports the tuple qualified only when
  a probe was configured, of real hardware, which observed this tuple at its start and at its end and
  passed every required check: looking alone never qualifies.
\<close>

theorem node_attempt_earned:
  assumes "qualify_node H L P new_id p mp factory x requested (w, S) = (Inr rep, w1, S2)"
  shows "ar_node rep = mp_node (qi_machine requested)
    \<and> (\<exists>m0 m. mp (ar_node rep) = Inr m0 \<and> read_machine P (machine_text P m0) = Inr m \<and> mp_node m = ar_node rep
      \<and> (ar_state rep = QsQualified \<longrightarrow>
          (\<exists>f identity again. factory = Some f \<and> pr_source (f (requested\<lparr>qi_machine := m\<rparr>)) = Hardware
            \<and> pr_first (f (requested\<lparr>qi_machine := m\<rparr>)) = Inr identity \<and> changed_inputs identity (requested\<lparr>qi_machine := m\<rparr>) = []
            \<and> pr_again (f (requested\<lparr>qi_machine := m\<rparr>)) = Inr again \<and> changed_inputs identity again = []
            \<and> (\<forall>c. c \<notin> {StructuredOutput, ToolCalling} \<longrightarrow>
                (\<exists>v. pr_run (f (requested\<lparr>qi_machine := m\<rparr>)) c = Inr v \<and> ce_outcome v = CheckPassed)))))"
proof -
  from assms obtain node created key m S1 where q: "mp_node (qi_machine requested) = node"
    "inspect_node L P mp node S = Inr (key, m, S1)"
    "attempt_on L P factory x node created key (requested\<lparr>qi_machine := m\<rparr>) S1 = (Inr rep, S2)"
    by (auto simp: qualify_node_def split: prod.split_asm sum.split_asm if_split_asm)
  obtain pr r identity S3 where a: "pr = (case factory of None \<Rightarrow> observation_only (requested\<lparr>qi_machine := m\<rparr>) | Some f \<Rightarrow> f (requested\<lparr>qi_machine := m\<rparr>))"
    "pr_first pr = Inr identity" "r = completed_run pr identity (rs_completed x) (rs_attempt x) (rs_start x) (rs_end x)"
    "ar_state rep = as_state (assess r (requested\<lparr>qi_machine := m\<rparr>))" "ar_node rep = node"
    using attempt_on_Inr [OF q(3)] by metis
  have "\<exists>f. factory = Some f \<and> pr = f (requested\<lparr>qi_machine := m\<rparr>)" if "pr_source pr = Hardware"
    using a(1) that by (cases factory) (auto simp: observation_only_def)
  moreover note completed_earned [of pr identity _ _ _ _ "requested\<lparr>qi_machine := m\<rparr>"]
  ultimately show ?thesis using inspect_node_Inr [OF q(2)] q(1) a(2-5) by metis
qed

end
