(* ===== verification/Node_Probes.thy ===== *)
theory Node_Probes imports Qualification_Store Tool_Broker Local_Runtime begin

text \<open>
  dante/nvidia_probe.py and dante/node_probe.py: what a node says of its machine. The outputs of
  \<open>nvidia-smi\<close> and the answers of \<open>platform\<close> are arguments; the reader of \<open>csv\<close> is modelled as the
  standard library has it.
\<close>

section \<open>The reader of csv\<close>

text \<open>
  \<open>csv.reader(io.StringIO(text), skipinitialspace=True)\<close>: a comma delimiter, doubled quotes, not
  strict. \<open>None\<close> is the end of a line; \<open>Inl ()\<close> is \<open>csv.Error\<close>.
\<close>

datatype csv_phase = StartRecord | StartField | InField | InQuoted | QuoteInQuoted | EatNewline

record csv_state =
  cs_phase :: csv_phase
  cs_field :: string
  cs_fields :: "string list"
  cs_rows :: "string list list"

definition csv_limit :: nat where
  "csv_limit = 131072"

definition csv_add :: "char \<Rightarrow> csv_phase \<Rightarrow> csv_state \<Rightarrow> unit + csv_state" where
  "csv_add c ph s =
     (if csv_limit \<le> length (cs_field s) then Inl () else Inr (s\<lparr>cs_phase := ph, cs_field := cs_field s @ [c]\<rparr>))"

definition csv_save :: "csv_phase \<Rightarrow> csv_state \<Rightarrow> csv_state" where
  "csv_save ph s = s\<lparr>cs_phase := ph, cs_field := [], cs_fields := cs_fields s @ [cs_field s]\<rparr>"

definition is_newline :: "char \<Rightarrow> bool" where
  "is_newline c \<longleftrightarrow> c = CHR 0x0A \<or> c = CHR 0x0D"

definition csv_start_field :: "char \<Rightarrow> csv_state \<Rightarrow> unit + csv_state" where
  "csv_start_field c s =
     (if is_newline c then Inr (csv_save EatNewline s)
      else if c = CHR 0x22 then Inr (s\<lparr>cs_phase := InQuoted\<rparr>)
      else if c = CHR '' '' then Inr (s\<lparr>cs_phase := StartField\<rparr>)
      else if c = CHR '','' then Inr (csv_save StartField s)
      else csv_add c InField s)"

definition csv_char :: "char \<Rightarrow> csv_state \<Rightarrow> unit + csv_state" where
  "csv_char c s =
     (case cs_phase s of
        StartRecord \<Rightarrow> if is_newline c then Inr (s\<lparr>cs_phase := EatNewline\<rparr>) else csv_start_field c s
      | StartField \<Rightarrow> csv_start_field c s
      | InField \<Rightarrow>
          if is_newline c then Inr (csv_save EatNewline s)
          else if c = CHR '','' then Inr (csv_save StartField s) else csv_add c InField s
      | InQuoted \<Rightarrow> if c = CHR 0x22 then Inr (s\<lparr>cs_phase := QuoteInQuoted\<rparr>) else csv_add c InQuoted s
      | QuoteInQuoted \<Rightarrow>
          if c = CHR 0x22 then csv_add c InQuoted s
          else if c = CHR '','' then Inr (csv_save StartField s)
          else if is_newline c then Inr (csv_save EatNewline s) else csv_add c InField s
      | EatNewline \<Rightarrow> if is_newline c then Inr s else Inl ())"

definition csv_row :: "csv_state \<Rightarrow> csv_state" where
  "csv_row s = s\<lparr>cs_phase := StartRecord, cs_field := [], cs_fields := [], cs_rows := cs_rows s @ [cs_fields s]\<rparr>"

definition csv_eol :: "csv_state \<Rightarrow> csv_state" where
  "csv_eol s =
     (case cs_phase s of
        InQuoted \<Rightarrow> s
      | StartRecord \<Rightarrow> csv_row s
      | EatNewline \<Rightarrow> csv_row s
      | _ \<Rightarrow> csv_row (csv_save StartRecord s))"

text \<open>The lines of \<open>StringIO\<close> end after a line feed; what is left at the end is a row of its own.\<close>

fun csv_read :: "string \<Rightarrow> csv_state \<Rightarrow> unit + csv_state" where
  "csv_read [] s = Inr s"
| "csv_read [c] s = rbind (csv_char c s) (\<lambda>s1. Inr (csv_eol s1))"
| "csv_read (c # d # cs) s =
     rbind (csv_char c s) (\<lambda>s1. csv_read (d # cs) (if c = CHR 0x0A then csv_eol s1 else s1))"

definition csv_rows :: "string \<Rightarrow> unit + string list list" where
  "csv_rows t =
     rbind (csv_read t \<lparr>cs_phase = StartRecord, cs_field = [], cs_fields = [], cs_rows = []\<rparr>) (\<lambda>s.
       Inr (if cs_field s \<noteq> [] \<or> cs_phase s = InQuoted then cs_rows (csv_row (csv_save StartRecord s)) else cs_rows s))"

section \<open>nvidia-smi\<close>

record command_output =
  co_code :: int
  co_out :: string
  co_err :: string

text \<open>A call of the tool: its output, \<open>TimeoutExpired\<close>, or another failure to run it.\<close>

datatype command_result = CommandRan command_output | CommandTimeout | CommandFailed

record nvidia_observation =
  nv_available :: bool
  nv_gpus :: "gpu_profile list option"
  nv_cuda :: "string option"

definition max_output :: nat where
  "max_output = 256 * 1024"

definition bounded :: "command_output \<Rightarrow> bool" where
  "bounded o1 \<longleftrightarrow> utf8_len (co_out o1) + utf8_len (co_err o1) \<le> max_output"

definition no_devices :: "command_output \<Rightarrow> bool" where
  "no_devices o1 \<longleftrightarrow> occurs ''no devices were found'' (lower (co_out o1 @ [CHR 0x0A] @ co_err o1))"

definition label_of :: "string \<Rightarrow> string option" where
  "label_of v = (if valid_label (strip v) then Some (strip v) else None)"

definition decimal :: "string \<Rightarrow> bool" where
  "decimal s \<longleftrightarrow> s \<noteq> [] \<and> list_all is_digit s"

text \<open>One row of the inventory; \<open>int\<close> reads at most 4300 digits, and \<open>GPUProfile\<close> wants some memory.\<close>

definition gpu_of_row :: "string list \<Rightarrow> gpu_profile option" where
  "gpu_of_row row =
     (case row of
        [index, name, memory, driver] \<Rightarrow>
          (case (label_of index, label_of name, label_of driver) of
             (Some i, Some n, Some d) \<Rightarrow>
               if decimal i \<and> decimal (strip memory) \<and> length (strip memory) \<le> 4300 \<and> digits_value (strip memory) \<noteq> 0
               then Some \<lparr>g_slot = i, g_vendor = ''NVIDIA'', g_name = n, g_vram = Some (digits_value (strip memory) * 1024 * 1024),
                          g_compute = None, g_driver = Some d\<rparr>
               else None
           | _ \<Rightarrow> None)
      | _ \<Rightarrow> None)"

fun all_some :: "('a \<Rightarrow> 'b option) \<Rightarrow> 'a list \<Rightarrow> 'b list option" where
  "all_some f [] = Some []"
| "all_some f (x # xs) = (case f x of None \<Rightarrow> None | Some y \<Rightarrow> map_option (Cons y) (all_some f xs))"

definition base_inventory :: "command_output \<Rightarrow> unit + gpu_profile list option" where
  "base_inventory o1 =
     (if \<not> bounded o1 then Inr None
      else if no_devices o1 then Inr (Some [])
      else if co_code o1 \<noteq> 0 then Inr None
      else rbind (csv_rows (co_out o1)) (\<lambda>rows.
        Inr (if rows = [] \<or> list_ex (\<lambda>r. length r \<noteq> 4) rows then None
             else case all_some gpu_of_row rows of
                    None \<Rightarrow> None
                  | Some gs \<Rightarrow> if distinct (map g_slot gs) then Some gs else None)))"

fun read_capabilities :: "(string \<times> string) list \<Rightarrow> string list list \<Rightarrow> (string \<times> string) list" where
  "read_capabilities acc [] = acc"
| "read_capabilities acc (row # rows) =
     (case row of
        [x, y] \<Rightarrow>
          (case (label_of x, label_of y) of
             (Some slot, Some capability) \<Rightarrow>
               if \<not> decimal slot \<or> map_of acc slot \<noteq> None then [] else read_capabilities (dict_set slot capability acc) rows
           | _ \<Rightarrow> [])
      | _ \<Rightarrow> [])"

definition compute_capabilities :: "command_output \<Rightarrow> unit + (string \<times> string) list" where
  "compute_capabilities o1 =
     (if co_code o1 \<noteq> 0 \<or> \<not> bounded o1 then Inr [] else rbind (csv_rows (co_out o1)) (\<lambda>rows. Inr (read_capabilities [] rows)))"

text \<open>\<open>re.search\<close> of \<open>\bCUDA Version:\s*([0-9]+\.[0-9]+)\b\<close>; \<open>prev\<close> is the character before.\<close>

definition cuda_at :: "char option \<Rightarrow> string \<Rightarrow> string option" where
  "cuda_at prev s =
     (if prev_word prev \<or> \<not> startswith s ''CUDA Version:'' then None
      else let r = dropWhile is_space (drop 13 s);
               major = takeWhile is_digit r; r2 = dropWhile is_digit r;
               minor = takeWhile is_digit (tl r2); r3 = dropWhile is_digit (tl r2)
           in if major \<noteq> [] \<and> startswith r2 ''.'' \<and> minor \<noteq> [] \<and> \<not> next_word r3 then Some (major @ ''.'' @ minor) else None)"

fun cuda_search :: "char option \<Rightarrow> string \<Rightarrow> string option" where
  "cuda_search prev [] = None"
| "cuda_search prev (c # s) = (case cuda_at prev (c # s) of Some v \<Rightarrow> Some v | None \<Rightarrow> cuda_search (Some c) s)"

definition cuda_driver_api :: "command_output \<Rightarrow> string option" where
  "cuda_driver_api o1 =
     (if co_code o1 \<noteq> 0 \<or> \<not> bounded o1 then None else map_option (\<lambda>v. ''driver-supported-'' @ v) (cuda_search None (co_out o1)))"

definition seen_only :: "bool \<Rightarrow> nvidia_observation" where
  "seen_only b = \<lparr>nv_available = b, nv_gpus = None, nv_cuda = None\<rparr>"

text \<open>A call within \<open>discover_nvidia\<close>: a timeout still shows that the tool is there, another failure does not.\<close>

definition with_output :: "command_result \<Rightarrow> (command_output \<Rightarrow> nvidia_observation) \<Rightarrow> nvidia_observation" where
  "with_output r k = (case r of CommandRan o1 \<Rightarrow> k o1 | CommandTimeout \<Rightarrow> seen_only True | CommandFailed \<Rightarrow> seen_only False)"

definition with_rows :: "unit + 'a \<Rightarrow> ('a \<Rightarrow> nvidia_observation) \<Rightarrow> nvidia_observation" where
  "with_rows r k = (case r of Inl _ \<Rightarrow> seen_only False | Inr a \<Rightarrow> k a)"

definition query_base :: "string list" where
  "query_base = [''--query-gpu=index,name,memory.total,driver_version'', ''--format=csv,noheader,nounits'']"

definition query_compute :: "string list" where
  "query_compute = [''--query-gpu=index,compute_cap'', ''--format=csv,noheader,nounits'']"

definition discover_nvidia :: "(string list \<Rightarrow> command_result) option \<Rightarrow> nvidia_observation" where
  "discover_nvidia runner =
     (case runner of
        None \<Rightarrow> seen_only False
      | Some run \<Rightarrow>
          with_output (run query_base) (\<lambda>base.
          with_rows (base_inventory base) (\<lambda>gpus.
            case gpus of
              None \<Rightarrow> seen_only True
            | Some [] \<Rightarrow> \<lparr>nv_available = True, nv_gpus = Some [], nv_cuda = None\<rparr>
            | Some gs \<Rightarrow>
                with_output (run query_compute) (\<lambda>o2.
                with_rows (compute_capabilities o2) (\<lambda>caps.
                with_output (run []) (\<lambda>o3.
                  let cuda = cuda_driver_api o3 in
                  if opt_ok valid_label cuda
                  then \<lparr>nv_available = True, nv_gpus = Some (map (\<lambda>g. g\<lparr>g_compute := map_of caps (g_slot g)\<rparr>) gs), nv_cuda = cuda\<rparr>
                  else seen_only False))))))"

section \<open>The machine\<close>

record platform_facts =
  pl_system :: string
  pl_version :: string
  pl_machine :: string
  pl_processor :: string
  pl_cpus :: "nat option"
  pl_memory :: "nat option"

definition or_unknown :: "string option \<Rightarrow> string" where
  "or_unknown v = (case v of None \<Rightarrow> ''unknown'' | Some s \<Rightarrow> s)"

definition probe_machine :: "platform_facts \<Rightarrow> (string list \<Rightarrow> command_result) option \<Rightarrow> rat \<Rightarrow> string \<Rightarrow> machine_profile result" where
  "probe_machine pl runner now node =
     (let nv = discover_nvidia runner in
      checked_by valid_machine
        \<lparr>mp_node = node, mp_os = or_unknown (label_of (pl_system pl)), mp_os_version = or_unknown (label_of (pl_version pl)),
         mp_architecture = or_unknown (label_of (pl_machine pl)), mp_cpu = label_of (pl_processor pl), mp_logical = pl_cpus pl,
         mp_physical = None, mp_ram = pl_memory pl, mp_gpus = nv_gpus nv, mp_cuda_runtime = nv_cuda nv, mp_cuda_toolkit = None,
         mp_storage_class = None, mp_capacity = None, mp_free = None, mp_observed = now, mp_probe = ''stdlib-v1''\<rparr>)"

section \<open>Runtimes\<close>

datatype discovery_state = Discovered | Unsupported | Unavailable | Invalid

definition discover :: "(string \<times> runtime_observation result) list \<Rightarrow> string \<Rightarrow> discovery_state \<times> runtime_observation option" where
  "discover probes r =
     (case map_of probes r of
        None \<Rightarrow> (Unsupported, None)
      | Some p \<Rightarrow>
          (case rbind p (checked_by valid_runtime) of
             Inl _ \<Rightarrow> (Unavailable, None)
           | Inr ob \<Rightarrow> if ro_runtime ob \<noteq> r then (Invalid, None) else (Discovered, Some ob)))"

text \<open>The aliases of the models in the inventory of an adapter.\<close>

definition known_alias :: "(string \<times> string) list \<Rightarrow> pydict \<Rightarrow> string list result" where
  "known_alias aliases item =
     rbind (of_opt KeyError (dget item ''id'')) (\<lambda>v.
       case v of
         PStr s \<Rightarrow> Inr (case map_of aliases s of None \<Rightarrow> [] | Some a \<Rightarrow> [a])
       | PList _ \<Rightarrow> Inl TypeError
       | PDict _ \<Rightarrow> Inl TypeError
       | _ \<Rightarrow> Inr [])"

definition adapter_inventory ::
  "string \<Rightarrow> pydict list result \<Rightarrow> runtime_observation \<Rightarrow> (string \<times> string) list \<Rightarrow> runtime_observation result" where
  "adapter_inventory name inventory ob aliases =
     rbind (guard (name \<in> {''ollama'', ''llamacpp''} \<and> ro_runtime ob = name) ValueError) (\<lambda>_.
     rbind inventory (\<lambda>items.
     rbind (map_result (known_alias aliases) items) (\<lambda>names.
       checked_by valid_runtime (ob\<lparr>ro_inventory := sort (remdups (concat names))\<rparr>))))"

section \<open>Only what was observed\<close>

lemma label_of_valid: "label_of v = Some s \<Longrightarrow> valid_label s"
  by (simp add: label_of_def split: if_splits)

lemma gpu_of_row_valid: "gpu_of_row row = Some g \<Longrightarrow> valid_gpu g \<and> g_compute g = None"
proof -
  assume g: "gpu_of_row row = Some g"
  have "valid_label ''NVIDIA''" by code_simp
  then show ?thesis using g
    by (auto simp: gpu_of_row_def valid_gpu_def opt_ok_def dest: label_of_valid split: list.splits option.splits if_splits)
qed

lemma all_some_Some: "all_some f xs = Some ys \<Longrightarrow> list_all (\<lambda>y. \<exists>x \<in> set xs. f x = Some y) ys"
  by (induction xs arbitrary: ys) (force simp: list_all_iff split: option.splits)+

lemma base_inventory_valid:
  assumes "base_inventory o1 = Inr (Some gs)"
  shows "list_all valid_gpu gs \<and> distinct (map g_slot gs)"
proof (cases "gs = []")
  case False
  then obtain rows where "all_some gpu_of_row rows = Some gs" "distinct (map g_slot gs)"
    using assms by (auto simp: base_inventory_def rbind_eq_Inr split: if_splits option.splits)
  then show ?thesis using all_some_Some gpu_of_row_valid by (fastforce simp: list_all_iff)
qed simp

lemma read_capabilities_step:
  assumes "e \<in> set (read_capabilities acc (row # rows))"
  shows "\<exists>slot capability. valid_label capability \<and> e \<in> set (read_capabilities (dict_set slot capability acc) rows)"
  using assms by (simp split: list.split_asm option.split_asm if_split_asm)
    (metis label_of_valid option.distinct(1))

lemma read_capabilities_valid:
  "\<forall>e \<in> set acc. valid_label (snd e) \<Longrightarrow> e \<in> set (read_capabilities acc rows) \<Longrightarrow> valid_label (snd e)"
proof (induction rows arbitrary: acc)
  case (Cons row rows)
  from read_capabilities_step [OF Cons(3)] obtain slot capability where r: "valid_label capability"
    "e \<in> set (read_capabilities (dict_set slot capability acc) rows)"
    by blast
  have "\<forall>e \<in> set (dict_set slot capability acc). valid_label (snd e)"
    using set_dict_set [of slot capability acc] Cons(2) r(1) by fastforce
  then show ?case using Cons(1) r(2) by blast
qed simp

text \<open>What the tool is said to have shown is what it showed: valid GPUs with distinct slots.\<close>

definition observed_only :: "nvidia_observation \<Rightarrow> bool" where
  "observed_only nv \<longleftrightarrow> opt_ok (\<lambda>gs. nv_available nv \<and> list_all valid_gpu gs \<and> distinct (map g_slot gs)) (nv_gpus nv)
     \<and> opt_ok valid_label (nv_cuda nv)"

lemma opt_ok_Some: "opt_ok P (Some a) = P a"
  by (simp add: opt_ok_def)

lemma seen_only_observed [simp]: "observed_only (seen_only b)"
  by (simp add: observed_only_def seen_only_def opt_ok_def)

lemma with_output_observed: "(\<And>o1. observed_only (k o1)) \<Longrightarrow> observed_only (with_output r k)"
  by (simp add: with_output_def split: command_result.split)

lemma with_rows_observed: "(\<And>a. r = Inr a \<Longrightarrow> observed_only (k a)) \<Longrightarrow> observed_only (with_rows r k)"
  by (cases r) (simp_all add: with_rows_def)

lemma compute_capabilities_valid: "compute_capabilities o1 = Inr caps \<Longrightarrow> map_of caps k = Some c \<Longrightarrow> valid_label c"
  using read_capabilities_valid [of "[]" "(k, c)"]
  by (auto simp: compute_capabilities_def rbind_eq_Inr dest!: map_of_SomeD split: if_splits)

lemma discover_observed: "observed_only (discover_nvidia runner)"
proof (cases runner)
  case (Some run)
  have final: "observed_only (let cuda = cuda_driver_api o3 in
      if opt_ok valid_label cuda
      then \<lparr>nv_available = True, nv_gpus = Some (map (\<lambda>g. g\<lparr>g_compute := map_of caps (g_slot g)\<rparr>) gs), nv_cuda = cuda\<rparr>
      else seen_only False)"
    if "base_inventory o1 = Inr (Some gs)" "compute_capabilities o2 = Inr caps" for o1 o2 o3 gs caps
  proof -
    have c: "opt_ok valid_label (map_of caps k)" for k
      using compute_capabilities_valid [OF that(2)] by (simp add: opt_ok_def split: option.split)
    have "list_all valid_gpu (map (\<lambda>g. g\<lparr>g_compute := map_of caps (g_slot g)\<rparr>) gs)"
      using base_inventory_valid [OF that(1)] c by (simp add: list_all_iff valid_gpu_def)
    then show ?thesis
      using base_inventory_valid [OF that(1)]
      by (cases "opt_ok valid_label (cuda_driver_api o3)") (simp add: Let_def observed_only_def opt_ok_Some comp_def, simp add: Let_def)
  qed
  show ?thesis
    unfolding discover_nvidia_def Some option.case
  proof (intro with_output_observed with_rows_observed)
    fix o1 g assume g: "base_inventory o1 = Inr g"
    show "observed_only (case g of None \<Rightarrow> seen_only True
      | Some [] \<Rightarrow> \<lparr>nv_available = True, nv_gpus = Some [], nv_cuda = None\<rparr>
      | Some (x # xs) \<Rightarrow>
          with_output (run query_compute) (\<lambda>o2.
          with_rows (compute_capabilities o2) (\<lambda>caps.
          with_output (run []) (\<lambda>o3.
            let cuda = cuda_driver_api o3 in
            if opt_ok valid_label cuda
            then \<lparr>nv_available = True, nv_gpus = Some (map (\<lambda>g. g\<lparr>g_compute := map_of caps (g_slot g)\<rparr>) (x # xs)), nv_cuda = cuda\<rparr>
            else seen_only False))))"
      using g final by (auto split: option.split list.split intro!: with_output_observed with_rows_observed
          simp: observed_only_def [of "\<lparr>nv_available = True, nv_gpus = Some [], nv_cuda = None\<rparr>"] opt_ok_def)
  qed
qed (simp add: discover_nvidia_def)

lemma probe_machine_ok:
  assumes "pl_cpus pl \<noteq> Some 0" "pl_memory pl \<noteq> Some 0"
  shows "\<exists>m. probe_machine pl runner now node = Inr m \<and> mp_node m = node \<and> mp_gpus m = nv_gpus (discover_nvidia runner)"
proof -
  have l: "valid_label (or_unknown (label_of s))" "opt_ok valid_label (label_of s)" for s
  proof -
    have "valid_label ''unknown''" by code_simp
    then show "valid_label (or_unknown (label_of s))" "opt_ok valid_label (label_of s)"
      by (auto simp: or_unknown_def opt_ok_def label_of_def)
  qed
  have v: "valid_label ''stdlib-v1''" by code_simp
  let ?nv = "discover_nvidia runner"
  have g: "opt_ok (list_all valid_gpu) (nv_gpus ?nv)" "opt_ok (\<lambda>gs. distinct (map g_slot gs)) (nv_gpus ?nv)"
    "opt_ok valid_label (nv_cuda ?nv)"
    using discover_observed [of runner] by (auto simp: observed_only_def opt_ok_def split: option.splits)
  have n: "opt_ok (\<lambda>x. 0 < x) (pl_cpus pl)" "opt_ok (\<lambda>x. 0 < x) (pl_memory pl)"
    using assms by (auto simp: opt_ok_def split: option.splits)
  have e: "opt_ok P None" for P :: "'a \<Rightarrow> bool"
    by (simp add: opt_ok_def)
  show ?thesis
    by (simp add: probe_machine_def Let_def checked_by_def valid_machine_def consistent_inventory_def l v g n e)
qed

end
