(* ===== verification/Runtime_Probes.thy ===== *)
theory Runtime_Probes imports Node_Probes Local_Runtime begin

text \<open>
  dante/ollama_probe.py and dante/llamacpp_probe.py: the version and the models of a local server,
  read through the adapters of \<open>Local_Runtime\<close> without running a model. A probe reports a failure by
  its kind instead of raising.
\<close>

section \<open>What both report\<close>

datatype probe_state = StAvailable | StUnavailable | StError

datatype probe_failure =
    FailUnavailable | FailTimeout | FailInvalidResponse | FailPolicyDenied | FailCapacity | FailRuntimeError

record model_observation =
  mo_reference :: string
  mo_digest :: "string option"
  mo_format :: "string option"
  mo_quantization :: "string option"

text \<open>\<open>pb_ready\<close> (\<open>server_state\<close>) and \<open>pb_build\<close> are fields of the llama.cpp result only.\<close>

record probe_result =
  pb_state :: probe_state
  pb_endpoint :: string
  pb_ready :: bool
  pb_build :: "string option"
  pb_observation :: "runtime_observation option"
  pb_models :: "model_observation list"
  pb_failure :: "probe_failure option"

definition probe_failed :: "runtime_profile \<Rightarrow> probe_state \<Rightarrow> probe_failure \<Rightarrow> probe_result" where
  "probe_failed p st f = \<lparr>pb_state = st, pb_endpoint = rp_base p, pb_ready = False, pb_build = None, pb_observation = None,
     pb_models = [], pb_failure = Some f\<rparr>"

text \<open>The \<open>except\<close> clauses, in their order; \<open>None\<close> is an exception that none of them names.\<close>

definition failure_of :: "exn \<Rightarrow> (probe_state \<times> probe_failure) option" where
  "failure_of e =
     (case e of
        InferenceFailed c _ _ \<Rightarrow>
          Some (if is_a c InferenceTimeout then (StUnavailable, FailTimeout)
                else if is_a c RateQuotaUnavailable then (StError, FailCapacity)
                else if is_a c AdapterUnavailable then (StUnavailable, FailUnavailable)
                else if is_a c InvalidResponse then (StError, FailInvalidResponse)
                else if is_a c PolicyDenied then (StError, FailPolicyDenied)
                else (StError, FailRuntimeError))
      | _ \<Rightarrow> if e \<in> {KeyError, TypeError, ValueError, AttributeError} then Some (StError, FailInvalidResponse) else None)"

definition reported :: "runtime_profile \<Rightarrow> probe_result result \<Rightarrow> probe_result result" where
  "reported p r =
     (case r of
        Inr ok \<Rightarrow> Inr ok
      | Inl e \<Rightarrow> (case failure_of e of None \<Rightarrow> Inl e | Some (st, f) \<Rightarrow> Inr (probe_failed p st f)))"

section \<open>Models\<close>

definition control_char :: "char \<Rightarrow> bool" where
  "control_char c \<longleftrightarrow> of_char c < (32::nat) \<or> of_char c = (127::nat)"

text \<open>\<open>RuntimeReference\<close> with the validator \<open>safe_reference\<close>.\<close>

definition safe_reference :: "pyval \<Rightarrow> string result" where
  "safe_reference v =
     (case v of
        PStr s \<Rightarrow>
          if s = [] \<or> 512 < length s \<or> strip s = [] \<or> list_ex control_char (strip s) then Inl ValueError else Inr (strip s)
      | _ \<Rightarrow> Inl ValueError)"

definition optional_text :: "(string \<Rightarrow> bool) \<Rightarrow> pyval \<Rightarrow> string option result" where
  "optional_text ok v =
     (case v of PNone \<Rightarrow> Inr None | PStr s \<Rightarrow> if ok s then Inr (Some s) else Inl ValueError | _ \<Rightarrow> Inl ValueError)"

definition normalize_digest :: "pyval \<Rightarrow> pyval" where
  "normalize_digest v = (case v of PStr s \<Rightarrow> PStr (lower (removeprefix s ''sha256:'')) | _ \<Rightarrow> v)"

definition ollama_details :: "pydict \<Rightarrow> pydict result" where
  "ollama_details item =
     (case dget item ''details'' of
        None \<Rightarrow> Inr []
      | Some PNone \<Rightarrow> Inr []
      | Some (PDict d) \<Rightarrow> Inr d
      | Some _ \<Rightarrow> Inl (fault InvalidResponse))"

definition ollama_model :: "pydict \<Rightarrow> model_observation result" where
  "ollama_model item =
     rbind (ollama_details item) (\<lambda>details.
     rbind (of_opt KeyError (dget item ''id'')) (\<lambda>i.
     rbind (safe_reference i) (\<lambda>ref.
     rbind (optional_text valid_sha256 (normalize_digest (field item ''digest''))) (\<lambda>dg.
     rbind (optional_text valid_label (field details ''format'')) (\<lambda>f.
     rbind (optional_text valid_label (field details ''quantization_level'')) (\<lambda>q.
       Inr \<lparr>mo_reference = ref, mo_digest = dg, mo_format = f, mo_quantization = q\<rparr>))))))"

definition llama_model :: "pydict \<Rightarrow> model_observation result" where
  "llama_model item =
     rbind (of_opt KeyError (dget item ''id'')) (\<lambda>i.
     rbind (safe_reference i) (\<lambda>ref. Inr \<lparr>mo_reference = ref, mo_digest = None, mo_format = None, mo_quantization = None\<rparr>))"

definition distinct_references :: "pydict list \<Rightarrow> unit result" where
  "distinct_references items =
     rbind (map_result (\<lambda>d. of_opt KeyError (dget d ''id'')) items) (\<lambda>refs. guard (distinct refs) (fault InvalidResponse))"

definition sorted_models :: "(pydict \<Rightarrow> model_observation result) \<Rightarrow> pydict list \<Rightarrow> model_observation list result" where
  "sorted_models f items = rbind (map_result f items) (\<lambda>ms. Inr (sort_key mo_reference ms))"

definition model_alias :: "pylib \<Rightarrow> model_observation \<Rightarrow> string result" where
  "model_alias L m = rbind (digest L (PStr (mo_reference m))) (\<lambda>d. Inr (''model-'' @ take 16 d))"

definition dump_profile :: "runtime_profile \<Rightarrow> pydict" where
  "dump_profile p = jdict
     [(''runtime'', PStr (rp_runtime p)), (''base_url'', PStr (rp_base p)), (''allow_remote'', PBool (rp_remote p)),
      (''timeout_s'', PFloat (Fin (rp_timeout p))), (''max_response_bytes'', jnat (rp_limit p))]"

section \<open>Ollama\<close>

definition default_profile :: "string \<Rightarrow> runtime_profile" where
  "default_profile r = \<lparr>rp_runtime = r,
     rp_base = (if r = ''ollama'' then ''http://127.0.0.1:11434'' else ''http://127.0.0.1:8080''), rp_remote = False,
     rp_timeout = 60, rp_limit = 2000000\<rparr>"

definition profile_or :: "string \<Rightarrow> runtime_profile option \<Rightarrow> runtime_profile" where
  "profile_or r p = (case p of None \<Rightarrow> default_profile r | Some q \<Rightarrow> q)"

definition observe_ollama ::
  "pylib \<Rightarrow> (string \<Rightarrow> rat option) \<Rightarrow> rat \<Rightarrow> exchange \<Rightarrow> local_adapter \<Rightarrow> string \<Rightarrow> probe_result result" where
  "observe_ollama L pd now http A rid =
     rbind (outcome_of (ollama_version pd now http A)) (\<lambda>version.
     rbind (outcome_of (ollama_inventory pd now http A)) (\<lambda>items.
     rbind (distinct_references items) (\<lambda>_.
     rbind (sorted_models ollama_model items) (\<lambda>models.
     rbind (map_result (model_alias L) models) (\<lambda>aliases.
     rbind (digest L (PDict (dump_profile (la_profile A)))) (\<lambda>configuration.
     rbind (checked_by valid_runtime
              \<lparr>ro_id = rid, ro_runtime = ''ollama'', ro_version = Some version, ro_backend = None, ro_binary = None,
               ro_configuration = Some configuration, ro_capabilities = [], ro_inventory = aliases, ro_observed = now,
               ro_probe = ''ollama-http-v1''\<rparr>) (\<lambda>ob.
       Inr \<lparr>pb_state = StAvailable, pb_endpoint = rp_base (la_profile A), pb_ready = False, pb_build = None,
            pb_observation = Some ob, pb_models = models, pb_failure = None\<rparr>)))))))"

definition probe_ollama ::
  "pylib \<Rightarrow> (string \<Rightarrow> rat option) \<Rightarrow> rat \<Rightarrow> exchange \<Rightarrow> runtime_profile option \<Rightarrow> string \<Rightarrow> probe_result result" where
  "probe_ollama L pd now http profile rid =
     (let p = profile_or ''ollama'' profile in
      rbind (guard (rp_runtime p = ''ollama'') ValueError) (\<lambda>_.
      rbind (local_adapter_of ''ollama'' p ''default'' (Some rid)) (\<lambda>A. reported p (observe_ollama L pd now http A rid))))"

section \<open>llama.cpp\<close>

definition backends :: "string list" where
  "backends = [''cpu'', ''cuda'', ''vulkan'']"

definition llama_label :: "pyval \<Rightarrow> string option result" where
  "llama_label v =
     (case v of PNone \<Rightarrow> Inr None
      | PStr s \<Rightarrow> if valid_label (strip s) then Inr (Some (strip s)) else Inl ValueError
      | _ \<Rightarrow> Inl ValueError)"

text \<open>\<open>adapter.properties() or {}\<close>, which must be a dictionary.\<close>

definition property_dict :: "pyval option \<Rightarrow> pydict result" where
  "property_dict v =
     (case v of
        None \<Rightarrow> Inr []
      | Some w \<Rightarrow> if \<not> py_true w then Inr [] else (case w of PDict d \<Rightarrow> Inr d | _ \<Rightarrow> Inl (fault InvalidResponse)))"

definition reported_backend :: "pyval \<Rightarrow> string option \<Rightarrow> string option result" where
  "reported_backend v backend =
     (case v of
        PNone \<Rightarrow> Inr backend
      | PStr s \<Rightarrow>
          if s \<notin> set backends \<or> (backend \<noteq> None \<and> backend \<noteq> Some s) then Inl (fault InvalidResponse) else Inr (Some s)
      | PList _ \<Rightarrow> Inl TypeError
      | PDict _ \<Rightarrow> Inl TypeError
      | _ \<Rightarrow> Inl (fault InvalidResponse))"

definition observe_llamacpp ::
  "pylib \<Rightarrow> (string \<Rightarrow> rat option) \<Rightarrow> rat \<Rightarrow> exchange \<Rightarrow> local_adapter \<Rightarrow> string \<Rightarrow> string option \<Rightarrow> probe_result result" where
  "observe_llamacpp L pd now http A rid backend =
     rbind (outcome_of (llama_inventory pd now http A)) (\<lambda>items.
     rbind (rbind (outcome_of (llama_properties pd now http A)) property_dict) (\<lambda>props.
     rbind (reported_backend (field props ''backend'') backend) (\<lambda>selected.
     rbind (llama_label (field props ''version'')) (\<lambda>version.
     rbind (llama_label (field props ''build_info'')) (\<lambda>build.
     rbind (distinct_references items) (\<lambda>_.
     rbind (sorted_models llama_model items) (\<lambda>models.
     rbind (map_result (model_alias L) models) (\<lambda>aliases.
     rbind (digest L (PDict (jdict [(''profile'', PDict (dump_profile (la_profile A))), (''backend'', jopt PStr selected)]))) (\<lambda>configuration.
     rbind (checked_by valid_runtime
              \<lparr>ro_id = rid, ro_runtime = ''llamacpp'', ro_version = (if version = None then build else version), ro_backend = selected,
               ro_binary = None, ro_configuration = Some configuration, ro_capabilities = [], ro_inventory = aliases,
               ro_observed = now, ro_probe = ''llamacpp-http-v1''\<rparr>) (\<lambda>ob.
       Inr \<lparr>pb_state = StAvailable, pb_endpoint = rp_base (la_profile A), pb_ready = True, pb_build = build,
            pb_observation = Some ob, pb_models = models, pb_failure = None\<rparr>))))))))))"

definition probe_llamacpp ::
  "pylib \<Rightarrow> (string \<Rightarrow> rat option) \<Rightarrow> rat \<Rightarrow> exchange \<Rightarrow> runtime_profile option \<Rightarrow> string \<Rightarrow> string option \<Rightarrow> probe_result result" where
  "probe_llamacpp L pd now http profile rid backend =
     (let p = profile_or ''llamacpp'' profile in
      rbind (guard (rp_runtime p = ''llamacpp'') ValueError) (\<lambda>_.
      rbind (guard (backend = None \<or> the backend \<in> set backends) ValueError) (\<lambda>_.
      rbind (local_adapter_of ''llamacpp'' p ''default'' (Some rid)) (\<lambda>A. reported p (observe_llamacpp L pd now http A rid backend)))))"

section \<open>A probe reports\<close>

definition caught :: "exn set" where
  "caught = typed_failures \<union> answer_errors"

lemma caught_failure: "e \<in> caught \<Longrightarrow> failure_of e \<noteq> None"
  by (auto simp: caught_def typed_failures_def answer_errors_def failure_of_def)

lemma reported_total: "raises_only caught r \<Longrightarrow> \<exists>x. reported p r = Inr x"
  using caught_failure by (fastforce simp: reported_def raises_only_def split: sum.splits option.splits)

lemma in_caught [raises]: "ValueError \<in> caught" "TypeError \<in> caught" "KeyError \<in> caught" "fault c \<in> caught"
  using in_answer_errors fault_typed by (simp_all add: caught_def)

lemma version_meets: "meets_only typed_failures (ollama_version pd now http A)"
  unfolding ollama_version_def
  by (auto intro!: shaped_meets meeting raises ask_meets_more access_raises_more split: pyval.split)

lemma outcomes_raise [raises]:
  "raises_only caught (outcome_of (ollama_version pd now http A))" "raises_only caught (outcome_of (ollama_inventory pd now http A))"
  "raises_only caught (outcome_of (llama_inventory pd now http A))" "raises_only caught (outcome_of (llama_properties pd now http A))"
  unfolding caught_def llama_properties_def
  by (rule raises_mono [OF meets_outcome], rule version_meets inventory_meets runtime_json_meets, blast)+

lemma models_raise [raises]:
  "raises_only caught (distinct_references items)" "raises_only caught (sorted_models ollama_model items)"
  "raises_only caught (sorted_models llama_model items)"
  unfolding distinct_references_def sorted_models_def ollama_model_def llama_model_def ollama_details_def safe_reference_def optional_text_def
  by (auto intro!: raises split: option.split pyval.split)

lemma digest_raises [raises]: "digestible v \<Longrightarrow> raises_only caught (digest L v)"
  by (simp add: digest_of_dump raises_Inr)

lemma checked_raises [raises]: "raises_only caught (checked_by ok a)"
  by (simp add: checked_by_def raises_Inr raises_Inl in_caught)

lemma profile_digestible [simp]: "digestible (PDict (dump_profile p))"
  by (simp add: dump_profile_def)

lemma ollama_raises: "raises_only caught (observe_ollama L pd now http A rid)"
  unfolding observe_ollama_def model_alias_def by (auto intro!: raises)

lemma llamacpp_raises: "raises_only caught (observe_llamacpp L pd now http A rid backend)"
  unfolding observe_llamacpp_def model_alias_def llama_label_def property_dict_def reported_backend_def
  by (auto intro!: raises split: option.split pyval.split)

end
