(* ===== verification/Node_Examples.thy ===== *)
theory Node_Examples imports Node_Identity Runtime_Probes Workspace_Examples begin

text \<open>A node that takes its identity, is looked at, and has a tuple qualified by a hardware probe.\<close>

abbreviation ex_uuid :: string where
  "ex_uuid \<equiv> ''12345678-1234-4abc-8def-1234567890ab''"

abbreviation ex_id_file :: location where
  "ex_id_file \<equiv> [''w'', ''node-id'']"

lemma ex_fresh: "fst (identity_run ex_box ex_uuid ex_id_file False ex_dirs) = Inr (ex_uuid, True)"
  by code_simp

lemma ex_id_path: "linkless (fw_disk ex_dirs) ex_id_file" "\<not> startswith (last ex_id_file) ''.dante-node-''" "fw_seen ex_dirs = []"
proof -
  have "resolve_path (fw_disk ex_dirs) ex_id_file = Inr ex_id_file" by code_simp
  then show "linkless (fw_disk ex_dirs) ex_id_file" by (rule resolve_plain)
qed (code_simp, simp add: ex_dirs_def)

theorem node_identity_published_once_witness:
  "canonical_uuid4 ex_uuid
   \<and> (\<exists>s. node_at (fw_disk (snd (identity_run ex_box ex_uuid ex_id_file False ex_dirs))) ex_id_file = Some (File s) \<and> strip s = ex_uuid)"
proof -
  obtain w' where "identity_run ex_box ex_uuid ex_id_file False ex_dirs = (Inr (ex_uuid, True), w')"
    using ex_fresh by (cases "identity_run ex_box ex_uuid ex_id_file False ex_dirs") auto
  note r = this
  have "\<forall>i c. Inr (ex_uuid, True) = Inr (i, c) \<longrightarrow> canonical_uuid4 i \<and> (\<exists>s. node_at (fw_disk w') ex_id_file = Some (File s) \<and> strip s = i)"
    using node_identity_published_once [OF ex_id_path(1) _ ex_id_path(2,3) r] by blast
  then show ?thesis using r by auto
qed

definition ex_node_machine :: machine_profile where
  "ex_node_machine = ex_machine\<lparr>mp_node := ex_uuid\<rparr>"

definition ex_node_identity :: qualification_identity where
  "ex_node_identity = ex_identity\<lparr>qi_machine := ex_node_machine\<rparr>"

definition ex_hardware :: "qualification_identity \<Rightarrow> probe" where
  "ex_hardware q = ex_probe\<lparr>pr_first := Inr q, pr_again := Inr q\<rparr>"

definition ex_stamps :: run_stamps where
  "ex_stamps = \<lparr>rs_intent = ''i'', rs_attempt = ''a'', rs_completed = ''c'', rs_start = 0, rs_end = 9\<rparr>"

definition ex_node_intent :: model_qualification where
  "ex_node_intent = intent_run (ex_hardware ex_node_identity) ex_node_identity ''i'' ''a'' 0"

definition ex_node_run :: model_qualification where
  "ex_node_run = completed_run (ex_hardware ex_node_identity) ex_node_identity ''c'' ''a'' 0 9"

definition ex_node_pydantic :: pydantic where
  "ex_node_pydantic = \<lparr>iso_text = (\<lambda>_. ''t''), run_text = mq_id, text_run = (\<lambda>t. find (\<lambda>r. mq_id r = t) [ex_node_intent, ex_node_run]),
     machine_text = mp_node, text_machine = (\<lambda>_. Some ex_node_machine)\<rparr>"

definition ex_node_lib :: pylib where
  "ex_node_lib = \<lparr>sha256 = (\<lambda>s. s), float_repr = toy_repr, json_loads = (\<lambda>t. map_option (dump_run ex_node_pydantic) (text_run ex_node_pydantic t))\<rparr>"

lemma ex_node_faithful: "faithful ex_node_lib ex_node_pydantic ex_node_intent" "faithful ex_node_lib ex_node_pydantic ex_node_run"
  by (simp_all add: faithful_def ex_node_lib_def ex_node_pydantic_def ex_node_intent_def ex_node_run_def intent_run_def completed_run_def
      split: prod.split)

lemma ex_node_valid: "valid_run ex_node_intent" "valid_run ex_node_run" "valid_identity ex_node_identity" "valid_machine ex_node_machine"
  by code_simp+

lemma ex_node_facts: "mq_id ex_node_intent = ''i''" "mq_id ex_node_run = ''c''" "mq_attempt ex_node_run = Some ''a''"
    "pr_first (ex_hardware q) = Inr q"
  by (simp_all add: ex_node_intent_def ex_node_run_def intent_run_def completed_run_def ex_hardware_def split: prod.split)

lemma ex_node_verdict: "as_state (assess ex_node_run ex_node_identity) = QsQualified"
  by code_simp

lemma ex_inspected: "\<exists>key S1. inspect_node ex_node_lib ex_node_pydantic (\<lambda>_. Inr ex_node_machine) ex_uuid ex_no_evidence
    = Inr (key, ex_node_machine, S1) \<and> es_runs S1 = []"
  using ex_node_valid(4)
  by (simp add: inspect_node_def read_machine_def record_machine_def ex_node_pydantic_def digest_of_dump guard_def ex_no_evidence_def ex_node_machine_def)

lemma ex_attempted:
  assumes "es_runs S = []"
  shows "\<exists>rep S2. attempt_on ex_node_lib ex_node_pydantic (Some ex_hardware) ex_stamps node created key ex_node_identity S = (Inr rep, S2)
    \<and> ar_state rep = QsQualified \<and> ar_node rep = node"
proof -
  obtain S1 where a: "append_run ex_node_lib ex_node_pydantic ex_node_intent S = Inr S1"
    using append_run_ok [OF ex_node_faithful(1) ex_node_valid(1)] assms by fastforce
  then obtain x where "es_runs S1 = es_runs S @ [x]" "rr_id x = mq_id ex_node_intent"
    by (rule append_run_Inr [OF _ ex_node_faithful(1)])
  then have "mq_id ex_node_run \<notin> rr_id ` set (es_runs S1)" using assms by (simp add: ex_node_facts)
  from append_run_ok [OF ex_node_faithful(2) ex_node_valid(2) this]
  obtain S2 where b: "append_run ex_node_lib ex_node_pydantic ex_node_run S1 = Inr S2" by blast
  obtain sc where "scope ex_node_lib ex_node_identity = Inr sc" using scope_ok by blast
  then have st: "qualification_status ex_node_lib ex_node_pydantic ex_node_identity S = Inr (verdict_of QsUnknown [''no_evidence''])"
    using assms by (simp add: qualification_status_def latest_def)
  have c: "begin_run ex_node_lib ex_node_pydantic (ex_hardware ex_node_identity) ''i'' ''a'' 0 S = Inr (ex_node_identity, S1)"
    using a by (simp add: begin_run_def ex_node_facts checked_by_def ex_node_valid ex_node_intent_def)
  have d: "run_probe ex_node_lib ex_node_pydantic (ex_hardware ex_node_identity) ''i'' ''a'' ''c'' 0 9 S = Inr (ex_node_run, S2)"
    using c b by (simp add: run_probe_def Let_def ex_node_run_def)
  show ?thesis
    by (simp add: attempt_on_def st c d ex_stamps_def ex_node_facts ex_node_verdict)
qed

lemma ex_qualifies: "\<exists>rep w1 S2. qualify_node ex_box ex_node_lib ex_node_pydantic ex_uuid ex_id_file (\<lambda>_. Inr ex_node_machine)
    (Some ex_hardware) ex_stamps ex_node_identity (ex_dirs, ex_no_evidence) = (Inr rep, w1, S2) \<and> ar_state rep = QsQualified"
proof -
  obtain w1 where w1: "persistent_node_id ex_box ex_uuid ex_id_file ex_dirs = (Inr (ex_uuid, True), w1)"
    using ex_fresh by (cases "persistent_node_id ex_box ex_uuid ex_id_file ex_dirs") (auto simp: identity_run_def)
  obtain key S1 where k: "inspect_node ex_node_lib ex_node_pydantic (\<lambda>_. Inr ex_node_machine) ex_uuid ex_no_evidence
    = Inr (key, ex_node_machine, S1)" "es_runs S1 = []" using ex_inspected by blast
  have n: "mp_node (qi_machine ex_node_identity) = ex_uuid" "ex_node_identity\<lparr>qi_machine := ex_node_machine\<rparr> = ex_node_identity"
    by (simp_all add: ex_node_identity_def ex_node_machine_def)
  obtain rep S2 where "attempt_on ex_node_lib ex_node_pydantic (Some ex_hardware) ex_stamps ex_uuid True key ex_node_identity S1 = (Inr rep, S2)"
    "ar_state rep = QsQualified" using ex_attempted [OF k(2)] by metis
  then show ?thesis by (simp add: qualify_node_def w1 k n)
qed

theorem node_attempt_earned_witness:
  "\<exists>rep w1 S2. qualify_node ex_box ex_node_lib ex_node_pydantic ex_uuid ex_id_file (\<lambda>_. Inr ex_node_machine)
     (Some ex_hardware) ex_stamps ex_node_identity (ex_dirs, ex_no_evidence) = (Inr rep, w1, S2)
   \<and> ar_node rep = mp_node (qi_machine ex_node_identity)"
proof -
  obtain rep w1 S2 where q: "qualify_node ex_box ex_node_lib ex_node_pydantic ex_uuid ex_id_file (\<lambda>_. Inr ex_node_machine)
     (Some ex_hardware) ex_stamps ex_node_identity (ex_dirs, ex_no_evidence) = (Inr rep, w1, S2)" using ex_qualifies by blast
  show ?thesis using node_attempt_earned [OF q] q by blast
qed

end
