(* ===== verification/Artifact_Store.thy ===== *)
theory Artifact_Store imports Node_Identity Ledger_Steps begin

text \<open>
  dante/artifacts.py: the content of an artifact is published under its digest and never replaced, and
  the ledger gets the artifact only when the file there has that digest. Files are those of
  \<open>Workspace_Files\<close>, the ledger that of \<open>Ledger\<close>.
\<close>

section \<open>Blobs\<close>

text \<open>\<open>Path(filename).name == filename\<close> and not one of the three names.\<close>

definition simple_name :: "string \<Rightarrow> bool" where
  "simple_name s \<longleftrightarrow> CHR ''/'' \<notin> set s \<and> s \<notin> {[], ''.'', ''..''}"

definition blob_dir :: "location \<Rightarrow> string \<Rightarrow> location" where
  "blob_dir store sha = store @ [''blobs'', ''sha256'', take 2 sha]"

text \<open>\<open>resolve\<close>, and \<open>relative_to\<close> the root of the store.\<close>

definition blob_home :: "location \<Rightarrow> string \<Rightarrow> location fs_run" where
  "blob_home store sha = looking (\<lambda>d.
     rbind (resolve_path d (blob_dir store sha)) (\<lambda>p. rbind (relative_location store p) (\<lambda>_. Inr p)))"

definition check_blob :: "workspace_host \<Rightarrow> pylib \<Rightarrow> string \<Rightarrow> location \<Rightarrow> unit fs_run" where
  "check_blob H L sha dst =
     fbind (read_bytes H dst) (\<lambda>s. if sha256 L s = sha then fret () else raising (Technical ''ValueError''))"

definition publish_blob :: "workspace_host \<Rightarrow> pylib \<Rightarrow> location \<Rightarrow> string \<Rightarrow> string \<Rightarrow> location fs_run" where
  "publish_blob H L store data sha =
     fbind (blob_home store sha) (\<lambda>dir.
     fbind (make_dirs H dir) (\<lambda>_.
     fbind (make_temp H dir ''tmp'' []) (\<lambda>tmp.
     fbind (finally_do
              (fbind (append_to H tmp data) (\<lambda>_. fbind (sync H) (\<lambda>_.
               fbind (link_if_absent H tmp (dir @ [sha])) (\<lambda>_. check_blob H L sha (dir @ [sha])))))
              (unlink_missing_ok H tmp)) (\<lambda>_.
       fret (dir @ [sha])))))"

section \<open>Artifacts\<close>

text \<open>\<open>step_id or provenance.get('step_id')\<close>; what is not text is the identifier of no step.\<close>

definition step_reference :: "string option \<Rightarrow> pydict \<Rightarrow> pyval" where
  "step_reference step prov = (if set_text step then PStr (the step) else field prov ''step_id'')"

definition known_step :: "db \<Rightarrow> string \<Rightarrow> pyval \<Rightarrow> unit result" where
  "known_step db tid v =
     (case v of
        PNone \<Rightarrow> Inr ()
      | PStr s \<Rightarrow> rbind (get_step db tid s) (\<lambda>_. Inr ())
      | _ \<Rightarrow> Inl KeyError)"

definition lineage :: "pydict \<Rightarrow> string \<Rightarrow> pyval \<Rightarrow> pydict" where
  "lineage prov name step =
     (let l = dict_set (KStr ''logical_name'') (PStr name) prov
      in if step = PNone then l else dict_set (KStr ''step_id'') step l)"

record artifact_request =
  aq_task :: string
  aq_name :: string
  aq_data :: string
  aq_media :: string
  aq_producer :: string
  aq_provenance :: pydict
  aq_step :: "string option"

definition make_artifact :: "pylib \<Rightarrow> string \<Rightarrow> location \<Rightarrow> artifact_request \<Rightarrow> artifact result" where
  "make_artifact L new_id dst q =
     rbind (valid_checksum (sha256 L (aq_data q))) (\<lambda>c.
       Inr \<lparr>artifact_id = new_id, ar_task_id = aq_task q, media_type = aq_media q, path = path_text dst, checksum_sha256 = c,
            producer = aq_producer q,
            provenance = lineage (aq_provenance q) (aq_name q) (step_reference (aq_step q) (aq_provenance q))\<rparr>)"

definition create_artifact ::
  "workspace_host \<Rightarrow> pylib \<Rightarrow> location \<Rightarrow> tx \<Rightarrow> string \<Rightarrow> artifact_request \<Rightarrow> fs_world \<times> db \<Rightarrow> artifact result \<times> fs_world \<times> db" where
  "create_artifact H L store x new_id q wd =
     (case wd of (w, db) \<Rightarrow>
      (case rbind (guard (simple_name (aq_name q)) ValueError) (\<lambda>_.
            rbind (get_task db (aq_task q)) (\<lambda>_. known_step db (aq_task q) (step_reference (aq_step q) (aq_provenance q)))) of
         Inl e \<Rightarrow> (Inl e, w, db)
       | Inr _ \<Rightarrow>
           (case publish_blob H L store (aq_data q) (sha256 L (aq_data q)) w of
              (Inl e, w1) \<Rightarrow> (Inl (as_exn e), w1, db)
            | (Inr dst, w1) \<Rightarrow>
                (case rbind (make_artifact L new_id dst q) (\<lambda>a. rbind (add_artifact x a db) (\<lambda>(tk, db1). Inr (a, db1))) of
                   Inl e \<Rightarrow> (Inl e, w1, db)
                 | Inr (a, db1) \<Rightarrow> (Inr a, w1, db1)))))"

section \<open>A blob is published once\<close>

abbreviation blob_at :: "location \<Rightarrow> string \<Rightarrow> location" where
  "blob_at store sha \<equiv> blob_dir store sha @ [sha]"

lemma check_blob_Inr:
  assumes "check_blob H L sha p w = (Inr u, w')" "linkless (fw_disk w) p"
  shows "fw_disk w' = fw_disk w" "\<exists>s. node_at (fw_disk w) p = Some (File s) \<and> sha256 L s = sha"
  using assms by (auto simp: check_blob_def read_bytes_def runs system_Inr stat_def real_path_plain
      split: if_splits option.splits node.splits)

lemma keeps_check_blob [keeping]: "keeps (always I) (check_blob H L sha p)"
  unfolding check_blob_def by (intro keeping keeps_reading) (auto intro!: keeping)

lemma unlink_other:
  assumes "unlink_missing_ok H tmp w = (r, w')" "linkless (fw_disk w) (butlast tmp)" "q \<noteq> tmp"
  shows "node_at (fw_disk w') q = node_at (fw_disk w) q"
proof -
  have "node_at (fw_disk (snd (unlink H tmp w))) q = node_at (fw_disk w) q"
    using entry_of_plain(1) [OF assms(2)] assms(3)
    by (auto simp: unlink_def system_def rbind_def split: option.split sum.split node.split)
  then show ?thesis using assms(1)
    by (auto simp: unlink_missing_ok_def catching_def fret_def raising_def split: prod.splits sum.splits if_splits)
qed

lemma artifact_recorded: "add_artifact x a db = Inr (tk, db') \<Longrightarrow> get_artifact db' (artifact_id a) = Inr a"
  by (erule add_artifact_shape) (auto simp: get_artifact_def add_event_Inr put_task_def t_get_def map_of_append of_opt_def
      dest: map_of_SomeD split: option.splits)

lemma kept_publish_blob:
  assumes "linkless (fw_disk w) (blob_at store sha)" "\<not> startswith sha ''tmp''" "fw_seen w = []"
  shows "always (published (blob_at store sha) data (fw_disk w)) (snd (publish_blob H L store data sha w))"
    and "publish_blob H L store data sha w = (Inr dst, w') \<Longrightarrow>
      dst = blob_at store sha \<and> (\<exists>s. node_at (fw_disk w') dst = Some (File s) \<and> sha256 L s = sha)"
proof -
  let ?p = "blob_at store sha" and ?dir = "blob_dir store sha"
  let ?I = "published ?p data (fw_disk w)"
  have up: "linkless (fw_disk w) ?dir" using plain_prefix [OF assms(1), of ?dir] by simp
  have dir: "dir = ?dir" if "blob_home store sha w = (Inr dir, w1)" for dir w1
    using that up by (auto simp: blob_home_def looking_Inr rbind_eq_Inr resolve_path_def real_path_plain of_opt_def)
  have start: "always ?I w" using assms(3) published_refl by (simp add: always_def)
  have dirs: "keeps (always ?I) (make_dirs H ?dir)"
    by (rule publishing.keeps_make_dirs) (use up in \<open>auto dest: prefix_length_le\<close>)
  have name: "\<not> startswith (last ?p) ''tmp''" using assms(2) by simp
  note temp = kept_temp [OF _ name, where s = data and ?d0.0 = "fw_disk w" and dir = ?dir]
  have unlinks: "keeps (always ?I) (unlink_missing_ok H tm)" if "tm \<noteq> ?p" "butlast tm = ?dir" for tm
    using that up by (intro keeps_unlink_missing publishing.keeps_unlink) auto
  have links: "always ?I (snd (link_if_absent H tm ?p w3))" if "always ?I w3" "node_at (fw_disk w3) tm = Some (File data)" for tm w3
    unfolding link_if_absent_run using kept_link(1) [OF that(1) _ that(2)] up by simp
  show "always ?I (snd (publish_blob H L store data sha w))"
    unfolding publish_blob_def
  proof (rule kept_fbind)
    show "always ?I (snd (blob_home store sha w))" using start by (simp add: blob_home_def looking_def)
    fix d w1 assume h: "blob_home store sha w = (Inr d, w1)" "always ?I w1"
    show "always ?I (snd (fbind (make_dirs H d) (\<lambda>_. fbind (make_temp H d ''tmp'' []) (\<lambda>tmp.
       fbind (finally_do (fbind (append_to H tmp data) (\<lambda>_. fbind (sync H) (\<lambda>_.
                 fbind (link_if_absent H tmp (d @ [sha])) (\<lambda>_. check_blob H L sha (d @ [sha])))))
              (unlink_missing_ok H tmp)) (\<lambda>_. fret (d @ [sha])))) w1))"
      unfolding dir [OF h(1)]
    proof (rule kept_fbind, goal_cases)
      case 1
      show ?case using dirs h(2) by (simp add: keeps_def)
    next
      case (2 u w2)
      show ?case
      proof (rule kept_fbind, goal_cases)
        case 1
        show ?case by (rule temp(1) [OF 2(2)])
      next
        case (2 tm w3)
        note t = temp(2) [OF \<open>always ?I w2\<close> 2(1)]
        show ?case
        proof (rule kept_fbind, rule kept_finally, goal_cases)
          case 1
          show ?case
          proof (rule kept_fill_then, goal_cases)
            case (5 w4)
            show ?case by (rule kept_fbind, rule links [OF 5(1,2)]) (use keeps_check_blob in \<open>simp add: keeps_def\<close>)
          qed (use t in auto)
        next
          case 2
          show ?case by (rule unlinks) (use t in auto)
        qed (simp add: fret_def)
      qed
    qed
  qed
  then have all: "publish_blob H L store data sha w = (Inr dst, w') \<Longrightarrow> always ?I w'" by (metis snd_conv)
  show "dst = ?p \<and> (\<exists>s. node_at (fw_disk w') dst = Some (File s) \<and> sha256 L s = sha)"
    if run: "publish_blob H L store data sha w = (Inr dst, w')"
  proof -
    from run obtain dr w0 where h: "blob_home store sha w = (Inr dr, w0)"
      "fbind (make_dirs H dr) (\<lambda>_. fbind (make_temp H dr ''tmp'' []) (\<lambda>tmp.
       fbind (finally_do (fbind (append_to H tmp data) (\<lambda>_. fbind (sync H) (\<lambda>_.
                 fbind (link_if_absent H tmp (dr @ [sha])) (\<lambda>_. check_blob H L sha (dr @ [sha])))))
              (unlink_missing_ok H tmp)) (\<lambda>_. fret (dr @ [sha])))) w0 = (Inr dst, w')"
      unfolding publish_blob_def fbind_Inr [where m = "blob_home store sha"] by blast
    have h0: "w0 = w" "dr = ?dir" using h(1) dir [OF h(1)] by (auto simp: blob_home_def looking_Inr)
    from h(2) obtain w1 w2 w3 tm where r: "make_dirs H ?dir w = (Inr (), w1)" "make_temp H ?dir ''tmp'' [] w1 = (Inr tm, w2)"
      "fbind (append_to H tm data) (\<lambda>_. fbind (sync H) (\<lambda>_. fbind (link_if_absent H tm ?p) (\<lambda>_. check_blob H L sha ?p))) w2 = (Inr (), w3)"
      "unlink_missing_ok H tm w3 = (Inr (), w')" "dst = ?p"
      unfolding h0 fbind_Inr [where m = "make_dirs H _"] fbind_Inr [where m = "make_temp H _ _ _"]
        fbind_Inr [where m = "finally_do _ _"] finally_Inr fret_Inr by auto
    have t: "always ?I w2 \<and> node_at (fw_disk w2) tm = Some (File []) \<and> tm \<noteq> ?p \<and> tm \<noteq> [] \<and> butlast tm = ?dir"
      using temp(2) [OF keepsD [OF dirs start r(1)] r(2)] .
    from r(3) obtain w4 where k: "always ?I w4" "node_at (fw_disk w4) tm = Some (File data)"
      "fbind (link_if_absent H tm ?p) (\<lambda>_. check_blob H L sha ?p) w4 = (Inr (), w3)"
      by (rule filled_Inr) (use t in auto)
    from k(3) obtain c w5 where l: "link_if_absent H tm ?p w4 = (Inr c, w5)" "check_blob H L sha ?p w5 = (Inr (), w3)"
      unfolding fbind_Inr by blast
    have I5: "?I (fw_disk w5)" using links [OF k(1,2)] l(1) always_disk by fastforce
    have p5: "linkless (fw_disk w5) ?p" by (rule publishing.fixed_plain [OF I5 assms(1)])
    have u5: "linkless (fw_disk w5) ?dir" by (rule publishing.fixed_plain [OF I5 up])
    have "node_at (fw_disk w') ?p = node_at (fw_disk w3) ?p"
      by (rule unlink_other [OF r(4)]) (use t u5 check_blob_Inr(1) [OF l(2) p5] in auto)
    then show ?thesis using check_blob_Inr [OF l(2) p5] r(5) by simp
  qed
qed

text \<open>
  C33 (blobs are published once). At every moment of the creation of an artifact, whatever call fails, the
  blob of its digest is what it was, or was missing and is wholly the new content. The ledger gets the
  artifact only with a file of its digest at its path; after a failure the ledger is what it was.
\<close>

theorem artifact_blob_immutable:
  assumes "linkless (fw_disk w) (blob_at store (sha256 L (aq_data q)))" "\<not> startswith (sha256 L (aq_data q)) ''tmp''" "fw_seen w = []"
    "create_artifact H L store x new_id q (w, db) = (r, w', db')"
  shows "(\<forall>d \<in> set (fw_disk w' # fw_seen w').
        node_at d (blob_at store (sha256 L (aq_data q))) = node_at (fw_disk w) (blob_at store (sha256 L (aq_data q)))
      \<or> node_at (fw_disk w) (blob_at store (sha256 L (aq_data q))) = None
          \<and> node_at d (blob_at store (sha256 L (aq_data q))) = Some (File (aq_data q)))
    \<and> (\<forall>a. r = Inr a \<longrightarrow> path a = path_text (blob_at store (sha256 L (aq_data q))) \<and> checksum_sha256 a = lower (sha256 L (aq_data q))
        \<and> (\<exists>s. node_at (fw_disk w') (blob_at store (sha256 L (aq_data q))) = Some (File s) \<and> sha256 L s = sha256 L (aq_data q))
        \<and> get_artifact db' (artifact_id a) = Inr a)
    \<and> (\<forall>e. r = Inl e \<longrightarrow> db' = db)"
proof -
  let ?sha = "sha256 L (aq_data q)"
  note k = kept_publish_blob [OF assms(1-3), where data = "aq_data q" and H = H and L = L]
  have refl: "always (published (blob_at store ?sha) (aq_data q) (fw_disk w)) w" using assms(3) published_refl by (simp add: always_def)
  have moments: "always (published (blob_at store ?sha) (aq_data q) (fw_disk w)) w'"
    using assms(4) k(1) refl by (auto simp: create_artifact_def split: sum.split_asm prod.split_asm)
  have ok: "path a = path_text (blob_at store ?sha) \<and> checksum_sha256 a = lower ?sha
      \<and> (\<exists>s. node_at (fw_disk w') (blob_at store ?sha) = Some (File s) \<and> sha256 L s = ?sha) \<and> get_artifact db' (artifact_id a) = Inr a"
    if "r = Inr a" for a
  proof -
    from assms(4) that obtain dst tk where d: "publish_blob H L store (aq_data q) ?sha w = (Inr dst, w')"
      "make_artifact L new_id dst q = Inr a" "add_artifact x a db = Inr (tk, db')"
      by (auto simp: create_artifact_def rbind_eq_Inr split: sum.split_asm prod.split_asm)
    from d(2) have "path a = path_text dst" "checksum_sha256 a = lower ?sha"
      by (auto simp: make_artifact_def rbind_eq_Inr valid_checksum_def split: if_splits)
    then show ?thesis using k(2) [OF d(1)] artifact_recorded [OF d(3)] by blast
  qed
  have "db' = db" if "r = Inl e" for e
    using assms(4) that by (auto simp: create_artifact_def rbind_eq_Inr split: sum.split_asm prod.split_asm)
  then show ?thesis using ok moments by (auto simp: always_def published_def list_all_iff)
qed

end
