(* ===== verification/Artifact_Examples.thy ===== *)
theory Artifact_Examples imports Artifact_Store Workspace_Examples Ledger_Examples begin

text \<open>An artifact of the running task of \<open>Ledger_Examples\<close>, stored under \<open>/s\<close>.\<close>

definition ex_sha_lib :: pylib where
  "ex_sha_lib = \<lparr>sha256 = (\<lambda>_. replicate 64 (CHR ''0'')), float_repr = toy_repr, json_loads = (\<lambda>_. None)\<rparr>"

definition ex_wish :: artifact_request where
  "ex_wish = \<lparr>aq_task = ''a'', aq_name = ''n.txt'', aq_data = ''hello'', aq_media = ''text/plain'', aq_producer = ''p'',
     aq_provenance = [], aq_step = None\<rparr>"

definition ex_store_run :: "artifact result \<times> fs_world \<times> db" where
  "ex_store_run = create_artifact ex_box ex_sha_lib [''s''] (ex_tx 0 None) ''art'' ex_wish (ex_dirs, ex_running)"

lemma ex_store_ok: "case fst ex_store_run of Inr a \<Rightarrow> checksum_sha256 a = replicate 64 (CHR ''0'') | Inl _ \<Rightarrow> False"
  by code_simp

lemma ex_blob_path: "linkless (fw_disk ex_dirs) (blob_at [''s''] (sha256 ex_sha_lib (aq_data ex_wish)))"
  "\<not> startswith (sha256 ex_sha_lib (aq_data ex_wish)) ''tmp''" "fw_seen ex_dirs = []"
proof -
  have "resolve_path (fw_disk ex_dirs) (blob_at [''s''] (sha256 ex_sha_lib (aq_data ex_wish))) = Inr (blob_at [''s''] (sha256 ex_sha_lib (aq_data ex_wish)))"
    by code_simp
  then show "linkless (fw_disk ex_dirs) (blob_at [''s''] (sha256 ex_sha_lib (aq_data ex_wish)))" by (rule resolve_plain)
qed (code_simp, simp add: ex_dirs_def)

theorem artifact_blob_immutable_witness:
  "\<exists>a. fst ex_store_run = Inr a \<and> get_artifact (snd (snd ex_store_run)) (artifact_id a) = Inr a"
proof -
  obtain a where a: "fst ex_store_run = Inr a" using ex_store_ok by (cases "fst ex_store_run") auto
  obtain r w' db' where run: "ex_store_run = (r, w', db')" by (metis prod.collapse)
  have "create_artifact ex_box ex_sha_lib [''s''] (ex_tx 0 None) ''art'' ex_wish (ex_dirs, ex_running) = (r, w', db')"
    using run by (simp add: ex_store_run_def)
  note kept = artifact_blob_immutable [OF ex_blob_path this]
  have "r = Inr a" using a unfolding run by simp
  then show ?thesis using kept unfolding run by simp
qed

end
