(* ===== verification/Settings.thy ===== *)
theory Settings imports Local_Runtime Qualification_Store begin

text \<open>
  dante/telemetry.py, dante/config.py and dante/evals.py: what is taken out of a record before it is
  written to the audit log, how a configuration is put together and which one is accepted, and the
  runner of an evaluation suite. Reading YAML and fields by their types (pydantic) is an argument.
\<close>

section \<open>Redaction\<close>

text \<open>\<open>(secret|token|password|authorization|api[_-]?key)\<close> without regard to case; other keys than text hold none of these.\<close>

definition sensitive_patterns :: "pattern list" where
  "sensitive_patterns = map lit [''secret'', ''token'', ''password'', ''authorization'']
     @ [lit ''api'' @ [Opt (\<lambda>c. c = CHR ''_'' \<or> c = CHR ''-'')] @ lit ''key'']"

definition sensitive_key :: "pykey \<Rightarrow> bool" where
  "sensitive_key k \<longleftrightarrow> is_KStr k \<and> re_search sensitive_patterns (key_text k)"

definition redacted :: pyval where
  "redacted = PStr ''[REDACTED]''"

text \<open>Dictionaries and lists are searched, any other value is kept: a tuple is not searched.\<close>

fun redact :: "pyval \<Rightarrow> pyval"
  and redact_list :: "pyval list \<Rightarrow> pyval list"
  and redact_items :: "pydict \<Rightarrow> pydict" where
  "redact (PDict d) = PDict (redact_items d)"
| "redact (PList xs) = PList (redact_list xs)"
| "redact v = v"
| "redact_list [] = []"
| "redact_list (x # xs) = redact x # redact_list xs"
| "redact_items [] = []"
| "redact_items ((k, v) # d) = (k, if sensitive_key k then redacted else redact v) # redact_items d"

record trace_context =
  tc_request :: string
  tc_task :: string
  tc_trace :: string
  tc_correlation :: string

definition dict_update :: "pydict \<Rightarrow> pydict \<Rightarrow> pydict" where
  "dict_update d e = fold (\<lambda>(k, v) r. dict_set k v r) e d"

definition trace_fields :: "trace_context option \<Rightarrow> pydict" where
  "trace_fields ctx =
     (case ctx of None \<Rightarrow> []
      | Some c \<Rightarrow> [(KStr ''request_id'', PStr (tc_request c)), (KStr ''task_id'', PStr (tc_task c)),
                   (KStr ''trace_id'', PStr (tc_trace c)), (KStr ''correlation_id'', PStr (tc_correlation c))])"

text \<open>The record of \<open>JsonlAudit.write\<close>; the line is its JSON text.\<close>

definition audit_record :: "string \<Rightarrow> string \<Rightarrow> trace_context option \<Rightarrow> pydict \<Rightarrow> pydict" where
  "audit_record stamp event ctx metadata =
     dict_update ([(KStr ''timestamp_utc'', PStr stamp), (KStr ''event'', PStr event)] @ trace_fields ctx) (redact_items metadata)"

text \<open>A value in which every entry under a sensitive key that redaction can reach is the mark.\<close>

fun scrubbed :: "pyval \<Rightarrow> bool"
  and scrubbed_list :: "pyval list \<Rightarrow> bool"
  and scrubbed_items :: "pydict \<Rightarrow> bool" where
  "scrubbed (PDict d) = scrubbed_items d"
| "scrubbed (PList xs) = scrubbed_list xs"
| "scrubbed v = True"
| "scrubbed_list [] = True"
| "scrubbed_list (x # xs) = (scrubbed x \<and> scrubbed_list xs)"
| "scrubbed_items [] = True"
| "scrubbed_items ((k, v) # d) = ((if sensitive_key k then v = redacted else scrubbed v) \<and> scrubbed_items d)"

lemma redact_clean: "scrubbed (redact v)" "scrubbed_list (redact_list xs)" "scrubbed_items (redact_items d)"
  by (induction v and xs and d rule: redact_redact_list_redact_items.induct) auto

lemma redact_only: "scrubbed v \<Longrightarrow> redact v = v" "scrubbed_list xs \<Longrightarrow> redact_list xs = xs" "scrubbed_items d \<Longrightarrow> redact_items d = d"
  by (induction v and xs and d rule: redact_redact_list_redact_items.induct) (auto split: if_splits)

lemma scrubbed_items_iff: "scrubbed_items d \<longleftrightarrow> (\<forall>e \<in> set d. if sensitive_key (fst e) then snd e = redacted else scrubbed (snd e))"
proof (induction d)
  case (Cons e d)
  then show ?case by (cases e) simp
qed simp

lemma set_dict_update: "set (dict_update d e) \<subseteq> set d \<union> set e"
  unfolding dict_update_def
proof (induction e arbitrary: d)
  case (Cons kv e)
  then show ?case using set_dict_set [of "fst kv" "snd kv" d] by (fastforce simp: case_prod_beta)
qed simp

lemma audit_clean: "scrubbed_items (audit_record stamp event ctx metadata)"
proof -
  have "\<not> list_ex (\<lambda>k. sensitive_key (KStr k)) [''timestamp_utc'', ''event'', ''request_id'', ''task_id'', ''trace_id'', ''correlation_id'']"
    by code_simp
  then have "scrubbed_items ([(KStr ''timestamp_utc'', PStr stamp), (KStr ''event'', PStr event)] @ trace_fields ctx)"
    unfolding scrubbed_items_iff trace_fields_def by (auto split: option.splits)
  then show ?thesis
    using set_dict_update redact_clean(3) [of metadata] unfolding audit_record_def scrubbed_items_iff by blast
qed

section \<open>Configuration\<close>

text \<open>\<open>str.isidentifier\<close> on the first 256 code points.\<close>

definition id_start :: "char \<Rightarrow> bool" where
  "id_start c \<longleftrightarrow> (let n = of_char c :: nat in
     65 \<le> n \<and> n \<le> 90 \<or> n = 95 \<or> 97 \<le> n \<and> n \<le> 122 \<or> n \<in> {170, 181, 186} \<or> 192 \<le> n \<and> n \<noteq> 215 \<and> n \<noteq> 247)"

definition id_part :: "char \<Rightarrow> bool" where
  "id_part c \<longleftrightarrow> id_start c \<or> is_digit c \<or> of_char c = (183 :: nat)"

definition is_identifier :: "string \<Rightarrow> bool" where
  "is_identifier s \<longleftrightarrow> s \<noteq> [] \<and> id_start (hd s) \<and> list_all id_part (tl s)"

definition validate_secret_ref :: "string \<Rightarrow> string result" where
  "validate_secret_ref v =
     (if \<not> startswith v ''env://'' \<or> \<not> is_identifier (removeprefix v ''env://'') then Inl ValueError else Inr v)"

function merge_settings :: "pydict \<Rightarrow> pydict \<Rightarrow> pydict" where
  "merge_settings base [] = base"
| "merge_settings base ((k, v) # override) =
     merge_settings
       (dict_set k (case (v, map_of base k) of (PDict o1, Some (PDict b1)) \<Rightarrow> PDict (merge_settings b1 o1) | _ \<Rightarrow> v) base) override"
  by pat_completeness auto
termination
  by (relation "measure (\<lambda>(b, o1). weight_items o1)") auto

record dante_config =
  dc_environment :: string
  dc_machine :: string
  dc_continuity :: "continuity_policy option"
  dc_runtimes :: "(string \<times> runtime_profile) list"
  dc_bind :: string
  dc_database :: string
  dc_artifacts :: string
  dc_workspace :: string
  dc_max_cost :: rat
  dc_policy :: string
  dc_internal_cloud :: bool
  dc_base :: string
  dc_key :: string

definition valid_config :: "dante_config \<Rightarrow> bool" where
  "valid_config c \<longleftrightarrow> opt_ok valid_policy (dc_continuity c) \<and> list_all (\<lambda>(k, p). valid_profile p) (dc_runtimes c)
     \<and> dc_bind c \<in> {''127.0.0.1'', ''localhost'', ''::1''} \<and> 0 \<le> dc_max_cost c \<and> dc_max_cost c \<le> 0
     \<and> validate_secret_ref (dc_key c) = Inr (dc_key c)"

definition load_config :: "(pydict \<Rightarrow> dante_config option) \<Rightarrow> pyval \<Rightarrow> pydict \<Rightarrow> dante_config result" where
  "load_config settings_of raw overrides =
     (case (if py_true raw then raw else PDict []) of
        PDict d \<Rightarrow> rbind (of_opt ValueError (settings_of (merge_settings d overrides))) (checked_by valid_config)
      | _ \<Rightarrow> Inl ValueError)"

lemma loaded_config: "load_config settings_of raw overrides = Inr c \<Longrightarrow>
    dc_bind c \<in> {''127.0.0.1'', ''localhost'', ''::1''} \<and> dc_max_cost c = 0 \<and> (\<exists>v. dc_key c = ''env://'' @ v \<and> is_identifier v)"
  by (auto simp: load_config_def rbind_eq_Inr checked_by_def valid_config_def validate_secret_ref_def startswith_iff removeprefix_def
      split: pyval.splits if_splits)

text \<open>What a merged setting is: the override, or both dictionaries merged, or the base.\<close>

definition merged_value :: "pyval \<Rightarrow> pyval option \<Rightarrow> pyval" where
  "merged_value v old = (case (v, old) of (PDict o1, Some (PDict b1)) \<Rightarrow> PDict (merge_settings b1 o1) | _ \<Rightarrow> v)"

lemma merge_settings_step:
  "merge_settings base ((k, v) # override) = merge_settings (dict_set k (merged_value v (map_of base k)) base) override"
  by (simp add: merged_value_def)

lemma merged_setting:
  assumes "distinct (map fst override)"
  shows "map_of (merge_settings base override) k =
    (case map_of override k of None \<Rightarrow> map_of base k | Some v \<Rightarrow> Some (merged_value v (map_of base k)))"
  using assms
proof (induction override arbitrary: base)
  case (Cons e override)
  obtain k1 v1 where e: "e = (k1, v1)" by (cases e)
  have "map_of override k1 = None" using Cons.prems e by (simp add: map_of_eq_None_iff)
  then show ?case
    using Cons.IH [of "dict_set k1 (merged_value v1 (map_of base k1)) base"] Cons.prems
    unfolding e merge_settings_step by (cases "k = k1") (simp_all split: option.split)
qed simp

section \<open>Evaluation suites\<close>

definition run_evals :: "string \<Rightarrow> string \<Rightarrow> (string \<times> bool result) list \<Rightarrow> eval_run result" where
  "run_evals new_id name checks =
     rbind (map_result (\<lambda>(n, c). rbind c (\<lambda>b. Inr (n, b))) checks) (\<lambda>rs.
       Inr \<lparr>eval_run_id = new_id, suite = name, ev_status = (if list_all snd rs then ''passed'' else ''failed''), results = rs\<rparr>)"

lemma evals_map: "map_result (\<lambda>(n, c). rbind c (\<lambda>b. Inr (n, b))) checks = Inr rs \<longleftrightarrow> list_all2 (\<lambda>(n, c) (m, b). m = n \<and> c = Inr b) checks rs"
  by (induction checks arbitrary: rs) (auto simp: rbind_eq_Inr list_all2_Cons1 split: prod.splits)

lemma evals_passed:
  assumes "run_evals new_id name checks = Inr r"
  shows "ev_status r = ''passed'' \<longleftrightarrow> (\<forall>(n, c) \<in> set checks. c = Inr True)"
proof -
  have "list_all snd rs \<longleftrightarrow> (\<forall>(n, c) \<in> set checks. c = Inr True)"
    if "list_all2 (\<lambda>(n, c) (m, b). m = n \<and> c = Inr b) checks rs" for rs :: "(string \<times> bool) list"
    using that by (induction rule: list_all2_induct) (auto split: prod.splits)
  moreover obtain rs where "list_all2 (\<lambda>(n, c) (m, b). m = n \<and> c = Inr b) checks rs"
    "ev_status r = (if list_all snd rs then ''passed'' else ''failed'')"
    using assms by (auto simp: run_evals_def rbind_eq_Inr evals_map)
  ultimately show ?thesis by simp
qed

end
