(* ===== verification/Command_Line.thy ===== *)
theory Command_Line imports Worker Node_Identity begin

text \<open>
  dante/cli.py: the offline host of five workspace tools, the submission of a plan whose actions that
  host supports, and the other commands on the queue and on the node. Parsing arguments and files is an
  argument: a plan or an identity is what its file reads as. The worker command is \<open>Worker\<close>.
\<close>

section \<open>The offline host\<close>

definition offline_methods :: "string list" where
  "offline_methods = [''ensure_workspace'', ''create_directory'', ''write_text_file'', ''file_exists'', ''list_directory'']"

definition offline_manifest :: "string \<Rightarrow> string \<Rightarrow> workspace_method \<Rightarrow> tool_manifest" where
  "offline_manifest rt method wm =
     \<lparr>tool_id = ''workspace.'' @ method, tm_version = ''1'', permissions = {|wm_permission wm|},
      risk = (if wm_permission wm = ''read_workspace'' then ''R0'' else ''R1''), filesystem_scope = rt, network_scope = ''none'',
      secret_access = ''none'', approval_policy = ''never'', timeout_s = 30, output_limit_bytes = 500000,
      arguments_schema = None, path_permissions = []\<rparr>"

fun register_methods :: "(string \<Rightarrow> handler) \<Rightarrow> string \<Rightarrow> string list \<Rightarrow> tool_registry \<Rightarrow> tool_registry result" where
  "register_methods hs rt [] reg = Inr reg"
| "register_methods hs rt (method # methods) reg =
     rbind (workspace_method_for rt method) (\<lambda>wm.
       register_methods hs rt methods (register (offline_manifest rt method wm) (hs method) (Some wm) None reg))"

definition offline_host :: "fsys \<Rightarrow> (string \<Rightarrow> handler) \<Rightarrow> string \<Rightarrow> task \<Rightarrow> tool_registry result" where
  "offline_host F hs rt tk =
     rbind (resolve F (workspace tk)) (\<lambda>p.
       if p \<noteq> rt then Inl ValueError else register_methods hs rt offline_methods [])"

section \<open>Commands on the queue\<close>

datatype queue_command =
    SubmitPlan string "execution_plan result"
  | ShowStatus string
  | ListQueue bool
  | CancelTask string
  | RetryTask string pyfloat

datatype cli_answer =
    OneTask string queue_row task_status
  | Tasks "(string \<times> queue_row \<times> task_status) list"

fun check_actions :: "pylib \<Rightarrow> fsys \<Rightarrow> tool_registry \<Rightarrow> task \<Rightarrow> plan_action list \<Rightarrow> unit result" where
  "check_actions L F reg tk [] = Inr ()"
| "check_actions L F reg tk (a # as) =
     rbind (manifest_of reg (act_tool_id a)) (\<lambda>m.
     rbind (guard (tm_version m = act_version a) ValueError) (\<lambda>_.
     rbind (preflight L F reg tk (act_tool_id a) (act_arguments a)) (\<lambda>denied.
     rbind (guard (denied = None) ValueError) (\<lambda>_. check_actions L F reg tk as))))"

text \<open>What the commands share: the host, the root of the tools, and the identifiers of a new task.\<close>

record cli_host =
  ch_lib :: pylib
  ch_files :: fsys
  ch_handlers :: "string \<Rightarrow> handler"
  ch_root :: string
  ch_plan_text :: "execution_plan \<Rightarrow> string"
  ch_task :: string
  ch_trace :: string

definition show_status :: "db \<Rightarrow> string \<Rightarrow> cli_answer result" where
  "show_status db tid = rbind (queue_status db tid) (\<lambda>(row, st). Inr (OneTask tid row st))"

definition then_status :: "db \<Rightarrow> string \<Rightarrow> db result \<Rightarrow> cli_answer result \<times> db" where
  "then_status db tid r = (case r of Inl e \<Rightarrow> (Inl e, db) | Inr db1 \<Rightarrow> (show_status db1 tid, db1))"

definition submit_plan :: "cli_host \<Rightarrow> tx \<Rightarrow> string \<Rightarrow> execution_plan result \<Rightarrow> db \<Rightarrow> db result" where
  "submit_plan C x goal_text plan db =
     rbind (new_task (ch_task C) (ch_trace C) (tx_stamp x) goal_text (ch_root C) INTERNAL) (\<lambda>tk.
     rbind plan (\<lambda>p.
     rbind (offline_host (ch_files C) (ch_handlers C) (ch_root C) tk) (\<lambda>reg.
     rbind (check_actions (ch_lib C) (ch_files C) reg tk (plan_actions p)) (\<lambda>_.
     rbind (submit (ch_lib C) (ch_plan_text C) x tk p db) (\<lambda>(_, db1). Inr db1)))))"

text \<open>\<open>now2\<close> is the second reading of the clock in \<open>retry\<close>.\<close>

fun run_queue_command :: "cli_host \<Rightarrow> tx \<Rightarrow> rat \<Rightarrow> queue_command \<Rightarrow> db \<Rightarrow> cli_answer result \<times> db" where
  "run_queue_command C x now2 (SubmitPlan g plan) db = then_status db (ch_task C) (submit_plan C x g plan db)"
| "run_queue_command C x now2 (ShowStatus tid) db = (show_status db tid, db)"
| "run_queue_command C x now2 (ListQueue runnable) db = (rbind (queue_list (tx_now x) runnable db) (\<lambda>rs. Inr (Tasks rs)), db)"
| "run_queue_command C x now2 (CancelTask tid) db = then_status db tid (cancel x tid db)"
| "run_queue_command C x now2 (RetryTask tid delay) db = then_status db tid (retry x now2 tid delay db)"

section \<open>Commands on the node\<close>

datatype node_command =
    NodeInspect string
  | NodeBootstrap location
  | NodeHistory string
  | NodeStatus "qualification_identity result"
  | NodeQualify location "qualification_identity result"

datatype node_answer =
    Inspected string machine_profile
  | Bootstrapped bootstrap_report
  | Runs "model_qualification list"
  | Assessed assessment
  | Attempted attempt_report

record node_host =
  nh_lib :: pylib
  nh_pydantic :: pydantic
  nh_workspace :: workspace_host
  nh_new_id :: string
  nh_machine :: "string \<Rightarrow> machine_profile result"
  nh_factory :: "(qualification_identity \<Rightarrow> probe) option"
  nh_stamps :: run_stamps

fun run_node_command :: "node_host \<Rightarrow> node_command \<Rightarrow> fs_world \<times> evidence_store \<Rightarrow> node_answer result \<times> fs_world \<times> evidence_store" where
  "run_node_command N (NodeInspect node) (w, S) =
     (case inspect_node (nh_lib N) (nh_pydantic N) (nh_machine N) node S of
        Inl e \<Rightarrow> (Inl e, w, S)
      | Inr (key, m, S1) \<Rightarrow> (Inr (Inspected key m), w, S1))"
| "run_node_command N (NodeBootstrap p) (w, S) =
     (case bootstrap_node (nh_workspace N) (nh_lib N) (nh_pydantic N) (nh_new_id N) p (nh_machine N) (w, S) of
        (r, wS) \<Rightarrow> (rbind r (\<lambda>b. Inr (Bootstrapped b)), wS))"
| "run_node_command N (NodeHistory node) (w, S) =
     (rbind (history (nh_lib N) (nh_pydantic N) node S) (\<lambda>rs. Inr (Runs rs)), w, S)"
| "run_node_command N (NodeStatus q) (w, S) =
     (rbind q (\<lambda>cur. rbind (qualification_status (nh_lib N) (nh_pydantic N) cur S) (\<lambda>a. Inr (Assessed a))), w, S)"
| "run_node_command N (NodeQualify p q) (w, S) =
     (case q of
        Inl e \<Rightarrow> (Inl e, w, S)
      | Inr requested \<Rightarrow>
          (case qualify_node (nh_workspace N) (nh_lib N) (nh_pydantic N) (nh_new_id N) p (nh_machine N) (nh_factory N) (nh_stamps N) requested (w, S) of
             (r, wS) \<Rightarrow> (rbind r (\<lambda>a. Inr (Attempted a)), wS)))"

section \<open>The exit\<close>

text \<open>
  \<open>except (ValueError, KeyError, RuntimeError, OSError, sqlite3.Error)\<close>: one fixed message and exit code 1.
  Any other exception leaves \<open>main\<close>.
\<close>

definition cli_catches :: "exn \<Rightarrow> bool" where
  "cli_catches e = (case e of TypeError \<Rightarrow> False | AttributeError \<Rightarrow> False | ContinuitySignal _ _ _ \<Rightarrow> False | _ \<Rightarrow> True)"

datatype 'a cli_exit = Printed 'a | LocalCommandFailed

definition exit_code :: "'a cli_exit \<Rightarrow> int" where
  "exit_code x = (case x of Printed _ \<Rightarrow> 0 | LocalCommandFailed \<Rightarrow> 1)"

definition leave_main :: "'a result \<Rightarrow> 'a cli_exit result" where
  "leave_main r = (case r of Inr a \<Rightarrow> Inr (Printed a) | Inl e \<Rightarrow> if cli_catches e then Inr LocalCommandFailed else Inl e)"

section \<open>What can be submitted\<close>

definition tool_name :: "string \<Rightarrow> string" where
  "tool_name method = ''workspace.'' @ method"

definition offline_entry :: "(string \<Rightarrow> handler) \<Rightarrow> string \<Rightarrow> string \<Rightarrow> workspace_method \<Rightarrow> tool_entry" where
  "offline_entry hs rt method wm =
     \<lparr>te_manifest = (offline_manifest rt method wm)\<lparr>arguments_schema := Some (wm_schema wm), path_permissions := wm_paths wm\<rparr>,
      te_handler = hs method, te_method = Some wm, te_required = Some {|wm_permission wm|}\<rparr>"

lemma registered_entry:
  "register (offline_manifest rt method wm) (hs method) (Some wm) None reg = dict_set (tool_name method) (offline_entry hs rt method wm) reg"
  by (simp add: register_def offline_manifest_def offline_entry_def tool_name_def Let_def)

lemma registered_methods:
  assumes "register_methods hs rt ms reg = Inr reg'" "map_of reg' t = Some e"
  shows "map_of reg t = Some e \<or> (\<exists>m \<in> set ms. \<exists>wm. t = tool_name m \<and> workspace_method_for rt m = Inr wm \<and> e = offline_entry hs rt m wm)"
  using assms
proof (induction ms arbitrary: reg)
  case (Cons m ms)
  from Cons.prems(1) obtain wm where wm: "workspace_method_for rt m = Inr wm"
    "register_methods hs rt ms (dict_set (tool_name m) (offline_entry hs rt m wm) reg) = Inr reg'"
    by (auto simp: rbind_eq_Inr registered_entry)
  then show ?case using Cons.IH [OF wm(2) Cons.prems(2)] by (auto split: if_splits)
qed simp

lemma offline_manifests:
  assumes "offline_host F hs rt tk = Inr reg" "manifest_of reg t = Inr m"
  shows "t \<in> tool_name ` set offline_methods \<and> tm_version m = ''1'' \<and> approval_policy m = ''never''
    \<and> filesystem_scope m = rt \<and> network_scope m = ''none'' \<and> secret_access m = ''none'' \<and> resolve F (workspace tk) = Inr rt"
proof -
  from assms(1) have r: "register_methods hs rt offline_methods [] = Inr reg" "resolve F (workspace tk) = Inr rt"
    by (auto simp: offline_host_def rbind_eq_Inr split: if_splits)
  from assms(2) obtain e where e: "map_of reg t = Some e" "m = te_manifest e"
    by (auto simp: manifest_of_def split: option.splits)
  from registered_methods [OF r(1) e(1)] obtain n wm where "n \<in> set offline_methods" "t = tool_name n" "e = offline_entry hs rt n wm"
    by auto
  then show ?thesis using e(2) r(2) by (simp add: offline_entry_def offline_manifest_def)
qed

lemma check_actions_Inr:
  "check_actions L F reg tk as = Inr () \<longleftrightarrow>
     (\<forall>a \<in> set as. (\<exists>m. manifest_of reg (act_tool_id a) = Inr m \<and> tm_version m = act_version a)
        \<and> preflight L F reg tk (act_tool_id a) (act_arguments a) = Inr None)"
  by (induction as) (auto simp: rbind_eq_Inr guard_def split: if_splits)

text \<open>A plan that is submitted has only actions of the five tools, which the preflight of the worker's own host admits.\<close>

lemma submitted_supported:
  assumes "submit_plan C x g (Inr p) db = Inr db'" "a \<in> set (plan_actions p)"
  shows "\<exists>tk reg. offline_host (ch_files C) (ch_handlers C) (ch_root C) tk = Inr reg \<and> workspace tk = ch_root C \<and> status tk = CREATED
    \<and> preflight (ch_lib C) (ch_files C) reg tk (act_tool_id a) (act_arguments a) = Inr None
    \<and> act_tool_id a \<in> tool_name ` set offline_methods \<and> act_version a = ''1''"
proof -
  from assms(1) obtain tk reg where s: "new_task (ch_task C) (ch_trace C) (tx_stamp x) g (ch_root C) INTERNAL = Inr tk"
    "offline_host (ch_files C) (ch_handlers C) (ch_root C) tk = Inr reg"
    "check_actions (ch_lib C) (ch_files C) reg tk (plan_actions p) = Inr ()"
    by (auto simp: submit_plan_def rbind_eq_Inr)
  from s(1) have "workspace tk = ch_root C" "status tk = CREATED" by (auto simp: new_task_def split: if_splits)
  then show ?thesis using s(2,3) offline_manifests [OF s(2)] assms(2) unfolding check_actions_Inr by metis
qed

lemma failures_printed: "leave_main r = Inr LocalCommandFailed \<longleftrightarrow> (\<exists>e. r = Inl e \<and> cli_catches e)"
  by (auto simp: leave_main_def split: sum.split)

end
