(* ===== verification/Spec2Isabelle.thy ===== *)
theory Spec2Isabelle imports Program_Examples Continuity Qualification_Store Host_Effects Local_Runtime Workspace_Examples Node_Examples
  Artifact_Examples Settings Command_Line begin

text \<open>
  A verification library for the DANTE AI factory (the Python packages under src/dante and
  src/tools): an agent host that keeps its tasks in a SQLite ledger, sends prompts to free or local
  models through a privacy gate and a router, executes allowlisted workspace tools with a durable
  journal, and gathers the evidence that a local model is qualified for a node.

  How the parts interact. A task enters the ledger directly (\<open>agent_host.py\<close>) or with a plan in the
  queue (\<open>task_queue.py\<close>, \<open>cli.py\<close>). A worker claims it under a dated lease, inspects the effects of
  earlier attempts, and executes its actions through the tool broker, which admits a call by its
  schema and paths, asks for an approval where one is needed, journals the step before the effect
  and its receipt after it. An inference goes through the privacy gate, the router and the gateway to
  the adapters, or through the continuity manager, which re-evaluates the candidates after each
  failure. Completion is allowed by the persistent acceptance evidence only. The registry lets a
  local model be used automatically only when the qualification store holds a newest run that
  qualifies exactly the tuple of node, runtime and model observed now.

  The theories, by part of the program.

  Data. \<open>Prelude\<close>: exceptions as values, the result type and its sequencing, tables, strings.
  \<open>Py_Values\<close>: Python values, their equality, the canonical JSON text and the digest
  (\<open>digest\<close> of recovery.py). \<open>Text_Patterns\<close>: regular expressions. \<open>Json_Parser\<close>: the strict reader
  of inference.py. \<open>Contracts\<close>, \<open>Schema\<close>: contracts/*.py and the tables of the database.

  Ledger (ledger.py, recovery.py, migrations.py). \<open>Recovery\<close>: step records and receipts. \<open>Leases\<close>: the
  ownership check. \<open>Ledger\<close>, \<open>Ledger_Steps\<close>: one definition per method, guards in the code's order.
  \<open>Ledger_Machine\<close>: every writing method is a rule of the step relation \<open>ledger_step\<close>, with its
  invariants over all histories; the locale \<open>history\<close> is interpreted for statuses, queues, the
  journal, claims and grants. \<open>Ledger_Examples\<close>: a history evaluated by the kernel.
  \<open>Task_Queue\<close> (task_queue.py), \<open>Approvals\<close> (approvals.py), \<open>Acceptance\<close> (acceptance.py).

  Tools. \<open>Tool_Schema\<close> (contracts/tools.py), \<open>Tool_Policy\<close> and \<open>Tool_Broker\<close> (tool_broker.py: registry,
  containment, preflight, approval hash, limits, journalled invocation). \<open>Programs\<close>: several
  transactions with anything happening between them, and rules that carry a relation through a
  program (locales \<open>world_relation\<close>, \<open>ledger_relation\<close>). \<open>Broker_Effects\<close>: how often a handler runs.

  Inference. \<open>Messages\<close> (contracts/inference.py), \<open>Inference\<close> and \<open>Gateway\<close> (inference.py),
  \<open>Local_Runtime\<close> (local_runtime.py, contracts/runtime.py), \<open>Privacy\<close> (privacy.py), \<open>Registry\<close>
  (registry.py), \<open>Routing\<close> (routing.py), \<open>Continuity_Store\<close> and \<open>Continuity\<close> (continuity.py,
  contracts/continuity.py).

  Host and worker. \<open>Agent_Host\<close> (agent_host.py), \<open>Worker\<close> (worker.py), \<open>Host_Effects\<close>: what they
  guarantee beyond one invocation. \<open>Program_Examples\<close>: concrete tools.

  Qualification. \<open>Qualification_Model\<close> (contracts/qualification.py), \<open>Qualification\<close> and
  \<open>Qualification_Store\<close> (qualification.py), \<open>Node_Probes\<close> (nvidia_probe.py, node_probe.py),
  \<open>Runtime_Probes\<close> (ollama_probe.py, llamacpp_probe.py), \<open>Node_Identity\<close> (node_bootstrap.py,
  node_qualification.py), with \<open>Node_Examples\<close>.

  Workspace (tools/ai_cloud_workspace.py). \<open>Workspace_Files\<close>: a tree of directories, files and links
  with system calls that can each fail; every disk a call leaves is recorded. \<open>Workspace\<close>: names, paths and the
  file tools. \<open>Workspace_Download\<close>: the web tools. \<open>Workspace_Safety\<close>: the contract \<open>disk_policy\<close>, which says what may be
  made, filled and dropped, and its lemmas for every call. \<open>Workspace_Confined\<close> interprets it by the
  confinement to the workspace, by all-or-nothing replacement and by the making of directories;
  \<open>Node_Identity\<close> by publication without replacement, which \<open>Artifact_Store\<close> (artifacts.py) shares.
  \<open>Workspace_Web\<close>: checked downloads, reading back. \<open>Workspace_Examples\<close>, \<open>Artifact_Examples\<close>: runs.

  The rest. \<open>Settings\<close> (telemetry.py, config.py, evals.py) and \<open>Command_Line\<close> (cli.py).

  What the lemmas show. Invariants of every history of the ledger: statuses follow the transition
  table, completion needs evidence, a step starts at most once, receipts match, a lost lease stays
  lost, an approval is consumed once (this theory, from the interpretations of \<open>history\<close>). Effects:
  one handler call per idempotency key, every call paid by a journalled step, earlier effects
  inspected first. Decisions: routes are free, private and qualified, candidates are exactly those no gate
  refuses, verdicts are exactly those the evidence earns. Errors: adapters and probes raise or report
  typed failures only. Round trips: JSON text, files of the workspace. Files: confinement, all-or-nothing
  writes, identities and blobs published once. Termination: a continuation ends within its window.

  Modelling. A method is a function from its arguments and the state to a result and the new state;
  an exception is a value of \<open>exn\<close>, and each raise and early return is a branch. A transaction
  that raises leaves the database as it was. Integers are unbounded as in Python, times and floats are
  rationals with \<open>inf\<close> and \<open>nan\<close> where the code can meet them. Characters are the first 256 code
  points. What the code calls and does not define is an argument: SHA-256, the text of floats,
  pydantic's text of a model and its reading back, the clock, drawn identifiers, the HTTP exchange, DNS,
  URL parsing, address classes, the outputs of nvidia-smi and of platform. On the ledger side the file
  system is an argument (\<open>fsys\<close>); on the workspace side it is modelled, for POSIX paths.

  Bounds and fuel. \<open>walk\<close> follows at most 40 links, as the host does. \<open>worker_run n\<close> is \<open>n\<close> rounds of
  a loop that ends only when told to. \<open>follow\<close> makes the six attempts of the code. The loop of a
  continuation has fuel; \<open>continuity_ends\<close> shows that twice the allowed attempts are enough within one window of the
  clock. Every other recursion is structural or has a termination proof.

  Not modelled. The append to the JSON-lines audit log, its lock and the trace variable (they
  decide nothing); threads, signals and the daemon thread a timed-out handler leaves behind (its
  effects are those of the environment); SQLite itself, its files and the text of the migrations;
  reading YAML and command-line arguments; \<open>ctypes\<close> and \<open>subprocess\<close> in the probes; Windows paths, junctions and
  reserved devices beyond the checks the code makes; two processes in one workspace directory at
  once, except the publication of a node identity, which is proved from any state another node may
  leave; scripts/dante_e2e.py, a fixture scenario over the modelled parts.
\<close>

section \<open>The ledger over whole histories\<close>

definition reachable :: "pylib \<Rightarrow> db \<Rightarrow> bool" where
  "reachable L = (repair_step L)\<^sup>*\<^sup>* empty_db"

lemma empty_invariants:
  "tasks_keyed empty_db" "t_wf (task_queue empty_db)" "leases_dated empty_db" "journal_ok L empty_db" "approvals_ok empty_db"
  by (simp_all add: tasks_keyed_def task_of_def empty_db_def t_get_def t_wf_def leases_dated_def journal_ok_def
      keys_unique_def approvals_ok_def)

lemma reachable_invariants:
  assumes "reachable L db"
  shows "tasks_keyed db" "t_wf (task_queue db)" "leases_dated db" "journal_ok L db" "approvals_ok db"
  using assms statuses.run_inv [of L empty_db db] queues.run_inv [of L empty_db db]
    journal.run_inv [of L empty_db db] grants.run_inv [of L empty_db db] empty_invariants
  by (auto simp: reachable_def)

lemma reachable_ledger: "(ledger_step L)\<^sup>*\<^sup>* empty_db db \<Longrightarrow> reachable L db"
  by (simp add: reachable_def ledger_repair)



text \<open>
  C2 (completion needs evidence). The only step that can make a task COMPLETED is one taken in a
  state whose persistent acceptance is complete: every required tool has a verified receipt, every
  required artifact an intact file and every required final field a value.
\<close>

theorem completion_needs_evidence:
  assumes "reachable L db" "repair_step L db db'"
    and "status_of db tid = Some s" "s \<noteq> COMPLETED" "status_of db' tid = Some COMPLETED"
  shows "\<exists>F r. acceptance_result_of L F db tid = Inr r \<and> acceptance_complete r"
  using assms(2)
proof (cases rule: repair_step_status)
  case 1
  with reachable_invariants(1) [OF assms(1)] assms(3-5) show ?thesis
    unfolding only_cancels_def by force
next
  case (2 F x i tgt step md r)
  from 2 show ?thesis
  proof (cases rule: transition_cases)
    case 1
    with assms(3-5) show ?thesis by simp
  next
    case (2 tk)
    have "task_of db' = task_of (put_task i r db)"
      by (rule task_of_cong [OF add_event_frame(1) [OF 2(7)]])
    with 2(1,5) have "status_of db' tid = (if tid = i then Some tgt else status_of db tid)"
      by (simp add: status_of_def)
    with assms(3-5) 2(4) show ?thesis by (auto split: if_splits)
  qed
qed

theorem completion_needs_evidence_witness:
  "\<exists>F r. acceptance_result_of ex_lib F ex_verifying ''a'' = Inr r \<and> acceptance_complete r"
  by (rule completion_needs_evidence [of ex_lib ex_verifying ex_completed "''a''" VERIFYING])
     (simp_all add: reachable_ledger ex_direct_run Ordinary, code_simp+)

text \<open>
  C3 (an action is started at most once). Over any history without a reconciliation a journalled
  step keeps its operation, and it is started at most once more if it is an intent and never again
  otherwise; whoever repeats, crashes or recovers, its effect is not replayed.
\<close>

theorem step_started_at_most_once:
  assumes "(ledger_step L)\<^sup>*\<^sup>* db db'" "t_get (execution_steps db) sid = Some s"
  shows "\<exists>s'. t_get (execution_steps db') sid = Some s' \<and> same_step s s' \<and> attempt s \<le> attempt s'
    \<and> attempt s' + (if sr_state s' = StIntent then 1 else 0) \<le> attempt s + (if sr_state s = StIntent then 1 else 0)"
proof -
  have "journal_moves db db'" by (rule claims.run_rel [OF assms(1)]) simp
  with assms(2) show ?thesis
    by (fastforce simp: journal_moves_def step_moves_def claim_budget_def)
qed

theorem step_started_at_most_once_witness:
  "\<exists>s'. t_get (execution_steps ex_completed) ''s'' = Some s' \<and> attempt s' \<le> 1"
proof -
  have "holds (t_get (execution_steps ex_intent) ''s'') (\<lambda>s. attempt s = 0)" by code_simp
  then obtain s where s: "t_get (execution_steps ex_intent) ''s'' = Some s" "attempt s = 0"
    by (rule holdsE)
  show ?thesis
    using step_started_at_most_once [OF ex_direct_run(3) s(1)] s(2) by (fastforce split: if_splits)
qed

text \<open>
  C4 (journal integrity). In every reachable state a task has at most one step for an idempotency
  key, and a succeeded step carries a receipt of one of the two canonical shapes whose digest is
  the recorded one.
\<close>

theorem journal_integrity:
  assumes "reachable L db" "t_get (execution_steps db) i = Some s"
  shows "step_id s = i
    \<and> (\<forall>j s'. t_get (execution_steps db) j = Some s' \<and> sr_task_id s' = sr_task_id s
          \<and> idempotency_key s' = idempotency_key s \<longrightarrow> j = i)
    \<and> (sr_state s = StSucceeded \<longrightarrow>
         (\<exists>r h. sr_result s = Some (PDict r) \<and> (r = bare_receipt \<or> (\<exists>p c. r = file_receipt p c))
           \<and> digest L (PDict r) = Inr h \<and> result_digest s = Some h))"
proof -
  have "journal_ok L db" by (rule reachable_invariants(4) [OF assms(1)])
  then have "keys_unique db" "step_id s = i" "receipted L s"
    using assms(2) unfolding journal_ok_def by blast+
  moreover from \<open>keys_unique db\<close> have "t_get (execution_steps db) j = Some s' \<and> sr_task_id s' = sr_task_id s
      \<and> idempotency_key s' = idempotency_key s \<longrightarrow> j = i" for j s'
    using assms(2) unfolding keys_unique_def by blast
  ultimately show ?thesis by (simp add: receipted_def)
qed

theorem journal_integrity_witness:
  "\<exists>s r h. t_get (execution_steps ex_completed) ''s'' = Some s
     \<and> digest ex_lib (PDict r) = Inr h \<and> result_digest s = Some h"
proof -
  have "holds (t_get (execution_steps ex_completed) ''s'') (\<lambda>s. sr_state s = StSucceeded)" by code_simp
  then obtain s where s: "t_get (execution_steps ex_completed) ''s'' = Some s" "sr_state s = StSucceeded"
    by (rule holdsE)
  show ?thesis
    using journal_integrity [OF reachable_ledger [OF ex_direct_run(1)] s(1)] s by blast
qed



text \<open>
  C6 (approvals are one-use). An approval that has been consumed by an action authorizes no
  action ever again, and a decided approval is never decided again, in any later state.
\<close>

theorem approval_consumed_once:
  assumes "reachable L db" "consume_action apid tid h db = Inr db1" "(repair_step L)\<^sup>*\<^sup>* db1 db2"
  shows "consume_action apid tid' h' db2 = Inl PermissionError \<and> decide L x apid token ph actor ok db2 = Inl PermissionError"
proof -
  have "repair_step L db db1" using assms(2) by (blast intro: Ordinary Consume)
  with assms(1) have r1: "reachable L db1" by (auto simp: reachable_def)
  from assms(2) obtain row where "t_get (approvals db1) apid = Some row" "row_status row = Executed"
    by (elim consume_shape) (auto simp: row_status_def)
  moreover have "approval_path db1 db2" "approvals_ok db2"
    using grants.run [OF assms(3)] reachable_invariants(5) [OF r1] by blast+
  ultimately obtain row2 where row2: "t_get (approvals db2) apid = Some row2" "approval_reach Executed (row_status row2)"
    "approval_row_ok row2"
    unfolding approval_path_def approvals_ok_def by metis
  then have "row_status row2 = Executed"
    unfolding approval_reach_def by (metis approval_next.simps(4) converse_rtranclpE empty_iff list.set(1))
  with row2 show ?thesis
    by (auto simp: consume_action_def decide_def authorizes_def approval_row_ok_def row_status_def)
qed

theorem approval_consumed_once_witness:
  "consume_action ''p'' ''a'' ''h'' ex_consumed = Inl PermissionError"
  using approval_consumed_once [OF reachable_ledger [OF ex_approval_run(3)]
      after_db_ok [OF ex_approval_ok(3), folded ex_consumed_def] rtranclp.rtrancl_refl]
  by blast

section \<open>The tool broker\<close>

text \<open>
  C7 (at most one effect per key). However often an action is invoked under one idempotency key, by
  whichever brokers, with whichever arguments and approvals, and whatever other actors do to the
  ledger in between short of a reconciliation, its handler is called at most once, and not at all
  when the journal already holds a started, finished or uncertain step of that key.
\<close>

theorem effect_at_most_once:
  assumes "reachable L (w_db w)" "\<forall>c\<in>set cs. keyed L k c"
  shows "length (w_runs (invocations ti cs w)) \<le> length (w_runs w) + (if spent (w_db w) ti k then 0 else 1)"
proof -
  have "sound L (w_db w)" using reachable_invariants [OF assms(1)] by (simp add: sound_def)
  with invocations_once [OF assms(2), of ti w] show ?thesis
    by (auto simp: once_def no_call_def)
qed

theorem effect_at_most_once_witness:
  "length (w_runs (invocations ''a'' [ex_invocation, ex_invocation] (ex_world ex_running))) \<le> 1"
proof -
  obtain k where k: "invocation_key ex_lib ex_tools ''tool'' [] (Some ''key'') = Inr k"
    using ex_invocation_key by (auto simp: is_ok_iff)
  have "\<forall>c\<in>set [ex_invocation, ex_invocation]. keyed ex_lib k c"
    using k quiet_ex_env by (simp add: keyed_def ex_invocation_def ex_env_def)
  moreover have "reachable ex_lib (w_db (ex_world ex_running))"
    by (simp add: ex_world_def reachable_ledger ex_approval_run)
  ultimately show ?thesis
    using effect_at_most_once [of ex_lib "ex_world ex_running" "[ex_invocation, ex_invocation]" k "''a''"]
    by (simp add: ex_world_def split: if_splits)
qed



text \<open>
  C13 (containment). When the preflight admits a call, the tool has only the two workspace
  permissions, no secrets and no network, its arguments satisfy its declared schema, and every
  declared path argument resolves, through no symbolic link, to a place inside the tool's scope,
  which itself lies inside the workspace of the task.
\<close>

theorem admitted_paths_are_contained:
  assumes "preflight L F reg tk tid args = Inr None" "manifest_of reg tid = Inr m"
    and "(name, permission) \<in> set (path_permissions m)" "dget args name = Some v"
  shows "permission |\<in>| permissions m \<and> permissions m |\<subseteq>| supported_permissions
    \<and> secret_access m = ''none'' \<and> network_scope m = ''none''
    \<and> (\<exists>s p base scope ws. v = PStr s \<and> ''..'' \<notin> set (path_parts s)
        \<and> resolve F (posix_text (path_parts (filesystem_scope m))) = Inr base \<and> relative_to p base
        \<and> resolve F (posix_text (if absolute s then path_parts s else path_parts (filesystem_scope m) @ path_parts s)) = Inr p
        \<and> contained_path F (workspace tk) (posix_text (path_parts (filesystem_scope m))) = Inr scope
        \<and> resolve F (posix_text (path_parts (workspace tk))) = Inr ws \<and> relative_to scope ws)"
proof -
  from assms(1) obtain e req where e: "map_of reg tid = Some e" "permissions (te_manifest e) = req"
    "req |\<subseteq>| supported_permissions" "secret_access (te_manifest e) = ''none''" "network_scope (te_manifest e) = ''none''"
    "check_scope F tk e req args = Inr ()"
    by (elim preflight_admits) blast
  with assms(2) have m: "te_manifest e = m" by (simp add: manifest_of_def)
  from check_scope_paths [OF e(6) assms(3) [folded m] assms(4)] obtain s p scope where
    s: "permission |\<in>| req" "v = PStr s" "contained_path F (filesystem_scope m) s = Inr p"
    "contained_path F (workspace tk) (posix_text (path_parts (filesystem_scope m))) = Inr scope"
    unfolding m by blast
  obtain base where b: "''..'' \<notin> set (path_parts s)"
      "resolve F (posix_text (path_parts (filesystem_scope m))) = Inr base" "relative_to p base"
      "resolve F (posix_text (if absolute s then path_parts s else path_parts (filesystem_scope m) @ path_parts s)) = Inr p"
    using s(3) by (elim contained_path_Inr) blast
  obtain ws where "resolve F (posix_text (path_parts (workspace tk))) = Inr ws" "relative_to scope ws"
    using s(4) by (elim contained_path_Inr) blast
  with e m s b show ?thesis by blast
qed

theorem admitted_paths_are_contained_witness:
  "\<exists>p base. resolve ex_fs (posix_text (path_parts ''/w'')) = Inr base \<and> relative_to p base
     \<and> resolve ex_fs (posix_text (path_parts ''/w'' @ path_parts ''notes.txt'')) = Inr p"
proof -
  have "manifest_of ex_reader_tools ''read'' = Inr ex_reader" "(''p'', ''read_workspace'') \<in> set (path_permissions ex_reader)"
    "dget ex_reader_args ''p'' = Some (PStr ''notes.txt'')" "filesystem_scope ex_reader = ''/w''" "\<not> absolute ''notes.txt''"
    by (simp_all add: manifest_of_def ex_reader_tools_def register_def ex_reader_def ex_manifest_def Let_def
        ex_reader_args_def dget_def absolute_def)
  with admitted_paths_are_contained [OF ex_reader_admitted this(1,2,3)] show ?thesis by (auto split: if_splits)
qed

text \<open>
  C22 (errors of the validation). A schema the check accepted can make the validation of a value,
  whatever the value is, fail with \<open>ValueError\<close> only; so the broker turns every mismatch into a
  denial.
\<close>

theorem checked_schema_raises_ValueError:
  assumes "check_schema s = Inr ()"
  shows "validate_schema s v \<in> {Inr (), Inl ValueError}"
proof (cases "validate_schema s v")
  case (Inl e)
  with validate_schema_error(1) [OF assms] show ?thesis by blast
qed simp

theorem checked_schema_raises_ValueError_witness:
  "validate_schema (PDict [(KStr ''type'', PStr ''integer''), (KStr ''enum'', PList [PInt 1])]) (PBool True) \<in> {Inr (), Inl ValueError}"
  by (rule checked_schema_raises_ValueError) code_simp

end
